(* ===== verification/Prelude.thy ===== *)
theory Prelude
  imports Main "HOL-Library.Word" "HOL-Library.List_Lexorder" "HOL-Library.Char_ord"
    "HOL-Library.Sublist"
begin

text \<open>
  Shared vocabulary of the development: the machine types of the C sources, the named
  collections the component theories feed, and generic facts on words, lists and prefixes.

  \<^item> \<open>uint8_t\<close>, \<open>uint32_t\<close>, \<open>uint64_t\<close> are words of that width; an \<open>int32_t\<close> is a
    32 bit word read with \<open>sint\<close>.
  \<^item> A C string is the list of its characters before the terminating NUL, so \<open>strlen\<close> is
    \<open>length\<close>; a pointer that the code compares with \<open>NULL\<close> is an option.
  \<^item> Strings carry the lexicographic order of \<open>List_Lexorder\<close> over \<open>Char_ord\<close>: compare the
    bytes as unsigned numbers, a proper prefix first. It is the key order of LMDB.
\<close>

unbundle bit_operations_syntax

named_theorems codec_simps \<open>byte level encoders and decoders\<close>
named_theorems rc_simps \<open>the mapping of result codes\<close>
named_theorems storage_defs \<open>definitions of the storage operations\<close>
named_theorems handler_defs \<open>definitions of the MIB handler phases\<close>
named_theorems ipc_defs \<open>definitions of the request handlers of the IPC server\<close>

type_synonym byte = "8 word"
type_synonym bytes = "8 word list"
type_synonym uint32 = "32 word"
type_synonym int32 = "32 word"
type_synonym uint64 = "64 word"

type_synonym store = "string \<rightharpoonup> bytes"

subsection \<open>Words\<close>

lemma unat_byte_bound: "unat (b :: byte) < 256"
  by (rule order.strict_trans2 [OF unsigned_less]) simp

lemma unat_ucast_8_32 [simp]: "unat (ucast (b :: byte) :: uint32) = unat b"
  using unat_byte_bound [of b] by (simp add: unsigned_ucast_eq take_bit_nat_eq_self)

lemma sint_32_bounds: "- 2147483648 \<le> sint (x :: int32)" "sint (x :: int32) \<le> 2147483647"
  using sint_greater_eq [of x] sint_less [of x] by simp_all

lemma sint_word_of_int_32:
  "- 2147483648 \<le> i \<Longrightarrow> i \<le> 2147483647 \<Longrightarrow> sint (word_of_int i :: int32) = i"
  by (simp add: signed_take_bit_int_eq_self sint_sbintrunc')

subsection \<open>Lists\<close>

lemma take_drop_snoc:
  "n < length xs \<Longrightarrow> take (Suc n) xs = take n xs @ [xs ! n]"
  by (rule take_Suc_conv_app_nth)

lemma distinct_adj_sorted_wrt_less:
  fixes xs :: "'a :: linorder list"
  shows "sorted_wrt (<) xs \<longleftrightarrow> sorted xs \<and> distinct xs"
  by (rule strict_sorted_iff)

subsection \<open>Prefixes and the key order\<close>

lemma string_le_prefix: "prefix (p :: string) k \<Longrightarrow> p \<le> k"
proof (induction p arbitrary: k)
  case Nil
  then show ?case by simp
next
  case (Cons c p)
  then obtain k' where "k = c # k'" "prefix p k'" by (cases k) auto
  with Cons.IH show ?case by simp
qed

text \<open>
  Keys that start with a prefix form an interval of the key order: a key above one of them
  that does not carry the prefix is above all of them.
\<close>

lemma prefix_interval:
  "prefix (p :: string) k \<Longrightarrow> p \<le> j \<Longrightarrow> j \<le> k \<Longrightarrow> prefix p j"
proof (induction p arbitrary: j k)
  case Nil
  then show ?case by simp
next
  case (Cons c p)
  from Cons.prems(1) obtain k' where k: "k = c # k'" "prefix p k'"
    by (cases k) auto
  from Cons.prems(2) obtain d j' where j: "j = d # j'"
    by (cases j) auto
  have "c = d \<and> p \<le> j' \<and> j' \<le> k'"
    using Cons.prems(2,3) k j by (auto simp: Cons_le_Cons)
  with Cons.IH [of k' j'] k j show ?case by simp
qed

end
