(* ===== verification/Lmdb.thy ===== *)
theory Lmdb
  imports Prelude
begin

text \<open>
  The platform below the storage layer: liblmdb, \<open>malloc\<close> and \<open>mkdir\<close>. Their code is not
  part of the repository, so they are a parameter: a record of operations that every
  definition of the storage layer takes as its first argument. What the storage layer relies
  on is the locale \<open>lmdb_laws\<close> (documented behaviour of LMDB: snapshot transactions, one
  ordered key space, atomic commit, cursors in key order, \<open>MDB_NOTFOUND\<close> only for a missing
  key or the end of a scan) and its extension
  \<open>lmdb_reliable\<close> (no resource runs out).

  An environment value of type \<open>'e\<close> holds the committed contents and the bookkeeping of live
  handles, a transaction \<open>'t\<close> its own view, a cursor \<open>'c\<close> a position in such a view.
\<close>

datatype mdb_rc =
    MDB_SUCCESS | MDB_NOTFOUND | MDB_MAP_FULL | MDB_TXN_FULL
  | EINVAL | EACCES | EAGAIN | EBUSY
  | MDB_OTHER int  \<comment> \<open>every other LMDB or errno code\<close>

datatype mdb_flag = MDB_NOSYNC | MDB_RDONLY | MDB_NOSUBDIR

datatype cursor_op = MDB_FIRST | MDB_NEXT | MDB_SET_RANGE string

datatype mkdir_result = MKDIR_OK | MKDIR_EEXIST | MKDIR_ERR

record mdb_stat =
  ms_psize :: nat
  ms_branch_pages :: nat
  ms_leaf_pages :: nat
  ms_overflow_pages :: nat
  ms_entries :: nat

record ('e, 't, 'c) platform =
  malloc_ok :: "nat \<Rightarrow> bool"  \<comment> \<open>does an allocation of that many bytes succeed\<close>
  os_mkdir :: "string \<Rightarrow> mkdir_result"
  mdb_env_create :: "mdb_rc \<times> 'e"
  mdb_env_set_mapsize :: "'e \<Rightarrow> nat \<Rightarrow> mdb_rc \<times> 'e"
  mdb_env_set_maxreaders :: "'e \<Rightarrow> nat \<Rightarrow> mdb_rc \<times> 'e"
  mdb_env_open :: "'e \<Rightarrow> string \<Rightarrow> mdb_flag list \<Rightarrow> mdb_rc \<times> 'e"
  mdb_env_sync :: "'e \<Rightarrow> bool \<Rightarrow> mdb_rc \<times> 'e"
  mdb_txn_begin :: "'e \<Rightarrow> bool \<Rightarrow> mdb_rc \<times> 't \<times> 'e"  \<comment> \<open>the flag is \<open>MDB_RDONLY\<close>\<close>
  mdb_txn_commit :: "'t \<Rightarrow> 'e \<Rightarrow> mdb_rc \<times> 'e"
  mdb_txn_abort :: "'t \<Rightarrow> 'e \<Rightarrow> 'e"
  mdb_dbi_open :: "'t \<Rightarrow> bool \<Rightarrow> mdb_rc \<times> 't"  \<comment> \<open>the flag is \<open>MDB_CREATE\<close>\<close>
  mdb_get :: "'t \<Rightarrow> string \<Rightarrow> mdb_rc \<times> bytes"
  mdb_put :: "'t \<Rightarrow> string \<Rightarrow> bytes \<Rightarrow> mdb_rc \<times> 't"
  mdb_del :: "'t \<Rightarrow> string \<Rightarrow> mdb_rc \<times> 't"
  mdb_cursor_open :: "'t \<Rightarrow> 'e \<Rightarrow> mdb_rc \<times> 'c \<times> 'e"
  mdb_cursor_get :: "'c \<Rightarrow> cursor_op \<Rightarrow> mdb_rc \<times> string \<times> bytes \<times> 'c"
  mdb_cursor_close :: "'c \<Rightarrow> 'e \<Rightarrow> 'e"
  mdb_stat_of :: "'t \<Rightarrow> mdb_rc \<times> mdb_stat"

text \<open>The keys a cursor operation may land on, given the cursor's position.\<close>

fun cursor_admits :: "cursor_op \<Rightarrow> string option \<Rightarrow> string \<Rightarrow> bool" where
  "cursor_admits MDB_FIRST pos k = True"
| "cursor_admits (MDB_SET_RANGE p) pos k = (p \<le> k)"
| "cursor_admits MDB_NEXT None k = True"  \<comment> \<open>on an unset cursor \<open>MDB_NEXT\<close> is \<open>MDB_FIRST\<close>\<close>
| "cursor_admits MDB_NEXT (Some q) k = (q < k)"

locale lmdb_laws =
  fixes L :: "('e, 't, 'c) platform"
    and env_map :: "'e \<Rightarrow> store"
    and live_txns :: "'e \<Rightarrow> nat"
    and live_cursors :: "'e \<Rightarrow> nat"
    and txn_map :: "'t \<Rightarrow> store"
    and txn_ro :: "'t \<Rightarrow> bool"
    and cur_map :: "'c \<Rightarrow> store"
    and cur_pos :: "'c \<Rightarrow> string option"
  assumes finite_env: "finite (dom (env_map e))"
    and begin_view:
      "mdb_txn_begin L e ro = (MDB_SUCCESS, t, e') \<Longrightarrow> txn_map t = env_map e \<and> txn_ro t = ro"
    and begin_env: "mdb_txn_begin L e ro = (rc, t, e') \<Longrightarrow>
       env_map e' = env_map e \<and> live_cursors e' = live_cursors e \<and>
       live_txns e' = (if rc = MDB_SUCCESS then Suc (live_txns e) else live_txns e)"
    and begin_codes: "fst (mdb_txn_begin L e ro) \<noteq> MDB_NOTFOUND"
    and commit_codes: "fst (mdb_txn_commit L t e) \<noteq> MDB_NOTFOUND"
    and commit_env: "mdb_txn_commit L t e = (rc, e') \<Longrightarrow>
       env_map e' = (if rc = MDB_SUCCESS \<and> \<not> txn_ro t then txn_map t else env_map e) \<and>
       live_txns e' = live_txns e - 1 \<and> live_cursors e' = live_cursors e"
    and abort_env: "env_map (mdb_txn_abort L t e) = env_map e"
      "live_txns (mdb_txn_abort L t e) = live_txns e - 1"
      "live_cursors (mdb_txn_abort L t e) = live_cursors e"
    and get_found: "mdb_get L t k = (MDB_SUCCESS, v) \<Longrightarrow> txn_map t k = Some v"
    and get_missing: "mdb_get L t k = (MDB_NOTFOUND, v) \<Longrightarrow> txn_map t k = None"
    and put_stores: "mdb_put L t k v = (MDB_SUCCESS, t') \<Longrightarrow>
       txn_map t' = (txn_map t)(k \<mapsto> v) \<and> txn_ro t' = txn_ro t"
    and del_removes: "mdb_del L t k = (MDB_SUCCESS, t') \<Longrightarrow>
       txn_map t k \<noteq> None \<and> txn_map t' = (txn_map t)(k := None) \<and> txn_ro t' = txn_ro t"
    and del_missing: "mdb_del L t k = (MDB_NOTFOUND, t') \<Longrightarrow> txn_map t k = None"
    and cursor_open_view: "mdb_cursor_open L t e = (MDB_SUCCESS, c, e') \<Longrightarrow>
       cur_map c = txn_map t \<and> cur_pos c = None"
    and cursor_open_env: "mdb_cursor_open L t e = (rc, c, e') \<Longrightarrow>
       env_map e' = env_map e \<and> live_txns e' = live_txns e \<and>
       live_cursors e' = (if rc = MDB_SUCCESS then Suc (live_cursors e) else live_cursors e)"
    and cursor_close_env: "env_map (mdb_cursor_close L c e) = env_map e"
      "live_txns (mdb_cursor_close L c e) = live_txns e"
      "live_cursors (mdb_cursor_close L c e) = live_cursors e - 1"
    and cursor_hit: "mdb_cursor_get L c op = (MDB_SUCCESS, k, v, c') \<Longrightarrow>
       cur_map c k = Some v \<and> cursor_admits op (cur_pos c) k \<and>
       (\<forall>j \<in> dom (cur_map c). cursor_admits op (cur_pos c) j \<longrightarrow> k \<le> j) \<and>
       cur_map c' = cur_map c \<and> cur_pos c' = Some k"
    and cursor_end: "mdb_cursor_get L c op = (MDB_NOTFOUND, k, v, c') \<Longrightarrow>
       \<forall>j \<in> dom (cur_map c). \<not> cursor_admits op (cur_pos c) j"
    and sync_env: "mdb_env_sync L e force = (rc, e') \<Longrightarrow>
       env_map e' = env_map e \<and> live_txns e' = live_txns e \<and> live_cursors e' = live_cursors e"
    and stat_entries: "mdb_stat_of L t = (MDB_SUCCESS, s) \<Longrightarrow> ms_entries s = card (dom (txn_map t))"

text \<open>
  The platform while nothing runs out: memory, reader slots and map space. LMDB rejects the
  empty key and keys above its compiled-in limit of 511 bytes whatever the resources.
\<close>

locale lmdb_reliable = lmdb_laws +
  assumes malloc_total: "malloc_ok L n"
    and begin_total: "fst (mdb_txn_begin L e ro) = MDB_SUCCESS"
    and commit_total: "fst (mdb_txn_commit L t e) = MDB_SUCCESS"
    and get_total: "k \<noteq> [] \<Longrightarrow> length k \<le> 511 \<Longrightarrow>
       fst (mdb_get L t k) = (if txn_map t k = None then MDB_NOTFOUND else MDB_SUCCESS)"
    and put_total: "k \<noteq> [] \<Longrightarrow> length k \<le> 511 \<Longrightarrow> \<not> txn_ro t \<Longrightarrow>
       fst (mdb_put L t k v) = MDB_SUCCESS"
    and del_total: "k \<noteq> [] \<Longrightarrow> length k \<le> 511 \<Longrightarrow> \<not> txn_ro t \<Longrightarrow>
       fst (mdb_del L t k) = (if txn_map t k = None then MDB_NOTFOUND else MDB_SUCCESS)"
    and cursor_open_total: "fst (mdb_cursor_open L t e) = MDB_SUCCESS"
    and cursor_get_total: "fst (mdb_cursor_get L c op) \<in> {MDB_SUCCESS, MDB_NOTFOUND}"
    and stat_total: "fst (mdb_stat_of L t) = MDB_SUCCESS"

end
