(* ===== verification/Storage_Codec.thy ===== *)
theory Storage_Codec
  imports Lmdb
begin

text \<open>
  The pure part of \<open>src/storage_lmdb.c\<close>: result codes, the little endian helpers, the mapping
  of LMDB codes, key validation and the self-describing four byte value header of
  \<open>include/storage_lmdb.h\<close>. The lemmas are the codec's round trips and length facts.
\<close>

subsection \<open>Types and constants of \<open>storage_lmdb.h\<close>\<close>

datatype storage_type =
    STORAGE_TYPE_INVALID | STORAGE_TYPE_INT32 | STORAGE_TYPE_UINT32
  | STORAGE_TYPE_UINT64 | STORAGE_TYPE_BYTES | STORAGE_TYPE_OID

fun storage_type_code :: "storage_type \<Rightarrow> byte" where
  "storage_type_code STORAGE_TYPE_INVALID = 0"
| "storage_type_code STORAGE_TYPE_INT32 = 1"
| "storage_type_code STORAGE_TYPE_UINT32 = 2"
| "storage_type_code STORAGE_TYPE_UINT64 = 3"
| "storage_type_code STORAGE_TYPE_BYTES = 4"
| "storage_type_code STORAGE_TYPE_OID = 5"

datatype storage_rc =
    STORAGE_OK | STORAGE_ERR_NOTFOUND | STORAGE_ERR_TYPE | STORAGE_ERR_INVAL
  | STORAGE_ERR_TOOBIG | STORAGE_ERR_FULL | STORAGE_ERR_BUSY | STORAGE_ERR_IO
  | STORAGE_ERR_READONLY

abbreviation (input) STORAGE_VALUE_HEADER_LEN :: nat where "STORAGE_VALUE_HEADER_LEN \<equiv> 4"
abbreviation (input) STORAGE_KEY_MAX :: nat where "STORAGE_KEY_MAX \<equiv> 255"
abbreviation (input) STORAGE_DEFAULT_MAPSIZE :: nat where "STORAGE_DEFAULT_MAPSIZE \<equiv> 64 * 1024 * 1024"
abbreviation (input) STORAGE_ENV_PERSISTENT :: uint32 where "STORAGE_ENV_PERSISTENT \<equiv> 0"
abbreviation (input) STORAGE_ENV_NOSYNC :: uint32 where "STORAGE_ENV_NOSYNC \<equiv> 1"
abbreviation (input) STORAGE_ENV_READONLY :: uint32 where "STORAGE_ENV_READONLY \<equiv> 2"
abbreviation (input) STORAGE_ENV_NOSUBDIR :: uint32 where "STORAGE_ENV_NOSUBDIR \<equiv> 4"

subsection \<open>Little endian byte helpers\<close>

definition put_u32le :: "uint32 \<Rightarrow> bytes" where
  "put_u32le v =
     [ucast (v AND 0xFF), ucast (drop_bit 8 v AND 0xFF),
      ucast (drop_bit 16 v AND 0xFF), ucast (drop_bit 24 v AND 0xFF)]"

definition get_u32le :: "bytes \<Rightarrow> uint32" where
  "get_u32le p =
     ucast (p ! 0) OR push_bit 8 (ucast (p ! 1)) OR
     push_bit 16 (ucast (p ! 2)) OR push_bit 24 (ucast (p ! 3))"

text \<open>The loops \<open>for (i = 0; i < 8; i++)\<close> and \<open>for (i = 7; i >= 0; i--)\<close>.\<close>

fun put_u64le_loop :: "nat \<Rightarrow> uint64 \<Rightarrow> bytes" where
  "put_u64le_loop 0 v = []"
| "put_u64le_loop (Suc n) v = ucast (v AND 0xFF) # put_u64le_loop n (drop_bit 8 v)"

definition put_u64le :: "uint64 \<Rightarrow> bytes" where
  "put_u64le v = put_u64le_loop 8 v"

fun get_u64le_loop :: "bytes \<Rightarrow> nat \<Rightarrow> uint64 \<Rightarrow> uint64" where
  "get_u64le_loop p 0 v = v"
| "get_u64le_loop p (Suc i) v = get_u64le_loop p i (push_bit 8 v OR ucast (p ! i))"

definition get_u64le :: "bytes \<Rightarrow> uint64" where
  "get_u64le p = get_u64le_loop p 8 0"

subsection \<open>Error mapping\<close>

fun map_mdb_rc :: "mdb_rc \<Rightarrow> storage_rc" where
  "map_mdb_rc MDB_SUCCESS = STORAGE_OK"
| "map_mdb_rc MDB_NOTFOUND = STORAGE_ERR_NOTFOUND"
| "map_mdb_rc MDB_MAP_FULL = STORAGE_ERR_FULL"
| "map_mdb_rc MDB_TXN_FULL = STORAGE_ERR_FULL"
| "map_mdb_rc EINVAL = STORAGE_ERR_INVAL"
| "map_mdb_rc EACCES = STORAGE_ERR_READONLY"
| "map_mdb_rc EAGAIN = STORAGE_ERR_BUSY"
| "map_mdb_rc EBUSY = STORAGE_ERR_BUSY"
| "map_mdb_rc (MDB_OTHER _) = STORAGE_ERR_IO"

fun storage_strerror :: "storage_rc \<Rightarrow> string" where
  "storage_strerror STORAGE_OK = ''ok''"
| "storage_strerror STORAGE_ERR_NOTFOUND = ''key not found''"
| "storage_strerror STORAGE_ERR_TYPE = ''type mismatch''"
| "storage_strerror STORAGE_ERR_INVAL = ''invalid argument''"
| "storage_strerror STORAGE_ERR_TOOBIG = ''buffer or key too big''"
| "storage_strerror STORAGE_ERR_FULL = ''map or transaction full''"
| "storage_strerror STORAGE_ERR_BUSY = ''writer lock contended''"
| "storage_strerror STORAGE_ERR_IO = ''i/o error''"
| "storage_strerror STORAGE_ERR_READONLY = ''read-only environment''"

subsection \<open>Key validation\<close>

definition validate_key :: "string option \<Rightarrow> nat \<Rightarrow> storage_rc \<times> nat" where
  "validate_key key keylen_out =
     (case key of
        None \<Rightarrow> (STORAGE_ERR_INVAL, keylen_out)
      | Some k \<Rightarrow>
          let len = length k in
          if len = 0 then (STORAGE_ERR_INVAL, keylen_out)
          else if len > STORAGE_KEY_MAX then (STORAGE_ERR_TOOBIG, keylen_out)
          else (STORAGE_OK, len))"

subsection \<open>The value header\<close>

definition decode_header :: "bytes \<Rightarrow> storage_type \<Rightarrow> storage_rc \<times> bytes" where
  "decode_header mdb_data expected_type =
     (if length mdb_data < STORAGE_VALUE_HEADER_LEN then (STORAGE_ERR_INVAL, [])
      else let stored_type = mdb_data ! 0 in
        if stored_type \<noteq> storage_type_code expected_type then (STORAGE_ERR_TYPE, [])
        else (STORAGE_OK, drop STORAGE_VALUE_HEADER_LEN mdb_data))"

definition encode_header :: "storage_type \<Rightarrow> bytes" where
  "encode_header type = [storage_type_code type, 0, 0, 0]"

subsection \<open>Lemmas\<close>

lemma storage_type_code_inject [simp]:
  "storage_type_code a = storage_type_code b \<longleftrightarrow> a = b"
  by (cases a; cases b) simp_all

lemma length_put_u32le [simp, codec_simps]: "length (put_u32le v) = 4"
  by (simp add: put_u32le_def)

lemma get_put_u32le [simp, codec_simps]: "get_u32le (put_u32le v @ rest) = v"
proof (rule bit_word_eqI)
  fix n
  assume "n < LENGTH(32)"
  then have n: "n < 32" by simp
  have mask: "(0xFF :: uint32) = mask 8" by (simp add: mask_eq_exp_minus_1)
  from n consider "n < 8" | "8 \<le> n" "n < 16" | "16 \<le> n" "n < 24" | "24 \<le> n" by linarith
  then show "bit (get_u32le (put_u32le v @ rest)) n = bit v n"
    using n by cases (auto simp: get_u32le_def put_u32le_def mask bit_simps less_diff_conv2)
qed

lemma length_put_u64le_loop [simp]: "length (put_u64le_loop n v) = n"
  by (induction n arbitrary: v) simp_all

lemma length_put_u64le [simp, codec_simps]: "length (put_u64le v) = 8"
  by (simp add: put_u64le_def)

text \<open>
  After the bytes \<open>n - 1, \<dots>, 0\<close> of \<open>v\<close> have been folded into an accumulator, its low
  \<open>8 * n\<close> bits are those of \<open>v\<close> and the rest is the accumulator shifted up.
\<close>

lemma nth_put_u64le_loop:
  "i < n \<Longrightarrow> put_u64le_loop n v ! i = ucast (drop_bit (8 * i) v AND 0xFF)"
  by (induction n arbitrary: i v)
    (auto simp: nth_Cons drop_bit_drop_bit add.commute split: nat.splits)

lemma get_u64le_loop_bits:
  assumes "\<And>i. i < n \<Longrightarrow> p ! i = ucast (drop_bit (8 * i) v AND 0xFF)"
  shows "get_u64le_loop p n acc = push_bit (8 * n) acc OR take_bit (8 * n) v"
  using assms
proof (induction n arbitrary: acc)
  case 0
  then show ?case by simp
next
  case (Suc n)
  have mask: "(0xFF :: uint64) = mask 8" by (simp add: mask_eq_exp_minus_1)
  have p: "p ! n = ucast (drop_bit (8 * n) v AND mask 8)"
    using Suc.prems [of n] by (simp add: mask)
  have "push_bit (8 * n) (push_bit 8 acc OR ucast (p ! n)) OR take_bit (8 * n) v
      = push_bit (8 * Suc n) acc OR take_bit (8 * Suc n) v" (is "?l = ?r")
  proof (rule bit_word_eqI)
    fix k
    assume k: "k < LENGTH(64)"
    consider "k < 8 * n" | "8 * n \<le> k" "k < 8 * n + 8" | "8 * n + 8 \<le> k" by linarith
    then show "bit ?l k = bit ?r k"
      using k by cases (auto simp: p bit_simps less_diff_conv2 add.commute)
  qed
  with Suc show ?case by simp
qed

lemma get_put_u64le [simp, codec_simps]: "get_u64le (put_u64le v @ rest) = v"
proof -
  have "get_u64le_loop (put_u64le v @ rest) 8 0 = push_bit (8 * 8) 0 OR take_bit (8 * 8) v"
    by (rule get_u64le_loop_bits) (simp add: put_u64le_def nth_append nth_put_u64le_loop)
  also have "\<dots> = v"
    by (auto intro!: bit_word_eqI simp: bit_simps)
  finally show ?thesis by (simp add: get_u64le_def)
qed

lemma length_encode_header [simp, codec_simps]: "length (encode_header ty) = 4"
  by (simp add: encode_header_def)

lemma decode_encode_header [simp, codec_simps]:
  "decode_header (encode_header ty @ payload) ty' =
     (if ty = ty' then (STORAGE_OK, payload) else (STORAGE_ERR_TYPE, []))"
  by (simp add: decode_header_def encode_header_def)

lemma decode_header_OK_iff:
  "decode_header d ty = (STORAGE_OK, payload) \<longleftrightarrow>
     length d = length payload + 4 \<and> d ! 0 = storage_type_code ty \<and> payload = drop 4 d"
  by (auto simp: decode_header_def Let_def)

lemma decode_header_rc:
  "fst (decode_header d ty) \<in> {STORAGE_OK, STORAGE_ERR_TYPE, STORAGE_ERR_INVAL}"
  by (simp add: decode_header_def Let_def)

lemma map_mdb_rc_OK [simp, rc_simps]: "map_mdb_rc rc = STORAGE_OK \<longleftrightarrow> rc = MDB_SUCCESS"
  by (cases rc) simp_all

lemma map_mdb_rc_NOTFOUND [simp, rc_simps]:
  "map_mdb_rc rc = STORAGE_ERR_NOTFOUND \<longleftrightarrow> rc = MDB_NOTFOUND"
  by (cases rc) simp_all

lemma map_mdb_rc_not_TYPE [simp, rc_simps]: "map_mdb_rc rc \<noteq> STORAGE_ERR_TYPE"
  by (cases rc) simp_all

lemma validate_key_cases:
  "fst (validate_key key n) =
     (case key of None \<Rightarrow> STORAGE_ERR_INVAL
      | Some k \<Rightarrow> if k = [] then STORAGE_ERR_INVAL
                 else if length k > 255 then STORAGE_ERR_TOOBIG else STORAGE_OK)"
  by (auto simp: validate_key_def Let_def split: option.splits)

text \<open>The number a little endian byte string stands for.\<close>

definition le_value :: "bytes \<Rightarrow> nat" where
  "le_value bs = foldr (\<lambda>b n. unat b + 256 * n) bs 0"

lemma le_value_simps [simp]: "le_value [] = 0" "le_value (b # bs) = unat b + 256 * le_value bs"
  by (simp_all add: le_value_def)

lemma unat_low_byte:
  "unat (ucast (v AND 0xFF) :: byte) = unat (v :: uint32) mod 256"
  "unat (ucast (w AND 0xFF) :: byte) = unat (w :: uint64) mod 256"
proof -
  have "ucast (v AND mask 8) = (ucast v :: byte)" "ucast (w AND mask 8) = (ucast w :: byte)"
    by (rule bit_word_eqI; auto simp: bit_simps)+
  then have "ucast (v AND 0xFF) = (ucast v :: byte)" "ucast (w AND 0xFF) = (ucast w :: byte)"
    by (simp_all add: mask_eq_exp_minus_1)
  then show "unat (ucast (v AND 0xFF) :: byte) = unat v mod 256" "unat (ucast (w AND 0xFF) :: byte) = unat w mod 256"
    by (simp_all add: unsigned_ucast_eq take_bit_eq_mod)
qed

lemma unat_drop_byte: "unat (drop_bit n (v :: 'a :: len word)) = unat v div 2 ^ n"
  by (simp add: unsigned_drop_bit_eq drop_bit_eq_div [where 'a = nat] take_bit_nat_eq_self)

lemma le_value_put_u64le_loop: "le_value (put_u64le_loop n v) = unat v mod 256 ^ n"
proof (induction n arbitrary: v)
  case (Suc n)
  have "unat v mod 256 ^ Suc n = unat v mod 256 + 256 * (unat v div 256 mod 256 ^ n)"
    by (simp add: mod_mult2_eq)
  then show ?case by (simp add: Suc.IH unat_low_byte unat_drop_byte)
qed simp

lemma le_value_put_u64le [simp]: "le_value (put_u64le v) = unat v"
proof -
  have "unat v < 256 ^ 8" using unsigned_less [of v, where ?'a = nat] by simp
  then show ?thesis by (simp only: put_u64le_def le_value_put_u64le_loop mod_less)
qed

lemma le_value_put_u32le [simp]: "le_value (put_u32le v) = unat v"
proof -
  define a b c where "a = unat v div 256" and "b = a div 256" and "c = b div 256"
  have "unat v < 2 ^ 32" using unsigned_less [of v, where ?'a = nat] by simp
  then have c: "c < 256" by (simp add: a_def b_def c_def flip: div_mult2_eq)
  have "le_value (put_u32le v) = unat v mod 256 + 256 * (a mod 256 + 256 * (b mod 256 + 256 * (c mod 256)))"
    by (simp add: put_u32le_def unat_low_byte unat_drop_byte a_def b_def c_def flip: div_mult2_eq)
  also have "\<dots> = unat v mod 256 + 256 * (a mod 256 + 256 * (b mod 256 + 256 * c))" using c by simp
  also have "b mod 256 + 256 * c = b" by (simp add: c_def)
  also have "a mod 256 + 256 * b = a" by (simp add: b_def)
  also have "unat v mod 256 + 256 * a = unat v" by (simp add: a_def)
  finally show ?thesis .
qed

end
