(* ===== verification/Storage_Lmdb.thy ===== *)
theory Storage_Lmdb
  imports Storage_Codec
begin

text \<open>
  \<open>src/storage_lmdb.c\<close>: the thin LMDB abstraction. Every operation takes the platform as its
  first argument and threads the environment handle. Conventions:

  \<^item> an environment, key or out parameter that may be \<open>NULL\<close> is an option; an out parameter
    \<open>Some old\<close> points at \<open>old\<close> and the result carries what it points at afterwards;
  \<^item> \<open>buf\<close>, \<open>len\<close> pairs are the caller's buffer and the \<open>size_t\<close> it points to;
  \<^item> the single unnamed database is opened once, so its constant handle \<open>dbi\<close> is left out;
  \<^item> \<open>txn->env\<close> is only read for \<open>dbi\<close>, so a transaction record carries no environment and
    commit and abort take the environment explicitly.
\<close>

record 'e storage_env =
  se_env :: 'e
  se_flags :: uint32
  se_readonly :: bool

record 't storage_txn =
  stx_txn :: 't
  stx_readonly :: bool

definition sizeof_storage_env :: nat where "sizeof_storage_env = 24"
definition sizeof_storage_txn :: nat where "sizeof_storage_txn = 24"
definition sizeof_storage_iter :: nat where "sizeof_storage_iter = 288"

subsection \<open>Environment lifecycle\<close>

text \<open>
  Opening runs a fixed list of platform calls; the log records that an \<open>MDB_env\<close> was created
  and whether it was closed again.
\<close>

datatype env_event = Env_Created | Env_Closed

definition env_open_flags :: "uint32 \<Rightarrow> mdb_flag list" where
  "env_open_flags flags =
     (if flags AND STORAGE_ENV_NOSYNC \<noteq> 0 then [MDB_NOSYNC] else []) @
     (if flags AND STORAGE_ENV_READONLY \<noteq> 0 then [MDB_RDONLY] else []) @
     (if flags AND STORAGE_ENV_NOSUBDIR \<noteq> 0 then [MDB_NOSUBDIR] else [])"

definition storage_env_open ::
  "('e, 't, 'c) platform \<Rightarrow> string option \<Rightarrow> nat \<Rightarrow> uint32 \<Rightarrow> 'e storage_env option option \<Rightarrow>
   storage_rc \<times> 'e storage_env option option \<times> env_event list" where
  "storage_env_open L path mapsize flags out =
     (case (path, out) of
        (Some p, Some _) \<Rightarrow>
          if flags AND STORAGE_ENV_NOSUBDIR = 0 \<and> os_mkdir L p = MKDIR_ERR
          then (STORAGE_ERR_IO, out, [])
          else (case mdb_env_create L of (rc, menv) \<Rightarrow>
            if rc \<noteq> MDB_SUCCESS then (map_mdb_rc rc, out, [])
            else (case mdb_env_set_mapsize L menv
                    (if mapsize \<noteq> 0 then mapsize else STORAGE_DEFAULT_MAPSIZE) of (rc, menv) \<Rightarrow>
              if rc \<noteq> MDB_SUCCESS then (map_mdb_rc rc, out, [Env_Created, Env_Closed])
              else (case mdb_env_set_maxreaders L menv 126 of (rc, menv) \<Rightarrow>
                if rc \<noteq> MDB_SUCCESS then (map_mdb_rc rc, out, [Env_Created, Env_Closed])
                else (case mdb_env_open L menv p (env_open_flags flags) of (rc, menv) \<Rightarrow>
                  if rc \<noteq> MDB_SUCCESS then (map_mdb_rc rc, out, [Env_Created, Env_Closed])
                  else let ro = (flags AND STORAGE_ENV_READONLY \<noteq> 0) in
                    (case mdb_txn_begin L menv ro of (rc, txn, menv) \<Rightarrow>
                      if rc \<noteq> MDB_SUCCESS then (map_mdb_rc rc, out, [Env_Created, Env_Closed])
                      else (case mdb_dbi_open L txn (\<not> ro) of (rc, txn) \<Rightarrow>
                        if rc \<noteq> MDB_SUCCESS
                        then (map_mdb_rc rc, out, [Env_Created, Env_Closed])
                        else (case (if ro then (MDB_SUCCESS, mdb_txn_abort L txn menv)
                                    else mdb_txn_commit L txn menv) of (rc, menv) \<Rightarrow>
                          if rc \<noteq> MDB_SUCCESS
                          then (map_mdb_rc rc, out, [Env_Created, Env_Closed])
                          else if \<not> malloc_ok L sizeof_storage_env
                          then (STORAGE_ERR_IO, out, [Env_Created, Env_Closed])
                          else (STORAGE_OK,
                                Some (Some \<lparr>se_env = menv, se_flags = flags, se_readonly = ro\<rparr>),
                                [Env_Created]))))))))
      | _ \<Rightarrow> (STORAGE_ERR_INVAL, out, []))"

definition storage_env_close :: "'e storage_env option \<Rightarrow> env_event list" where
  "storage_env_close env = (case env of None \<Rightarrow> [] | Some _ \<Rightarrow> [Env_Closed])"

definition storage_env_is_readonly :: "'e storage_env option \<Rightarrow> bool" where
  "storage_env_is_readonly env = (case env of None \<Rightarrow> False | Some e \<Rightarrow> se_readonly e)"

definition storage_env_sync ::
  "('e, 't, 'c) platform \<Rightarrow> 'e storage_env option \<Rightarrow> bool \<Rightarrow>
   storage_rc \<times> 'e storage_env option" where
  "storage_env_sync L envp force =
     (case envp of
        None \<Rightarrow> (STORAGE_ERR_INVAL, None)
      | Some env \<Rightarrow>
          if se_readonly env then (STORAGE_OK, Some env)
          else (case mdb_env_sync L (se_env env) force of (rc, e) \<Rightarrow>
            (map_mdb_rc rc, Some (env\<lparr>se_env := e\<rparr>))))"

subsection \<open>Operations on a live transaction\<close>

definition txn_get_raw ::
  "('e, 't, 'c) platform \<Rightarrow> 't \<Rightarrow> string option \<Rightarrow> storage_rc \<times> bytes" where
  "txn_get_raw L txn key =
     (case validate_key key 0 of (rc, _) \<Rightarrow>
        if rc \<noteq> STORAGE_OK then (rc, [])
        else (case mdb_get L txn (the key) of (mrc, data) \<Rightarrow> (map_mdb_rc mrc, data)))"

definition txn_put_raw ::
  "('e, 't, 'c) platform \<Rightarrow> 't \<Rightarrow> string option \<Rightarrow> bytes \<Rightarrow> storage_rc \<times> 't" where
  "txn_put_raw L txn key data =
     (case validate_key key 0 of (rc, _) \<Rightarrow>
        if rc \<noteq> STORAGE_OK then (rc, txn)
        else (case mdb_put L txn (the key) data of (mrc, txn') \<Rightarrow> (map_mdb_rc mrc, txn')))"

definition txn_get_int_impl ::
  "('e, 't, 'c) platform \<Rightarrow> 't \<Rightarrow> string option \<Rightarrow> int32 option \<Rightarrow>
   storage_rc \<times> int32 option" where
  "txn_get_int_impl L txn key out =
     (if out = None then (STORAGE_ERR_INVAL, out)
      else (case txn_get_raw L txn key of (rc, data) \<Rightarrow>
        if rc \<noteq> STORAGE_OK then (rc, out)
        else (case decode_header data STORAGE_TYPE_INT32 of (rc, payload) \<Rightarrow>
          if rc \<noteq> STORAGE_OK then (rc, out)
          else if length payload < 4 then (STORAGE_ERR_INVAL, out)
          else (STORAGE_OK, Some (get_u32le payload)))))"

definition txn_set_int_impl ::
  "('e, 't, 'c) platform \<Rightarrow> 't \<Rightarrow> string option \<Rightarrow> int32 \<Rightarrow> storage_rc \<times> 't" where
  "txn_set_int_impl L txn key val =
     txn_put_raw L txn key (encode_header STORAGE_TYPE_INT32 @ put_u32le val)"

definition txn_get_uint_impl ::
  "('e, 't, 'c) platform \<Rightarrow> 't \<Rightarrow> string option \<Rightarrow> uint32 option \<Rightarrow>
   storage_rc \<times> uint32 option" where
  "txn_get_uint_impl L txn key out =
     (if out = None then (STORAGE_ERR_INVAL, out)
      else (case txn_get_raw L txn key of (rc, data) \<Rightarrow>
        if rc \<noteq> STORAGE_OK then (rc, out)
        else (case decode_header data STORAGE_TYPE_UINT32 of (rc, payload) \<Rightarrow>
          if rc \<noteq> STORAGE_OK then (rc, out)
          else if length payload < 4 then (STORAGE_ERR_INVAL, out)
          else (STORAGE_OK, Some (get_u32le payload)))))"

definition txn_set_uint_impl ::
  "('e, 't, 'c) platform \<Rightarrow> 't \<Rightarrow> string option \<Rightarrow> uint32 \<Rightarrow> storage_rc \<times> 't" where
  "txn_set_uint_impl L txn key val =
     txn_put_raw L txn key (encode_header STORAGE_TYPE_UINT32 @ put_u32le val)"

definition txn_get_u64_impl ::
  "('e, 't, 'c) platform \<Rightarrow> 't \<Rightarrow> string option \<Rightarrow> uint64 option \<Rightarrow>
   storage_rc \<times> uint64 option" where
  "txn_get_u64_impl L txn key out =
     (if out = None then (STORAGE_ERR_INVAL, out)
      else (case txn_get_raw L txn key of (rc, data) \<Rightarrow>
        if rc \<noteq> STORAGE_OK then (rc, out)
        else (case decode_header data STORAGE_TYPE_UINT64 of (rc, payload) \<Rightarrow>
          if rc \<noteq> STORAGE_OK then (rc, out)
          else if length payload < 8 then (STORAGE_ERR_INVAL, out)
          else (STORAGE_OK, Some (get_u64le payload)))))"

definition txn_set_u64_impl ::
  "('e, 't, 'c) platform \<Rightarrow> 't \<Rightarrow> string option \<Rightarrow> uint64 \<Rightarrow> storage_rc \<times> 't" where
  "txn_set_u64_impl L txn key val =
     txn_put_raw L txn key (encode_header STORAGE_TYPE_UINT64 @ put_u64le val)"

text \<open>\<open>memcpy(buf, src, length src)\<close> on a buffer at least that long.\<close>

definition memcpy :: "'a list \<Rightarrow> 'a list \<Rightarrow> 'a list" where
  "memcpy buf src = src @ drop (length src) buf"

definition txn_get_bytes_impl ::
  "('e, 't, 'c) platform \<Rightarrow> 't \<Rightarrow> string option \<Rightarrow> bytes option \<Rightarrow> nat option \<Rightarrow>
   storage_rc \<times> bytes option \<times> nat option" where
  "txn_get_bytes_impl L txn key buf len =
     (case len of
        None \<Rightarrow> (STORAGE_ERR_INVAL, buf, len)
      | Some n \<Rightarrow>
          if buf = None \<and> n \<noteq> 0 then (STORAGE_ERR_INVAL, buf, len)
          else (case txn_get_raw L txn key of (rc, data) \<Rightarrow>
            if rc \<noteq> STORAGE_OK then (rc, buf, len)
            else (case decode_header data STORAGE_TYPE_BYTES of (rc, payload) \<Rightarrow>
              if rc \<noteq> STORAGE_OK then (rc, buf, len)
              else if length payload > n then (STORAGE_ERR_TOOBIG, buf, Some (length payload))
              else (STORAGE_OK, map_option (\<lambda>b. memcpy b payload) buf, Some (length payload)))))"

definition txn_set_bytes_impl ::
  "('e, 't, 'c) platform \<Rightarrow> 't \<Rightarrow> string option \<Rightarrow> bytes option \<Rightarrow> nat \<Rightarrow> storage_rc \<times> 't" where
  "txn_set_bytes_impl L txn key buf len =
     (if buf = None \<and> len \<noteq> 0 then (STORAGE_ERR_INVAL, txn)
      else if \<not> malloc_ok L (STORAGE_VALUE_HEADER_LEN + len) then (STORAGE_ERR_IO, txn)
      else txn_put_raw L txn key
             (encode_header STORAGE_TYPE_BYTES @ (case buf of None \<Rightarrow> [] | Some b \<Rightarrow> take len b)))"

text \<open>The loop \<open>for (i = 0; i < n; i++) subids[i] = get_u32le(payload + i * 4)\<close>.\<close>

fun get_subids :: "bytes \<Rightarrow> nat \<Rightarrow> uint32 list" where
  "get_subids payload 0 = []"
| "get_subids payload (Suc n) = get_u32le payload # get_subids (drop 4 payload) n"

definition txn_get_oid_impl ::
  "('e, 't, 'c) platform \<Rightarrow> 't \<Rightarrow> string option \<Rightarrow> uint32 list option \<Rightarrow> nat option \<Rightarrow>
   storage_rc \<times> uint32 list option \<times> nat option" where
  "txn_get_oid_impl L txn key subids count =
     (case count of
        None \<Rightarrow> (STORAGE_ERR_INVAL, subids, count)
      | Some c \<Rightarrow>
          if subids = None \<and> c \<noteq> 0 then (STORAGE_ERR_INVAL, subids, count)
          else (case txn_get_raw L txn key of (rc, data) \<Rightarrow>
            if rc \<noteq> STORAGE_OK then (rc, subids, count)
            else (case decode_header data STORAGE_TYPE_OID of (rc, payload) \<Rightarrow>
              if rc \<noteq> STORAGE_OK then (rc, subids, count)
              else if length payload mod 4 \<noteq> 0 then (STORAGE_ERR_INVAL, subids, count)
              else let n = length payload div 4 in
                if n > c then (STORAGE_ERR_TOOBIG, subids, Some n)
                else (STORAGE_OK, map_option (\<lambda>s. memcpy s (get_subids payload n)) subids,
                      Some n))))"

definition txn_set_oid_impl ::
  "('e, 't, 'c) platform \<Rightarrow> 't \<Rightarrow> string option \<Rightarrow> uint32 list option \<Rightarrow> nat \<Rightarrow>
   storage_rc \<times> 't" where
  "txn_set_oid_impl L txn key subids count =
     (if subids = None \<and> count \<noteq> 0 then (STORAGE_ERR_INVAL, txn)
      else if \<not> malloc_ok L (STORAGE_VALUE_HEADER_LEN + count * 4) then (STORAGE_ERR_IO, txn)
      else txn_put_raw L txn key
             (encode_header STORAGE_TYPE_OID @
              concat (map put_u32le (case subids of None \<Rightarrow> [] | Some s \<Rightarrow> take count s))))"

definition txn_delete_impl ::
  "('e, 't, 'c) platform \<Rightarrow> 't \<Rightarrow> string option \<Rightarrow> storage_rc \<times> 't" where
  "txn_delete_impl L txn key =
     (case validate_key key 0 of (rc, _) \<Rightarrow>
        if rc \<noteq> STORAGE_OK then (rc, txn)
        else (case mdb_del L txn (the key) of (mrc, txn') \<Rightarrow> (map_mdb_rc mrc, txn')))"

definition txn_exists_impl :: "('e, 't, 'c) platform \<Rightarrow> 't \<Rightarrow> string option \<Rightarrow> storage_rc" where
  "txn_exists_impl L txn key = fst (txn_get_raw L txn key)"

text \<open>The tag is cast from the stored byte unchecked, so the result is a byte.\<close>

definition txn_type_of_impl ::
  "('e, 't, 'c) platform \<Rightarrow> 't \<Rightarrow> string option \<Rightarrow> byte option \<Rightarrow> storage_rc \<times> byte option" where
  "txn_type_of_impl L txn key out =
     (if out = None then (STORAGE_ERR_INVAL, out)
      else (case txn_get_raw L txn key of (rc, data) \<Rightarrow>
        if rc \<noteq> STORAGE_OK then (rc, out)
        else if length data < STORAGE_VALUE_HEADER_LEN then (STORAGE_ERR_INVAL, out)
        else (STORAGE_OK, Some (data ! 0))))"

subsection \<open>Single-operation helpers: each runs in its own transaction\<close>

definition begin_read_txn ::
  "('e, 't, 'c) platform \<Rightarrow> 'e storage_env \<Rightarrow> storage_rc \<times> 't \<times> 'e storage_env" where
  "begin_read_txn L env =
     (case mdb_txn_begin L (se_env env) True of (rc, txn, e) \<Rightarrow>
        (map_mdb_rc rc, txn, env\<lparr>se_env := e\<rparr>))"

text \<open>\<open>None\<close> in place of a transaction: none was begun.\<close>

definition begin_write_txn ::
  "('e, 't, 'c) platform \<Rightarrow> 'e storage_env \<Rightarrow> storage_rc \<times> 't option \<times> 'e storage_env" where
  "begin_write_txn L env =
     (if se_readonly env then (STORAGE_ERR_READONLY, None, env)
      else (case mdb_txn_begin L (se_env env) False of (rc, txn, e) \<Rightarrow>
        (map_mdb_rc rc, Some txn, env\<lparr>se_env := e\<rparr>)))"

definition commit_write_txn ::
  "('e, 't, 'c) platform \<Rightarrow> 't \<Rightarrow> 'e storage_env \<Rightarrow> storage_rc \<times> 'e storage_env" where
  "commit_write_txn L txn env =
     (case mdb_txn_commit L txn (se_env env) of (rc, e) \<Rightarrow> (map_mdb_rc rc, env\<lparr>se_env := e\<rparr>))"

definition abort_txn :: "('e, 't, 'c) platform \<Rightarrow> 't \<Rightarrow> 'e storage_env \<Rightarrow> 'e storage_env" where
  "abort_txn L txn env = env\<lparr>se_env := mdb_txn_abort L txn (se_env env)\<rparr>"

text \<open>
  The body that all readers share: check the handle, begin a read transaction, run the
  operation, abort. \<open>out\<close> is what the out parameters hold when the operation never runs.
\<close>

definition with_read_txn ::
  "('e, 't, 'c) platform \<Rightarrow> 'e storage_env option \<Rightarrow> ('t \<Rightarrow> storage_rc \<times> 'o) \<Rightarrow> 'o \<Rightarrow>
   storage_rc \<times> 'o \<times> 'e storage_env option" where
  "with_read_txn L envp f out =
     (case envp of
        None \<Rightarrow> (STORAGE_ERR_INVAL, out, None)
      | Some env \<Rightarrow>
          (case begin_read_txn L env of (rc, txn, env) \<Rightarrow>
             if rc \<noteq> STORAGE_OK then (rc, out, Some env)
             else (case f txn of (rc, out') \<Rightarrow> (rc, out', Some (abort_txn L txn env)))))"

text \<open>The body that all writers share: begin, run, abort on error, else commit.\<close>

definition with_write_txn ::
  "('e, 't, 'c) platform \<Rightarrow> 'e storage_env option \<Rightarrow> ('t \<Rightarrow> storage_rc \<times> 't) \<Rightarrow>
   storage_rc \<times> 'e storage_env option" where
  "with_write_txn L envp f =
     (case envp of
        None \<Rightarrow> (STORAGE_ERR_INVAL, None)
      | Some env \<Rightarrow>
          (case begin_write_txn L env of (rc, txnp, env) \<Rightarrow>
             (case txnp of
                None \<Rightarrow> (rc, Some env)
              | Some txn \<Rightarrow>
                  if rc \<noteq> STORAGE_OK then (rc, Some env)
                  else (case f txn of (rc, txn) \<Rightarrow>
                    if rc \<noteq> STORAGE_OK then (rc, Some (abort_txn L txn env))
                    else (case commit_write_txn L txn env of (rc, env) \<Rightarrow> (rc, Some env))))))"

definition storage_get_int ::
  "('e, 't, 'c) platform \<Rightarrow> 'e storage_env option \<Rightarrow> string option \<Rightarrow> int32 option \<Rightarrow>
   storage_rc \<times> int32 option \<times> 'e storage_env option" where
  "storage_get_int L env key out = with_read_txn L env (\<lambda>txn. txn_get_int_impl L txn key out) out"

definition storage_set_int ::
  "('e, 't, 'c) platform \<Rightarrow> 'e storage_env option \<Rightarrow> string option \<Rightarrow> int32 \<Rightarrow>
   storage_rc \<times> 'e storage_env option" where
  "storage_set_int L env key val = with_write_txn L env (\<lambda>txn. txn_set_int_impl L txn key val)"

definition storage_get_uint ::
  "('e, 't, 'c) platform \<Rightarrow> 'e storage_env option \<Rightarrow> string option \<Rightarrow> uint32 option \<Rightarrow>
   storage_rc \<times> uint32 option \<times> 'e storage_env option" where
  "storage_get_uint L env key out =
     with_read_txn L env (\<lambda>txn. txn_get_uint_impl L txn key out) out"

definition storage_set_uint ::
  "('e, 't, 'c) platform \<Rightarrow> 'e storage_env option \<Rightarrow> string option \<Rightarrow> uint32 \<Rightarrow>
   storage_rc \<times> 'e storage_env option" where
  "storage_set_uint L env key val = with_write_txn L env (\<lambda>txn. txn_set_uint_impl L txn key val)"

definition storage_get_u64 ::
  "('e, 't, 'c) platform \<Rightarrow> 'e storage_env option \<Rightarrow> string option \<Rightarrow> uint64 option \<Rightarrow>
   storage_rc \<times> uint64 option \<times> 'e storage_env option" where
  "storage_get_u64 L env key out = with_read_txn L env (\<lambda>txn. txn_get_u64_impl L txn key out) out"

definition storage_set_u64 ::
  "('e, 't, 'c) platform \<Rightarrow> 'e storage_env option \<Rightarrow> string option \<Rightarrow> uint64 \<Rightarrow>
   storage_rc \<times> 'e storage_env option" where
  "storage_set_u64 L env key val = with_write_txn L env (\<lambda>txn. txn_set_u64_impl L txn key val)"

definition storage_get_bytes ::
  "('e, 't, 'c) platform \<Rightarrow> 'e storage_env option \<Rightarrow> string option \<Rightarrow> bytes option \<Rightarrow> nat option \<Rightarrow>
   storage_rc \<times> (bytes option \<times> nat option) \<times> 'e storage_env option" where
  "storage_get_bytes L env key buf len =
     with_read_txn L env (\<lambda>txn. txn_get_bytes_impl L txn key buf len) (buf, len)"

definition storage_set_bytes ::
  "('e, 't, 'c) platform \<Rightarrow> 'e storage_env option \<Rightarrow> string option \<Rightarrow> bytes option \<Rightarrow> nat \<Rightarrow>
   storage_rc \<times> 'e storage_env option" where
  "storage_set_bytes L env key buf len =
     with_write_txn L env (\<lambda>txn. txn_set_bytes_impl L txn key buf len)"

definition storage_get_oid ::
  "('e, 't, 'c) platform \<Rightarrow> 'e storage_env option \<Rightarrow> string option \<Rightarrow> uint32 list option \<Rightarrow>
   nat option \<Rightarrow> storage_rc \<times> (uint32 list option \<times> nat option) \<times> 'e storage_env option" where
  "storage_get_oid L env key subids count =
     with_read_txn L env (\<lambda>txn. txn_get_oid_impl L txn key subids count) (subids, count)"

definition storage_set_oid ::
  "('e, 't, 'c) platform \<Rightarrow> 'e storage_env option \<Rightarrow> string option \<Rightarrow> uint32 list option \<Rightarrow> nat \<Rightarrow>
   storage_rc \<times> 'e storage_env option" where
  "storage_set_oid L env key subids count =
     with_write_txn L env (\<lambda>txn. txn_set_oid_impl L txn key subids count)"

definition storage_delete ::
  "('e, 't, 'c) platform \<Rightarrow> 'e storage_env option \<Rightarrow> string option \<Rightarrow>
   storage_rc \<times> 'e storage_env option" where
  "storage_delete L env key = with_write_txn L env (\<lambda>txn. txn_delete_impl L txn key)"

definition storage_exists ::
  "('e, 't, 'c) platform \<Rightarrow> 'e storage_env option \<Rightarrow> string option \<Rightarrow>
   storage_rc \<times> unit \<times> 'e storage_env option" where
  "storage_exists L env key = with_read_txn L env (\<lambda>txn. (txn_exists_impl L txn key, ())) ()"

definition storage_type_of ::
  "('e, 't, 'c) platform \<Rightarrow> 'e storage_env option \<Rightarrow> string option \<Rightarrow> byte option \<Rightarrow>
   storage_rc \<times> byte option \<times> 'e storage_env option" where
  "storage_type_of L env key out = with_read_txn L env (\<lambda>txn. txn_type_of_impl L txn key out) out"

subsection \<open>Explicit transactions\<close>

definition storage_txn_begin ::
  "('e, 't, 'c) platform \<Rightarrow> 'e storage_env option \<Rightarrow> bool \<Rightarrow> 't storage_txn option option \<Rightarrow>
   storage_rc \<times> 't storage_txn option option \<times> 'e storage_env option" where
  "storage_txn_begin L envp readonly out =
     (case (envp, out) of
        (Some env, Some _) \<Rightarrow>
          if \<not> readonly \<and> se_readonly env then (STORAGE_ERR_READONLY, out, envp)
          else (case mdb_txn_begin L (se_env env) readonly of (rc, mtxn, e) \<Rightarrow>
            let env = env\<lparr>se_env := e\<rparr> in
            if rc \<noteq> MDB_SUCCESS then (map_mdb_rc rc, out, Some env)
            else if \<not> malloc_ok L sizeof_storage_txn
            then (STORAGE_ERR_IO, out, Some (abort_txn L mtxn env))
            else (STORAGE_OK, Some (Some \<lparr>stx_txn = mtxn, stx_readonly = readonly\<rparr>), Some env))
      | _ \<Rightarrow> (STORAGE_ERR_INVAL, out, envp))"

definition storage_txn_commit ::
  "('e, 't, 'c) platform \<Rightarrow> 't storage_txn option \<Rightarrow> 'e storage_env \<Rightarrow>
   storage_rc \<times> 'e storage_env" where
  "storage_txn_commit L txnp env =
     (case txnp of
        None \<Rightarrow> (STORAGE_ERR_INVAL, env)
      | Some txn \<Rightarrow> commit_write_txn L (stx_txn txn) env)"

definition storage_txn_abort ::
  "('e, 't, 'c) platform \<Rightarrow> 't storage_txn option \<Rightarrow> 'e storage_env \<Rightarrow> 'e storage_env" where
  "storage_txn_abort L txnp env =
     (case txnp of None \<Rightarrow> env | Some txn \<Rightarrow> abort_txn L (stx_txn txn) env)"

text \<open>The bodies of the transaction accessors: readers check the handle, writers also the mode.\<close>

definition txn_reader :: "'t storage_txn option \<Rightarrow> ('t \<Rightarrow> storage_rc \<times> 'o) \<Rightarrow> 'o \<Rightarrow>
    storage_rc \<times> 'o" where
  "txn_reader txnp f out =
     (case txnp of None \<Rightarrow> (STORAGE_ERR_INVAL, out) | Some txn \<Rightarrow> f (stx_txn txn))"

definition txn_writer :: "'t storage_txn option \<Rightarrow> ('t \<Rightarrow> storage_rc \<times> 't) \<Rightarrow>
    storage_rc \<times> 't storage_txn option" where
  "txn_writer txnp f =
     (case txnp of
        None \<Rightarrow> (STORAGE_ERR_INVAL, None)
      | Some txn \<Rightarrow>
          if stx_readonly txn then (STORAGE_ERR_READONLY, Some txn)
          else (case f (stx_txn txn) of (rc, t) \<Rightarrow> (rc, Some (txn\<lparr>stx_txn := t\<rparr>))))"

definition storage_txn_get_int ::
  "('e, 't, 'c) platform \<Rightarrow> 't storage_txn option \<Rightarrow> string option \<Rightarrow> int32 option \<Rightarrow>
   storage_rc \<times> int32 option" where
  "storage_txn_get_int L txn key out = txn_reader txn (\<lambda>t. txn_get_int_impl L t key out) out"

definition storage_txn_set_int ::
  "('e, 't, 'c) platform \<Rightarrow> 't storage_txn option \<Rightarrow> string option \<Rightarrow> int32 \<Rightarrow>
   storage_rc \<times> 't storage_txn option" where
  "storage_txn_set_int L txn key val = txn_writer txn (\<lambda>t. txn_set_int_impl L t key val)"

definition storage_txn_get_uint ::
  "('e, 't, 'c) platform \<Rightarrow> 't storage_txn option \<Rightarrow> string option \<Rightarrow> uint32 option \<Rightarrow>
   storage_rc \<times> uint32 option" where
  "storage_txn_get_uint L txn key out = txn_reader txn (\<lambda>t. txn_get_uint_impl L t key out) out"

definition storage_txn_set_uint ::
  "('e, 't, 'c) platform \<Rightarrow> 't storage_txn option \<Rightarrow> string option \<Rightarrow> uint32 \<Rightarrow>
   storage_rc \<times> 't storage_txn option" where
  "storage_txn_set_uint L txn key val = txn_writer txn (\<lambda>t. txn_set_uint_impl L t key val)"

definition storage_txn_get_u64 ::
  "('e, 't, 'c) platform \<Rightarrow> 't storage_txn option \<Rightarrow> string option \<Rightarrow> uint64 option \<Rightarrow>
   storage_rc \<times> uint64 option" where
  "storage_txn_get_u64 L txn key out = txn_reader txn (\<lambda>t. txn_get_u64_impl L t key out) out"

definition storage_txn_set_u64 ::
  "('e, 't, 'c) platform \<Rightarrow> 't storage_txn option \<Rightarrow> string option \<Rightarrow> uint64 \<Rightarrow>
   storage_rc \<times> 't storage_txn option" where
  "storage_txn_set_u64 L txn key val = txn_writer txn (\<lambda>t. txn_set_u64_impl L t key val)"

definition storage_txn_get_bytes ::
  "('e, 't, 'c) platform \<Rightarrow> 't storage_txn option \<Rightarrow> string option \<Rightarrow> bytes option \<Rightarrow> nat option \<Rightarrow>
   storage_rc \<times> bytes option \<times> nat option" where
  "storage_txn_get_bytes L txn key buf len =
     txn_reader txn (\<lambda>t. txn_get_bytes_impl L t key buf len) (buf, len)"

definition storage_txn_set_bytes ::
  "('e, 't, 'c) platform \<Rightarrow> 't storage_txn option \<Rightarrow> string option \<Rightarrow> bytes option \<Rightarrow> nat \<Rightarrow>
   storage_rc \<times> 't storage_txn option" where
  "storage_txn_set_bytes L txn key buf len = txn_writer txn (\<lambda>t. txn_set_bytes_impl L t key buf len)"

definition storage_txn_delete ::
  "('e, 't, 'c) platform \<Rightarrow> 't storage_txn option \<Rightarrow> string option \<Rightarrow>
   storage_rc \<times> 't storage_txn option" where
  "storage_txn_delete L txn key = txn_writer txn (\<lambda>t. txn_delete_impl L t key)"

subsection \<open>Prefix iteration\<close>

record ('t, 'c) storage_iter =
  it_txn :: 't
  it_cursor :: 'c
  it_prefix :: string
  it_started :: bool
  it_exhausted :: bool

definition storage_iter_open ::
  "('e, 't, 'c) platform \<Rightarrow> 'e storage_env option \<Rightarrow> string option \<Rightarrow>
   ('t, 'c) storage_iter option option \<Rightarrow>
   storage_rc \<times> ('t, 'c) storage_iter option option \<times> 'e storage_env option" where
  "storage_iter_open L envp prefx out =
     (case (envp, out) of
        (Some env, Some _) \<Rightarrow>
          let pre = (case prefx of None \<Rightarrow> [] | Some p \<Rightarrow> p) in
          if length pre > STORAGE_KEY_MAX then (STORAGE_ERR_TOOBIG, out, envp)
          else if \<not> malloc_ok L sizeof_storage_iter then (STORAGE_ERR_IO, out, envp)
          else (case begin_read_txn L env of (rc, txn, env) \<Rightarrow>
            if rc \<noteq> STORAGE_OK then (rc, out, Some env)
            else (case mdb_cursor_open L txn (se_env env) of (mrc, cursor, e) \<Rightarrow>
              let env = env\<lparr>se_env := e\<rparr> in
              if mrc \<noteq> MDB_SUCCESS then (map_mdb_rc mrc, out, Some (abort_txn L txn env))
              else (STORAGE_OK,
                    Some (Some \<lparr>it_txn = txn, it_cursor = cursor, it_prefix = pre,
                                it_started = False, it_exhausted = False\<rparr>),
                    Some env)))
      | _ \<Rightarrow> (STORAGE_ERR_INVAL, out, envp))"

text \<open>
  \<open>key\<close> and \<open>keylen\<close> are written together, so they are one out parameter. The iterator comes
  back updated.
\<close>

definition storage_iter_next ::
  "('e, 't, 'c) platform \<Rightarrow> ('t, 'c) storage_iter option \<Rightarrow> string option \<Rightarrow>
   storage_rc \<times> string option \<times> ('t, 'c) storage_iter option" where
  "storage_iter_next L itp key =
     (case (itp, key) of
        (Some it, Some _) \<Rightarrow>
          if it_exhausted it then (STORAGE_ERR_NOTFOUND, key, itp)
          else let op = (if \<not> it_started it
                         then (if length (it_prefix it) > 0 then MDB_SET_RANGE (it_prefix it)
                               else MDB_FIRST)
                         else MDB_NEXT);
                   it = it\<lparr>it_started := True\<rparr> in
            (case mdb_cursor_get L (it_cursor it) op of (mrc, mkey, mval, c) \<Rightarrow>
              let it = it\<lparr>it_cursor := c\<rparr> in
              if mrc \<noteq> MDB_SUCCESS then
                (let rc = map_mdb_rc mrc in
                 (rc, key, Some (if rc = STORAGE_ERR_NOTFOUND then it\<lparr>it_exhausted := True\<rparr>
                                 else it)))
              else if length (it_prefix it) > 0 \<and>
                      (length mkey < length (it_prefix it) \<or>
                       take (length (it_prefix it)) mkey \<noteq> it_prefix it)
              then (STORAGE_ERR_NOTFOUND, key, Some (it\<lparr>it_exhausted := True\<rparr>))
              else (STORAGE_OK, Some mkey, Some it))
      | _ \<Rightarrow> (STORAGE_ERR_INVAL, key, itp))"

definition storage_iter_close ::
  "('e, 't, 'c) platform \<Rightarrow> ('t, 'c) storage_iter option \<Rightarrow> 'e storage_env \<Rightarrow> 'e storage_env" where
  "storage_iter_close L itp env =
     (case itp of
        None \<Rightarrow> env
      | Some it \<Rightarrow>
          abort_txn L (it_txn it)
            (env\<lparr>se_env := mdb_cursor_close L (it_cursor it) (se_env env)\<rparr>))"

subsection \<open>Diagnostics\<close>

definition storage_env_stat ::
  "('e, 't, 'c) platform \<Rightarrow> 'e storage_env option \<Rightarrow> uint64 option \<Rightarrow> uint64 option \<Rightarrow>
   storage_rc \<times> (uint64 option \<times> uint64 option) \<times> 'e storage_env option" where
  "storage_env_stat L env entries bytes_used =
     with_read_txn L env
       (\<lambda>txn. case mdb_stat_of L txn of (mrc, stat) \<Rightarrow>
          if mrc \<noteq> MDB_SUCCESS then (map_mdb_rc mrc, entries, bytes_used)
          else (STORAGE_OK,
                map_option (\<lambda>_. of_nat (ms_entries stat)) entries,
                map_option (\<lambda>_. (of_nat (ms_branch_pages stat) + of_nat (ms_leaf_pages stat) +
                                 of_nat (ms_overflow_pages stat)) * of_nat (ms_psize stat))
                  bytes_used))
       (entries, bytes_used)"

lemmas storage_op_defs =
  storage_get_int_def storage_set_int_def storage_get_uint_def storage_set_uint_def
  storage_get_u64_def storage_set_u64_def storage_get_bytes_def storage_set_bytes_def
  storage_get_oid_def storage_set_oid_def storage_delete_def storage_exists_def
  storage_type_of_def storage_env_stat_def

end
