(* ===== verification/Lmdb_Memory.thy ===== *)
theory Lmdb_Memory
  imports Lmdb "HOL-Library.AList"
begin

text \<open>
  An executable platform: a key-value store held in memory with snapshot transactions, handle
  counters and configurable limits on keys, live transactions and allocation size, so that the
  failure paths of the storage layer can be run too. It satisfies \<open>lmdb_laws\<close> under every
  limit and \<open>lmdb_reliable\<close> when there are none, which shows that the laws are consistent,
  and it is the platform at which the concrete instances of the theorems are evaluated.
\<close>

record mem_env =
  me_data :: "(string \<times> bytes) list"
  me_txns :: nat
  me_cursors :: nat

record mem_txn =
  mt_data :: "(string \<times> bytes) list"
  mt_ro :: bool

record mem_cur =
  mc_data :: "(string \<times> bytes) list"
  mc_pos :: "string option"

record mem_limits =
  max_keys :: "nat option"
  max_txns :: "nat option"
  max_alloc :: "nat option"

definition no_limits :: mem_limits where
  "no_limits = \<lparr>max_keys = None, max_txns = None, max_alloc = None\<rparr>"

definition within :: "nat \<Rightarrow> nat option \<Rightarrow> bool" where
  "within n lim = (case lim of None \<Rightarrow> True | Some m \<Rightarrow> n \<le> m)"

definition mem_empty :: mem_env where
  "mem_empty = \<lparr>me_data = [], me_txns = 0, me_cursors = 0\<rparr>"

definition mem_begin :: "mem_limits \<Rightarrow> mem_env \<Rightarrow> bool \<Rightarrow> mdb_rc \<times> mem_txn \<times> mem_env" where
  "mem_begin lim e ro =
     (if within (Suc (me_txns e)) (max_txns lim)
      then (MDB_SUCCESS, \<lparr>mt_data = me_data e, mt_ro = ro\<rparr>, e\<lparr>me_txns := Suc (me_txns e)\<rparr>)
      else (EAGAIN, \<lparr>mt_data = [], mt_ro = True\<rparr>, e))"

definition mem_commit :: "mem_txn \<Rightarrow> mem_env \<Rightarrow> mdb_rc \<times> mem_env" where
  "mem_commit t e =
     (MDB_SUCCESS, e\<lparr>me_data := (if mt_ro t then me_data e else mt_data t),
                     me_txns := me_txns e - 1\<rparr>)"

definition key_valid :: "string \<Rightarrow> bool" where
  "key_valid k = (k \<noteq> [] \<and> length k \<le> 511)"

definition mem_get :: "mem_txn \<Rightarrow> string \<Rightarrow> mdb_rc \<times> bytes" where
  "mem_get t k =
     (if \<not> key_valid k then (MDB_OTHER (- 30781), [])
      else case map_of (mt_data t) k of None \<Rightarrow> (MDB_NOTFOUND, []) | Some v \<Rightarrow> (MDB_SUCCESS, v))"

definition mem_put :: "mem_limits \<Rightarrow> mem_txn \<Rightarrow> string \<Rightarrow> bytes \<Rightarrow> mdb_rc \<times> mem_txn" where
  "mem_put lim t k v =
     (if mt_ro t then (EACCES, t)
      else if \<not> key_valid k then (MDB_OTHER (- 30781), t)
      else let d = AList.update k v (mt_data t) in
           if within (length d) (max_keys lim) then (MDB_SUCCESS, t\<lparr>mt_data := d\<rparr>)
           else (MDB_MAP_FULL, t))"

definition mem_del :: "mem_txn \<Rightarrow> string \<Rightarrow> mdb_rc \<times> mem_txn" where
  "mem_del t k =
     (if mt_ro t then (EACCES, t)
      else if \<not> key_valid k then (MDB_OTHER (- 30781), t)
      else case map_of (mt_data t) k of None \<Rightarrow> (MDB_NOTFOUND, t)
           | Some v \<Rightarrow> (MDB_SUCCESS, t\<lparr>mt_data := AList.delete k (mt_data t)\<rparr>))"

definition mem_cursor_get :: "mem_cur \<Rightarrow> cursor_op \<Rightarrow> mdb_rc \<times> string \<times> bytes \<times> mem_cur" where
  "mem_cursor_get c op =
     (case sort (filter (cursor_admits op (mc_pos c)) (map fst (mc_data c))) of
        [] \<Rightarrow> (MDB_NOTFOUND, [], [], c)
      | k # _ \<Rightarrow> (MDB_SUCCESS, k, the (map_of (mc_data c) k), c\<lparr>mc_pos := Some k\<rparr>))"

definition memdb :: "mem_limits \<Rightarrow> (mem_env, mem_txn, mem_cur) platform" where
  "memdb lim = \<lparr>
     malloc_ok = (\<lambda>n. within n (max_alloc lim)),
     os_mkdir = (\<lambda>_. MKDIR_OK),
     mdb_env_create = (MDB_SUCCESS, mem_empty),
     mdb_env_set_mapsize = (\<lambda>e _. (MDB_SUCCESS, e)),
     mdb_env_set_maxreaders = (\<lambda>e _. (MDB_SUCCESS, e)),
     mdb_env_open = (\<lambda>e _ _. (MDB_SUCCESS, e)),
     mdb_env_sync = (\<lambda>e _. (MDB_SUCCESS, e)),
     mdb_txn_begin = mem_begin lim,
     mdb_txn_commit = mem_commit,
     mdb_txn_abort = (\<lambda>_ e. e\<lparr>me_txns := me_txns e - 1\<rparr>),
     mdb_dbi_open = (\<lambda>t _. (MDB_SUCCESS, t)),
     mdb_get = mem_get,
     mdb_put = mem_put lim,
     mdb_del = mem_del,
     mdb_cursor_open = (\<lambda>t e. (MDB_SUCCESS, \<lparr>mc_data = mt_data t, mc_pos = None\<rparr>,
                               e\<lparr>me_cursors := Suc (me_cursors e)\<rparr>)),
     mdb_cursor_get = mem_cursor_get,
     mdb_cursor_close = (\<lambda>_ e. e\<lparr>me_cursors := me_cursors e - 1\<rparr>),
     mdb_stat_of = (\<lambda>t. (MDB_SUCCESS, \<lparr>ms_psize = 4096, ms_branch_pages = 0, ms_leaf_pages = 1,
                         ms_overflow_pages = 0, ms_entries = card (set (map fst (mt_data t)))\<rparr>))\<rparr>"

abbreviation mem_map :: "mem_env \<Rightarrow> store" where "mem_map e \<equiv> map_of (me_data e)"
abbreviation mem_txn_map :: "mem_txn \<Rightarrow> store" where "mem_txn_map t \<equiv> map_of (mt_data t)"
abbreviation mem_cur_map :: "mem_cur \<Rightarrow> store" where "mem_cur_map c \<equiv> map_of (mc_data c)"

lemmas memdb_defs = memdb_def mem_begin_def mem_commit_def mem_get_def mem_put_def mem_del_def

lemma mem_cursor_hit:
  assumes "mem_cursor_get c op = (MDB_SUCCESS, k, v, c')"
  shows "mem_cur_map c k = Some v \<and> cursor_admits op (mc_pos c) k \<and>
    (\<forall>j \<in> dom (mem_cur_map c). cursor_admits op (mc_pos c) j \<longrightarrow> k \<le> j) \<and>
    mem_cur_map c' = mem_cur_map c \<and> mc_pos c' = Some k"
proof -
  let ?ks = "filter (cursor_admits op (mc_pos c)) (map fst (mc_data c))"
  from assms obtain ks where ks: "sort ?ks = k # ks"
    and v: "v = the (mem_cur_map c k)" and c': "c' = c\<lparr>mc_pos := Some k\<rparr>"
    by (auto simp: mem_cursor_get_def split: list.splits)
  from ks have k: "k \<in> set ?ks" by (metis list.set_intros(1) set_sort)
  have "\<forall>j \<in> set ?ks. k \<le> j"
    using ks sorted_sort [of ?ks] by (metis set_ConsD set_sort sorted_simps(2) order_refl)
  with k v c' show ?thesis
    by (auto simp: dom_map_of_conv_image_fst weak_map_of_SomeI)
qed

lemma mem_cursor_end:
  assumes "mem_cursor_get c op = (MDB_NOTFOUND, k, v, c')"
  shows "\<forall>j \<in> dom (mem_cur_map c). \<not> cursor_admits op (mc_pos c) j"
proof -
  let ?ks = "filter (cursor_admits op (mc_pos c)) (map fst (mc_data c))"
  from assms have "sort ?ks = []"
    by (auto simp: mem_cursor_get_def split: list.splits)
  then have "set ?ks = {}" by (metis set_empty set_sort)
  then show ?thesis by (auto simp: dom_map_of_conv_image_fst)
qed

interpretation mem: lmdb_laws "memdb lim" mem_map me_txns me_cursors mem_txn_map mt_ro
    mem_cur_map mc_pos
  for lim
  by unfold_locales
    (auto simp: memdb_defs finite_dom_map_of update_conv' delete_conv' Let_def
      dom_map_of_conv_image_fst [symmetric] split: if_splits option.splits
      dest!: mem_cursor_hit mem_cursor_end)

interpretation mem_free: lmdb_reliable "memdb no_limits" mem_map me_txns me_cursors
    mem_txn_map mt_ro mem_cur_map mc_pos
  by unfold_locales
    (auto simp: memdb_defs no_limits_def within_def key_valid_def mem_cursor_get_def Let_def
      split: option.splits list.splits)

end
