(* ===== verification/Storage_Contract.thy ===== *)
theory Storage_Contract
  imports Storage_Lmdb Lmdb_Memory
begin

text \<open>
  What the storage layer promises. The locale \<open>cell_store\<close> is the contract the clients of a
  typed accessor pair rely on: a store with a get and a set that agree on an encoding.
  \<open>cell_store_total\<close> adds that nothing fails while the platform has resources. Both are
  interpreted on the accessors of \<open>Storage_Lmdb\<close> (int32, uint32, uint64 and byte strings),
  from the laws of the platform alone. The lemmas on transactions say in addition that every
  operation is atomic and gives back the handles it took.
\<close>

subsection \<open>The contract\<close>

locale cell_store =
  fixes contents :: "'s \<Rightarrow> store"
    and get :: "'s \<Rightarrow> string \<Rightarrow> storage_rc \<times> 'v option \<times> 's"
    and set :: "'s \<Rightarrow> string \<Rightarrow> 'v \<Rightarrow> storage_rc \<times> 's"
    and encode :: "'v \<Rightarrow> bytes"
    and decode :: "bytes \<Rightarrow> storage_rc \<times> 'v option"
    and fits :: "'v \<Rightarrow> bool"
  assumes decode_encode: "fits v \<Longrightarrow> decode (encode v) = (STORAGE_OK, Some v)"
    and get_keeps: "get s k = (rc, out, s') \<Longrightarrow> contents s' = contents s"
    and get_value: "get s k = (STORAGE_OK, out, s') \<Longrightarrow>
       \<exists>d. contents s k = Some d \<and> decode d = (STORAGE_OK, out)"
    and get_absent: "get s k = (STORAGE_ERR_NOTFOUND, out, s') \<Longrightarrow> contents s k = None"
    and get_mistyped: "get s k = (STORAGE_ERR_TYPE, out, s') \<Longrightarrow>
       \<exists>d. contents s k = Some d \<and> fst (decode d) = STORAGE_ERR_TYPE"
    and set_stores: "set s k v = (STORAGE_OK, s') \<Longrightarrow> contents s' = (contents s)(k \<mapsto> encode v)"
    and set_atomic: "set s k v = (rc, s') \<Longrightarrow> rc \<noteq> STORAGE_OK \<Longrightarrow> contents s' = contents s"
begin

lemma get_after_set:
  assumes "set s k v = (STORAGE_OK, s1)" and "fits v" and "get s1 k = (rc, out, s2)"
  shows "rc \<notin> {STORAGE_ERR_NOTFOUND, STORAGE_ERR_TYPE}"
    and "rc = STORAGE_OK \<Longrightarrow> out = Some v"
proof -
  have k: "contents s1 k = Some (encode v)"
    using set_stores [OF assms(1)] by simp
  show "rc \<notin> {STORAGE_ERR_NOTFOUND, STORAGE_ERR_TYPE}"
    using assms(2,3) k decode_encode get_absent get_mistyped by fastforce
  show "out = Some v" if "rc = STORAGE_OK"
    using assms(2,3) that k decode_encode get_value by fastforce
qed

lemma set_frame: "set s k v = (rc, s1) \<Longrightarrow> j \<noteq> k \<Longrightarrow> contents s1 j = contents s j"
  using set_stores set_atomic by (cases "rc = STORAGE_OK") (fastforce simp: fun_upd_other)+

lemma get_frame:
  assumes "set s k v = (rc, s1)" and "j \<noteq> k"
    and "get s j = (STORAGE_OK, out, s')" and "get s1 j = (STORAGE_OK, out1, s1')"
  shows "out1 = out"
  using set_frame [OF assms(1,2)] get_value [OF assms(3)] get_value [OF assms(4)] by auto

lemma set_finite: "set s k v = (rc, s1) \<Longrightarrow> finite (dom (contents s)) \<Longrightarrow> finite (dom (contents s1))"
  using set_stores set_atomic by (cases "rc = STORAGE_OK") auto

end

locale cell_store_total = cell_store +
  fixes key_ok :: "string \<Rightarrow> bool"
    and writable :: "'a \<Rightarrow> bool"
  assumes get_total: "key_ok k \<Longrightarrow> fst (get s k) =
       (case contents s k of None \<Rightarrow> STORAGE_ERR_NOTFOUND | Some d \<Rightarrow> fst (decode d))"
    and set_total: "key_ok k \<Longrightarrow> writable s \<Longrightarrow> fst (set s k v) = STORAGE_OK"
begin

lemma get_after_set_total:
  assumes "key_ok k" and "writable s" and "fits v"
  shows "\<exists>s1 s2. set s k v = (STORAGE_OK, s1) \<and> get s1 k = (STORAGE_OK, Some v, s2)"
proof -
  obtain s1 where s1: "set s k v = (STORAGE_OK, s1)"
    using set_total [OF assms(1,2), of v] by (cases "set s k v") auto
  obtain rc out s2 where g: "get s1 k = (rc, out, s2)" by (cases "get s1 k") auto
  have "rc = STORAGE_OK"
    using get_total [OF assms(1), of s1] g set_stores [OF s1] decode_encode [OF assms(3)] by simp
  with get_after_set(2) [OF s1 assms(3) g] s1 g show ?thesis by auto
qed

end

subsection \<open>The encodings\<close>

definition encode_int :: "int32 \<Rightarrow> bytes" where
  "encode_int v = encode_header STORAGE_TYPE_INT32 @ put_u32le v"

definition encode_uint :: "uint32 \<Rightarrow> bytes" where
  "encode_uint v = encode_header STORAGE_TYPE_UINT32 @ put_u32le v"

definition encode_u64 :: "uint64 \<Rightarrow> bytes" where
  "encode_u64 v = encode_header STORAGE_TYPE_UINT64 @ put_u64le v"

definition encode_bytes :: "bytes \<Rightarrow> bytes" where
  "encode_bytes v = encode_header STORAGE_TYPE_BYTES @ v"

text \<open>Decoding a stored value at a type, a payload of at least \<open>n\<close> bytes read by \<open>rd\<close>.\<close>

definition decode_fixed ::
  "storage_type \<Rightarrow> nat \<Rightarrow> (bytes \<Rightarrow> 'v) \<Rightarrow> bytes \<Rightarrow> storage_rc \<times> 'v option" where
  "decode_fixed ty n rd d =
     (case decode_header d ty of (rc, payload) \<Rightarrow>
        if rc \<noteq> STORAGE_OK then (rc, None)
        else if length payload < n then (STORAGE_ERR_INVAL, None)
        else (STORAGE_OK, Some (rd payload)))"

abbreviation "decode_int \<equiv> decode_fixed STORAGE_TYPE_INT32 4 get_u32le"
abbreviation "decode_uint \<equiv> decode_fixed STORAGE_TYPE_UINT32 4 get_u32le"
abbreviation "decode_u64 \<equiv> decode_fixed STORAGE_TYPE_UINT64 8 get_u64le"

text \<open>Decoding a byte string into a buffer of \<open>cap\<close> bytes.\<close>

definition decode_bytes :: "nat \<Rightarrow> bytes \<Rightarrow> storage_rc \<times> bytes option" where
  "decode_bytes cap d =
     (case decode_header d STORAGE_TYPE_BYTES of (rc, payload) \<Rightarrow>
        if rc \<noteq> STORAGE_OK then (rc, None)
        else if length payload > cap then (STORAGE_ERR_TOOBIG, None)
        else (STORAGE_OK, Some payload))"

lemma decode_encode_int [simp]: "decode_int (encode_int v) = (STORAGE_OK, Some v)"
  using get_put_u32le [of v "[]"] by (simp add: decode_fixed_def encode_int_def)

lemma decode_encode_uint [simp]: "decode_uint (encode_uint v) = (STORAGE_OK, Some v)"
  using get_put_u32le [of v "[]"] by (simp add: decode_fixed_def encode_uint_def)

lemma decode_encode_u64 [simp]: "decode_u64 (encode_u64 v) = (STORAGE_OK, Some v)"
  using get_put_u64le [of v "[]"] by (simp add: decode_fixed_def encode_u64_def)

lemma decode_encode_bytes [simp]:
  "length v \<le> cap \<Longrightarrow> decode_bytes cap (encode_bytes v) = (STORAGE_OK, Some v)"
  by (simp add: decode_bytes_def encode_bytes_def)

lemma decode_fixed_rc: "fst (decode_fixed ty n rd d) \<in> {STORAGE_OK, STORAGE_ERR_TYPE, STORAGE_ERR_INVAL}"
  using decode_header_rc [of d ty] by (auto simp: decode_fixed_def split: prod.splits)

lemma decode_bytes_rc:
  "fst (decode_bytes cap d) \<in>
     {STORAGE_OK, STORAGE_ERR_TYPE, STORAGE_ERR_INVAL, STORAGE_ERR_TOOBIG}"
  using decode_header_rc [of d STORAGE_TYPE_BYTES] by (auto simp: decode_bytes_def split: prod.splits)

lemma decode_not_notfound:
  "fst (decode_fixed ty n rd d) \<noteq> STORAGE_ERR_NOTFOUND" "fst (decode_bytes cap d) \<noteq> STORAGE_ERR_NOTFOUND"
  using decode_fixed_rc [of ty n rd d] decode_bytes_rc [of cap d] by auto

lemma decode_bytes_len: "decode_bytes cap d = (STORAGE_OK, Some v) \<Longrightarrow> length v \<le> cap"
  by (auto simp: decode_bytes_def split: prod.splits if_splits)

definition key_ok :: "string \<Rightarrow> bool" where
  "key_ok k \<longleftrightarrow> k \<noteq> [] \<and> length k \<le> STORAGE_KEY_MAX"

lemma validate_key_OK [simp]: "fst (validate_key (Some k) n) = STORAGE_OK \<longleftrightarrow> key_ok k"
  by (auto simp: validate_key_def key_ok_def Let_def)

lemma validate_key_None [simp]: "fst (validate_key None n) = STORAGE_ERR_INVAL"
  by (simp add: validate_key_def)

lemma validate_key_bad: "\<not> key_ok k \<Longrightarrow>
  fst (validate_key (Some k) n) \<in> {STORAGE_ERR_INVAL, STORAGE_ERR_TOOBIG}"
  by (auto simp: validate_key_def key_ok_def Let_def)

text \<open>What the code of a read says about the stored value.\<close>

definition reads_as ::
  "(bytes \<Rightarrow> storage_rc \<times> 'v option) \<Rightarrow> store \<Rightarrow> string \<Rightarrow> storage_rc \<Rightarrow> 'v option \<Rightarrow> bool" where
  "reads_as decode m k rc out \<longleftrightarrow>
     (rc = STORAGE_OK \<longrightarrow> (\<exists>d. m k = Some d \<and> decode d = (STORAGE_OK, out))) \<and>
     (rc = STORAGE_ERR_NOTFOUND \<longrightarrow> m k = None) \<and>
     (rc = STORAGE_ERR_TYPE \<longrightarrow> (\<exists>d. m k = Some d \<and> fst (decode d) = STORAGE_ERR_TYPE))"

text \<open>The handle itself, and the number of transactions and cursors that are live on it.\<close>

definition same_handle ::
  "('e \<Rightarrow> nat) \<Rightarrow> ('e \<Rightarrow> nat) \<Rightarrow> 'e storage_env \<Rightarrow> 'e storage_env \<Rightarrow> bool" where
  "same_handle txns cursors env env' \<longleftrightarrow>
     se_flags env' = se_flags env \<and> se_readonly env' = se_readonly env \<and>
     txns (se_env env') = txns (se_env env) \<and> cursors (se_env env') = cursors (se_env env)"

lemma same_handle_refl [simp]: "same_handle txns cursors env env"
  by (simp add: same_handle_def)

lemma same_handle_trans:
  "same_handle txns cursors a b \<Longrightarrow> same_handle txns cursors b c \<Longrightarrow> same_handle txns cursors a c"
  by (simp add: same_handle_def)

subsection \<open>Transactions\<close>

context lmdb_laws
begin

lemma with_read_txn_frame:
  assumes "with_read_txn L (Some env) f out = (rc, out', envp)"
  shows "\<exists>env'. envp = Some env' \<and> same_handle live_txns live_cursors env env' \<and>
    env_map (se_env env') = env_map (se_env env)"
  using assms begin_env [of "se_env env" True]
  by (auto simp: with_read_txn_def begin_read_txn_def abort_txn_def same_handle_def abort_env
      split: prod.splits if_splits)

text \<open>A reader either fails to start or runs on a view that is the committed contents.\<close>

lemma with_read_txn_cases:
  assumes "with_read_txn L (Some env) f out = (rc, out', envp)"
  obtains (busy) "rc \<notin> {STORAGE_OK, STORAGE_ERR_NOTFOUND, STORAGE_ERR_TYPE}" "out' = out"
    "fst (mdb_txn_begin L (se_env env) True) \<noteq> MDB_SUCCESS"
  | (ran) t where "txn_map t = env_map (se_env env)" "f t = (rc, out')"
proof (cases "mdb_txn_begin L (se_env env) True")
  case (fields mrc t e)
  show ?thesis
  proof (cases "mrc = MDB_SUCCESS")
    case True
    with fields begin_view have "txn_map t = env_map (se_env env)" by blast
    moreover from True fields assms have "f t = (rc, out')"
      by (auto simp: with_read_txn_def begin_read_txn_def split: prod.splits)
    ultimately show ?thesis by (rule ran)
  next
    case False
    moreover have "mrc \<noteq> MDB_NOTFOUND" using begin_codes [of "se_env env" True] fields by simp
    ultimately show ?thesis
      using fields assms busy by (auto simp: with_read_txn_def begin_read_txn_def)
  qed
qed

text \<open>
  A writer is atomic: it either leaves the contents alone and reports an error, or the whole
  effect \<open>F\<close> of its body is there. Either way no handle is left behind.
\<close>

lemma with_write_txn_frame:
  assumes "with_write_txn L (Some env) f = (rc, envp)"
    and ro: "\<And>t t'. \<not> txn_ro t \<Longrightarrow> f t = (STORAGE_OK, t') \<Longrightarrow> \<not> txn_ro t' \<and> txn_map t' = F (txn_map t)"
  shows "\<exists>env'. envp = Some env' \<and> same_handle live_txns live_cursors env env' \<and>
    env_map (se_env env') =
      (if rc = STORAGE_OK then F (env_map (se_env env)) else env_map (se_env env))"
proof (cases "mdb_txn_begin L (se_env env) False")
  case (fields mrc t e)
  have e: "env_map e = env_map (se_env env)" "live_cursors e = live_cursors (se_env env)"
    "live_txns e = (if mrc = MDB_SUCCESS then Suc (live_txns (se_env env)) else live_txns (se_env env))"
    using begin_env [OF fields] by auto
  show ?thesis
  proof (cases "se_readonly env \<or> mrc \<noteq> MDB_SUCCESS")
    case True
    with fields e assms(1) show ?thesis
      by (auto simp: with_write_txn_def begin_write_txn_def same_handle_def split: if_splits)
  next
    case False
    with fields begin_view have t: "txn_map t = env_map (se_env env)" "\<not> txn_ro t" by auto
    obtain rc1 t1 where f: "f t = (rc1, t1)" by fastforce
    obtain crc e1 where c: "mdb_txn_commit L t1 e = (crc, e1)" by fastforce
    from assms(1) False fields f c show ?thesis
      using e t ro [OF t(2)] commit_env [OF c]
      by (auto simp: with_write_txn_def begin_write_txn_def commit_write_txn_def abort_txn_def
          same_handle_def abort_env split: if_splits)
  qed
qed

lemma txn_put_raw_stores:
  "txn_put_raw L t key d = (STORAGE_OK, t') \<Longrightarrow>
     \<exists>k. key = Some k \<and> key_ok k \<and> txn_map t' = (txn_map t)(k \<mapsto> d) \<and> txn_ro t' = txn_ro t"
  using put_stores
  by (cases key)
    (auto simp: txn_put_raw_def validate_key_def key_ok_def Let_def split: prod.splits if_splits)

lemma txn_get_raw_cases:
  assumes "txn_get_raw L t (Some k) = (rc, d)"
  shows "rc = STORAGE_OK \<Longrightarrow> txn_map t k = Some d"
    and "rc = STORAGE_ERR_NOTFOUND \<Longrightarrow> txn_map t k = None"
    and "rc \<noteq> STORAGE_ERR_TYPE"
  using assms get_found get_missing
  by (auto simp: txn_get_raw_def validate_key_def Let_def split: prod.splits if_splits)

text \<open>
  The shape all fixed width getters share: read the raw value, decode it, and leave the out
  parameter alone on every error.
\<close>

lemma txn_get_fixed:
  fixes old :: "'v" and rd :: "bytes \<Rightarrow> 'v"
  assumes "(case txn_get_raw L t (Some k) of (rc, data) \<Rightarrow>
      if rc \<noteq> STORAGE_OK then (rc, Some old)
      else (case decode_header data ty of (rc, payload) \<Rightarrow>
        if rc \<noteq> STORAGE_OK then (rc, Some old)
        else if length payload < n then (STORAGE_ERR_INVAL, Some old)
        else (STORAGE_OK, Some (rd payload)))) = (rc, out)"
  shows "reads_as (decode_fixed ty n rd) (txn_map t) k rc out \<and> (rc \<noteq> STORAGE_OK \<longrightarrow> out = Some old)"
proof -
  obtain rrc d where raw: "txn_get_raw L t (Some k) = (rrc, d)" by fastforce
  obtain hrc p where hd: "decode_header d ty = (hrc, p)" by fastforce
  have h: "hrc \<in> {STORAGE_OK, STORAGE_ERR_TYPE, STORAGE_ERR_INVAL}"
    using decode_header_rc [of d ty] hd by simp
  show ?thesis
    using assms [unfolded raw prod.case hd] txn_get_raw_cases [OF raw] h hd
    by (auto simp: reads_as_def decode_fixed_def split: if_splits)
qed

lemma txn_get_bytes_reads:
  assumes "txn_get_bytes_impl L t (Some k) (Some buf) (Some cap) = (rc, buf', len')"
    and "length buf = cap"
  shows "reads_as (decode_bytes cap) (txn_map t) k rc (Some (take (the len') (the buf')))"
    and "rc \<noteq> STORAGE_OK \<Longrightarrow> buf' = Some buf"
proof -
  obtain rrc d where raw: "txn_get_raw L t (Some k) = (rrc, d)" by fastforce
  obtain hrc p where hd: "decode_header d STORAGE_TYPE_BYTES = (hrc, p)" by fastforce
  have h: "hrc \<in> {STORAGE_OK, STORAGE_ERR_TYPE, STORAGE_ERR_INVAL}"
    using decode_header_rc [of d STORAGE_TYPE_BYTES] hd by simp
  show "reads_as (decode_bytes cap) (txn_map t) k rc (Some (take (the len') (the buf')))"
    and "rc \<noteq> STORAGE_OK \<Longrightarrow> buf' = Some buf"
    using assms raw txn_get_raw_cases [OF raw] h hd
    by (auto simp: txn_get_bytes_impl_def reads_as_def decode_bytes_def memcpy_def split: if_splits)
qed

end

subsection \<open>The accessors satisfy the contract\<close>

text \<open>The result of an accessor as its client uses it: the value counts only on success.\<close>

definition got :: "storage_rc \<times> 'v option \<times> 's option \<Rightarrow> storage_rc \<times> 'v option \<times> 's" where
  "got r = (case r of (rc, out, s) \<Rightarrow> (rc, if rc = STORAGE_OK then out else None, the s))"

definition got_bytes ::
  "storage_rc \<times> ('b list option \<times> nat option) \<times> 's option \<Rightarrow> storage_rc \<times> 'b list option \<times> 's" where
  "got_bytes r = (case r of (rc, (buf, len), s) \<Rightarrow>
     (rc, if rc = STORAGE_OK then Some (take (the len) (the buf)) else None, the s))"

definition did :: "storage_rc \<times> 's option \<Rightarrow> storage_rc \<times> 's" where
  "did r = (case r of (rc, s) \<Rightarrow> (rc, the s))"

definition get_int :: "('e, 't, 'c) platform \<Rightarrow> 'e storage_env \<Rightarrow> string \<Rightarrow>
    storage_rc \<times> int32 option \<times> 'e storage_env" where
  "get_int L env k = got (storage_get_int L (Some env) (Some k) (Some 0))"

definition get_uint :: "('e, 't, 'c) platform \<Rightarrow> 'e storage_env \<Rightarrow> string \<Rightarrow>
    storage_rc \<times> uint32 option \<times> 'e storage_env" where
  "get_uint L env k = got (storage_get_uint L (Some env) (Some k) (Some 0))"

definition get_u64 :: "('e, 't, 'c) platform \<Rightarrow> 'e storage_env \<Rightarrow> string \<Rightarrow>
    storage_rc \<times> uint64 option \<times> 'e storage_env" where
  "get_u64 L env k = got (storage_get_u64 L (Some env) (Some k) (Some 0))"

definition get_bytes :: "nat \<Rightarrow> ('e, 't, 'c) platform \<Rightarrow> 'e storage_env \<Rightarrow> string \<Rightarrow>
    storage_rc \<times> bytes option \<times> 'e storage_env" where
  "get_bytes cap L env k =
     got_bytes (storage_get_bytes L (Some env) (Some k) (Some (replicate cap 0)) (Some cap))"

definition set_int :: "('e, 't, 'c) platform \<Rightarrow> 'e storage_env \<Rightarrow> string \<Rightarrow> int32 \<Rightarrow>
    storage_rc \<times> 'e storage_env" where
  "set_int L env k v = did (storage_set_int L (Some env) (Some k) v)"

definition set_uint :: "('e, 't, 'c) platform \<Rightarrow> 'e storage_env \<Rightarrow> string \<Rightarrow> uint32 \<Rightarrow>
    storage_rc \<times> 'e storage_env" where
  "set_uint L env k v = did (storage_set_uint L (Some env) (Some k) v)"

definition set_u64 :: "('e, 't, 'c) platform \<Rightarrow> 'e storage_env \<Rightarrow> string \<Rightarrow> uint64 \<Rightarrow>
    storage_rc \<times> 'e storage_env" where
  "set_u64 L env k v = did (storage_set_u64 L (Some env) (Some k) v)"

definition set_bytes :: "('e, 't, 'c) platform \<Rightarrow> 'e storage_env \<Rightarrow> string \<Rightarrow> bytes \<Rightarrow>
    storage_rc \<times> 'e storage_env" where
  "set_bytes L env k v = did (storage_set_bytes L (Some env) (Some k) (Some v) (length v))"

lemma fst_got [simp]: "fst (got r) = fst r" "fst (got_bytes r') = fst r'" "fst (did r'') = fst r''"
  by (simp_all add: got_def got_bytes_def did_def split: prod.splits)

lemmas cell_defs = get_int_def get_uint_def get_u64_def get_bytes_def
  set_int_def set_uint_def set_u64_def set_bytes_def got_def got_bytes_def did_def

context lmdb_laws
begin

lemma with_read_txn_reads:
  assumes "with_read_txn L (Some env) f out0 = (rc, out, envp)"
    and "\<And>t rc out. f t = (rc, out) \<Longrightarrow> reads_as dec (txn_map t) k rc (sel out)"
  shows "reads_as dec (env_map (se_env env)) k rc (sel out)"
  using assms(1)
proof (cases rule: with_read_txn_cases)
  case busy
  then show ?thesis by (simp add: reads_as_def)
next
  case (ran t)
  then show ?thesis using assms(2) [of t] by simp
qed

lemma storage_get_int_reads:
  assumes "storage_get_int L (Some env) (Some k) (Some old) = (rc, out, envp)"
  shows "reads_as decode_int (env_map (se_env env)) k rc out"
  using assms unfolding storage_get_int_def
  by (rule with_read_txn_reads [where sel = "\<lambda>x. x"])
    (use txn_get_fixed in \<open>fastforce simp: txn_get_int_impl_def\<close>)

lemma storage_get_uint_reads:
  assumes "storage_get_uint L (Some env) (Some k) (Some old) = (rc, out, envp)"
  shows "reads_as decode_uint (env_map (se_env env)) k rc out"
  using assms unfolding storage_get_uint_def
  by (rule with_read_txn_reads [where sel = "\<lambda>x. x"])
    (use txn_get_fixed in \<open>fastforce simp: txn_get_uint_impl_def\<close>)

lemma storage_get_u64_reads:
  assumes "storage_get_u64 L (Some env) (Some k) (Some old) = (rc, out, envp)"
  shows "reads_as decode_u64 (env_map (se_env env)) k rc out"
  using assms unfolding storage_get_u64_def
  by (rule with_read_txn_reads [where sel = "\<lambda>x. x"])
    (use txn_get_fixed in \<open>fastforce simp: txn_get_u64_impl_def\<close>)

lemma storage_get_bytes_reads:
  assumes "storage_get_bytes L (Some env) (Some k) (Some buf) (Some cap) = (rc, (buf', len'), envp)"
    and "length buf = cap"
  shows "reads_as (decode_bytes cap) (env_map (se_env env)) k rc (Some (take (the len') (the buf')))"
  using with_read_txn_reads [where sel = "\<lambda>(b, n). Some (take (the n) (the b))",
      OF assms(1) [unfolded storage_get_bytes_def]] txn_get_bytes_reads(1) assms(2)
  by fastforce

text \<open>Every writer is \<open>txn_put_raw\<close> in a transaction of its own.\<close>

lemma with_put_txn:
  assumes "with_write_txn L (Some env) f = (rc, envp)"
    and "\<And>t t'. f t = (STORAGE_OK, t') \<Longrightarrow> txn_put_raw L t (Some k) d = (STORAGE_OK, t')"
  shows "\<exists>env'. envp = Some env' \<and> same_handle live_txns live_cursors env env' \<and>
    env_map (se_env env') =
      (if rc = STORAGE_OK then (env_map (se_env env))(k \<mapsto> d) else env_map (se_env env))"
  by (rule with_write_txn_frame [OF assms(1)]) (use assms(2) txn_put_raw_stores in fastforce)

lemma storage_set_int_writes:
  assumes "storage_set_int L (Some env) (Some k) v = (rc, envp)"
  shows "\<exists>env'. envp = Some env' \<and> same_handle live_txns live_cursors env env' \<and>
    env_map (se_env env') =
      (if rc = STORAGE_OK then (env_map (se_env env))(k \<mapsto> encode_int v) else env_map (se_env env))"
  using assms unfolding storage_set_int_def
  by (rule with_put_txn) (simp add: txn_set_int_impl_def encode_int_def)

lemma storage_set_uint_writes:
  assumes "storage_set_uint L (Some env) (Some k) v = (rc, envp)"
  shows "\<exists>env'. envp = Some env' \<and> same_handle live_txns live_cursors env env' \<and>
    env_map (se_env env') =
      (if rc = STORAGE_OK then (env_map (se_env env))(k \<mapsto> encode_uint v) else env_map (se_env env))"
  using assms unfolding storage_set_uint_def
  by (rule with_put_txn) (simp add: txn_set_uint_impl_def encode_uint_def)

lemma storage_set_u64_writes:
  assumes "storage_set_u64 L (Some env) (Some k) v = (rc, envp)"
  shows "\<exists>env'. envp = Some env' \<and> same_handle live_txns live_cursors env env' \<and>
    env_map (se_env env') =
      (if rc = STORAGE_OK then (env_map (se_env env))(k \<mapsto> encode_u64 v) else env_map (se_env env))"
  using assms unfolding storage_set_u64_def
  by (rule with_put_txn) (simp add: txn_set_u64_impl_def encode_u64_def)

lemma storage_set_bytes_writes:
  assumes "storage_set_bytes L (Some env) (Some k) (Some buf) len = (rc, envp)"
  shows "\<exists>env'. envp = Some env' \<and> same_handle live_txns live_cursors env env' \<and>
    env_map (se_env env') =
      (if rc = STORAGE_OK then (env_map (se_env env))(k \<mapsto> encode_bytes (take len buf))
       else env_map (se_env env))"
  using assms unfolding storage_set_bytes_def
  by (rule with_put_txn) (simp add: txn_set_bytes_impl_def encode_bytes_def split: if_splits)

lemma storage_delete_removes:
  assumes "storage_delete L (Some env) (Some k) = (rc, envp)"
  shows "\<exists>env'. envp = Some env' \<and> same_handle live_txns live_cursors env env' \<and>
    env_map (se_env env') =
      (if rc = STORAGE_OK then (env_map (se_env env))(k := None) else env_map (se_env env))"
  using assms unfolding storage_delete_def
  by (rule with_write_txn_frame)
    (use del_removes in \<open>auto simp: txn_delete_impl_def split: prod.splits if_splits\<close>)

lemma read_frames:
  "storage_get_int L (Some env) key i = (rc, i', envp) \<Longrightarrow>
     \<exists>env'. envp = Some env' \<and> same_handle live_txns live_cursors env env' \<and>
       env_map (se_env env') = env_map (se_env env)"
  "storage_get_uint L (Some env) key u = (rc, u', envp) \<Longrightarrow>
     \<exists>env'. envp = Some env' \<and> same_handle live_txns live_cursors env env' \<and>
       env_map (se_env env') = env_map (se_env env)"
  "storage_get_u64 L (Some env) key w = (rc, w', envp) \<Longrightarrow>
     \<exists>env'. envp = Some env' \<and> same_handle live_txns live_cursors env env' \<and>
       env_map (se_env env') = env_map (se_env env)"
  "storage_get_bytes L (Some env) key buf len = (rc, b', envp) \<Longrightarrow>
     \<exists>env'. envp = Some env' \<and> same_handle live_txns live_cursors env env' \<and>
       env_map (se_env env') = env_map (se_env env)"
  "storage_get_oid L (Some env) key subids count = (rc, o', envp) \<Longrightarrow>
     \<exists>env'. envp = Some env' \<and> same_handle live_txns live_cursors env env' \<and>
       env_map (se_env env') = env_map (se_env env)"
  "storage_exists L (Some env) key = (rc, x', envp) \<Longrightarrow>
     \<exists>env'. envp = Some env' \<and> same_handle live_txns live_cursors env env' \<and>
       env_map (se_env env') = env_map (se_env env)"
  "storage_type_of L (Some env) key y = (rc, y', envp) \<Longrightarrow>
     \<exists>env'. envp = Some env' \<and> same_handle live_txns live_cursors env env' \<and>
       env_map (se_env env') = env_map (se_env env)"
  "storage_env_stat L (Some env) n m = (rc, z', envp) \<Longrightarrow>
     \<exists>env'. envp = Some env' \<and> same_handle live_txns live_cursors env env' \<and>
       env_map (se_env env') = env_map (se_env env)"
  unfolding storage_op_defs by (erule with_read_txn_frame)+

lemma get_int_cell: "get_int L env k = (rc, out, env') \<Longrightarrow>
    reads_as decode_int (env_map (se_env env)) k rc out \<and> env_map (se_env env') = env_map (se_env env)"
  using storage_get_int_reads [of env k 0] read_frames(1) [of env "Some k"]
  by (cases "storage_get_int L (Some env) (Some k) (Some 0)")
    (fastforce simp: cell_defs reads_as_def)

lemma get_uint_cell: "get_uint L env k = (rc, out, env') \<Longrightarrow>
    reads_as decode_uint (env_map (se_env env)) k rc out \<and> env_map (se_env env') = env_map (se_env env)"
  using storage_get_uint_reads [of env k 0] read_frames(2) [of env "Some k"]
  by (cases "storage_get_uint L (Some env) (Some k) (Some 0)")
    (fastforce simp: cell_defs reads_as_def)

lemma get_u64_cell: "get_u64 L env k = (rc, out, env') \<Longrightarrow>
    reads_as decode_u64 (env_map (se_env env)) k rc out \<and> env_map (se_env env') = env_map (se_env env)"
  using storage_get_u64_reads [of env k 0] read_frames(3) [of env "Some k"]
  by (cases "storage_get_u64 L (Some env) (Some k) (Some 0)")
    (fastforce simp: cell_defs reads_as_def)

lemma get_bytes_cell: "get_bytes cap L env k = (rc, out, env') \<Longrightarrow>
    reads_as (decode_bytes cap) (env_map (se_env env)) k rc out \<and>
    env_map (se_env env') = env_map (se_env env)"
  using storage_get_bytes_reads [of env k "replicate cap 0" cap] read_frames(4) [of env "Some k"]
  by (cases "storage_get_bytes L (Some env) (Some k) (Some (replicate cap 0)) (Some cap)")
    (fastforce simp: cell_defs reads_as_def)

lemma cell_storeI:
  fixes put :: "'e storage_env \<Rightarrow> string \<Rightarrow> 'v \<Rightarrow> storage_rc \<times> 'e storage_env"
  assumes "\<And>v. fits v \<Longrightarrow> decode (encode v) = (STORAGE_OK, Some v)"
    and "\<And>env k rc out env'. get env k = (rc, out, env') \<Longrightarrow>
      reads_as decode (env_map (se_env env)) k rc out \<and> env_map (se_env env') = env_map (se_env env)"
    and "\<And>env k v rc env'. put env k v = (rc, env') \<Longrightarrow> env_map (se_env env') =
      (if rc = STORAGE_OK then (env_map (se_env env))(k \<mapsto> encode v) else env_map (se_env env))"
  shows "cell_store (\<lambda>env. env_map (se_env env)) get put encode decode fits"
  using assms by unfold_locales (fastforce simp: reads_as_def)+

end

sublocale lmdb_laws \<subseteq> int_cell: cell_store "\<lambda>env. env_map (se_env env)" "get_int L" "set_int L"
    encode_int decode_int "\<lambda>_. True"
  by (rule cell_storeI)
    (use get_int_cell storage_set_int_writes in \<open>fastforce simp: cell_defs split: prod.splits\<close>)+

sublocale lmdb_laws \<subseteq> uint_cell: cell_store "\<lambda>env. env_map (se_env env)" "get_uint L" "set_uint L"
    encode_uint decode_uint "\<lambda>_. True"
  by (rule cell_storeI)
    (use get_uint_cell storage_set_uint_writes in \<open>fastforce simp: cell_defs split: prod.splits\<close>)+

sublocale lmdb_laws \<subseteq> u64_cell: cell_store "\<lambda>env. env_map (se_env env)" "get_u64 L" "set_u64 L"
    encode_u64 decode_u64 "\<lambda>_. True"
  by (rule cell_storeI)
    (use get_u64_cell storage_set_u64_writes in \<open>fastforce simp: cell_defs split: prod.splits\<close>)+

sublocale lmdb_laws \<subseteq> bytes_cell: cell_store "\<lambda>env. env_map (se_env env)" "get_bytes cap L"
    "set_bytes L" encode_bytes "decode_bytes cap" "\<lambda>v. length v \<le> cap"
  for cap
  by (rule cell_storeI)
    (use get_bytes_cell storage_set_bytes_writes in \<open>fastforce simp: cell_defs split: prod.splits\<close>)+

subsection \<open>Nothing fails while the platform has resources\<close>

context lmdb_reliable
begin

lemma with_read_txn_runs:
  assumes "\<And>t. txn_map t = env_map (se_env env) \<Longrightarrow> fst (f t) = rc"
  shows "fst (with_read_txn L (Some env) f out) = rc"
proof (cases "mdb_txn_begin L (se_env env) True")
  case (fields mrc t e)
  with begin_total [of "se_env env" True] have "mrc = MDB_SUCCESS" by simp
  with fields begin_view have "fst (f t) = rc" using assms by blast
  with \<open>mrc = MDB_SUCCESS\<close> fields show ?thesis
    by (auto simp: with_read_txn_def begin_read_txn_def split: prod.splits)
qed

lemma with_write_txn_runs:
  assumes "\<not> se_readonly env" and "\<And>t. \<not> txn_ro t \<Longrightarrow> txn_map t = env_map (se_env env) \<Longrightarrow>
    fst (f t) = rc"
  shows "fst (with_write_txn L (Some env) f) = rc"
proof (cases "mdb_txn_begin L (se_env env) False")
  case (fields mrc t e)
  with begin_total [of "se_env env" False] have "mrc = MDB_SUCCESS" by simp
  with fields begin_view have "fst (f t) = rc" using assms(2) by blast
  with \<open>mrc = MDB_SUCCESS\<close> fields assms(1) commit_total [of "snd (f t)" e] show ?thesis
    by (cases "f t", cases "mdb_txn_commit L (snd (f t)) e")
      (auto simp: with_write_txn_def begin_write_txn_def commit_write_txn_def)
qed

lemma txn_get_raw_total:
  assumes "key_ok k"
  shows "txn_map t k = None \<Longrightarrow> fst (txn_get_raw L t (Some k)) = STORAGE_ERR_NOTFOUND"
    and "txn_map t k = Some d \<Longrightarrow> txn_get_raw L t (Some k) = (STORAGE_OK, d)"
  using assms get_total [of k t] get_found [of t k]
  by (auto simp: txn_get_raw_def validate_key_def key_ok_def Let_def split: prod.splits)

lemma txn_put_raw_total: "key_ok k \<Longrightarrow> \<not> txn_ro t \<Longrightarrow> fst (txn_put_raw L t (Some k) d) = STORAGE_OK"
  using put_total [of k t d]
  by (auto simp: txn_put_raw_def validate_key_def key_ok_def Let_def split: prod.splits)

lemma txn_get_total:
  assumes "key_ok k"
  shows "fst (txn_get_int_impl L t (Some k) (Some i)) =
      (case txn_map t k of None \<Rightarrow> STORAGE_ERR_NOTFOUND | Some d \<Rightarrow> fst (decode_int d))"
    and "fst (txn_get_uint_impl L t (Some k) (Some u)) =
      (case txn_map t k of None \<Rightarrow> STORAGE_ERR_NOTFOUND | Some d \<Rightarrow> fst (decode_uint d))"
    and "fst (txn_get_u64_impl L t (Some k) (Some w)) =
      (case txn_map t k of None \<Rightarrow> STORAGE_ERR_NOTFOUND | Some d \<Rightarrow> fst (decode_u64 d))"
    and "fst (txn_get_bytes_impl L t (Some k) (Some buf) (Some cap)) =
      (case txn_map t k of None \<Rightarrow> STORAGE_ERR_NOTFOUND | Some d \<Rightarrow> fst (decode_bytes cap d))"
  using txn_get_raw_total [OF assms, of t]
  by (cases "txn_map t k"; cases "txn_get_raw L t (Some k)";
      simp add: txn_get_int_impl_def txn_get_uint_impl_def txn_get_u64_impl_def
        txn_get_bytes_impl_def decode_fixed_def decode_bytes_def split: prod.splits)+

text \<open>A reader that gives one answer on the committed contents gives it, a writer of one cell stores it.\<close>

lemma with_read_txn_result:
  assumes "\<And>t. txn_map t = env_map (se_env env) \<Longrightarrow> f t = (rc, out')"
  shows "\<exists>env'. with_read_txn L (Some env) f out = (rc, out', Some env')"
proof (cases "mdb_txn_begin L (se_env env) True")
  case (fields mrc t e)
  with begin_total [of "se_env env" True] have "mrc = MDB_SUCCESS" by simp
  with fields begin_view have "f t = (rc, out')" using assms by blast
  with \<open>mrc = MDB_SUCCESS\<close> fields show ?thesis by (simp add: with_read_txn_def begin_read_txn_def)
qed

lemma with_put_result:
  assumes "key_ok k" and "\<not> se_readonly env" and "\<And>t. f t = txn_put_raw L t (Some k) d"
  shows "\<exists>env'. with_write_txn L (Some env) f = (STORAGE_OK, Some env') \<and>
    env_map (se_env env') = (env_map (se_env env))(k \<mapsto> d)"
proof -
  have "fst (with_write_txn L (Some env) f) = STORAGE_OK"
    by (rule with_write_txn_runs [OF assms(2)]) (simp add: assms txn_put_raw_total)
  then obtain envp where "with_write_txn L (Some env) f = (STORAGE_OK, envp)"
    by (cases "with_write_txn L (Some env) f") simp
  with with_put_txn [OF this, of k d] assms(3) show ?thesis by auto
qed

lemma txn_get_result:
  assumes "key_ok k"
  shows "txn_map t k = Some (encode_int i) \<Longrightarrow>
      txn_get_int_impl L t (Some k) (Some i0) = (STORAGE_OK, Some i)"
    and "txn_map t k = Some (encode_uint u) \<Longrightarrow>
      txn_get_uint_impl L t (Some k) (Some u0) = (STORAGE_OK, Some u)"
    and "txn_map t k = Some (encode_u64 w) \<Longrightarrow>
      txn_get_u64_impl L t (Some k) (Some w0) = (STORAGE_OK, Some w)"
    and "txn_map t k = Some (encode_bytes b) \<Longrightarrow> length b \<le> length buf \<Longrightarrow>
      txn_get_bytes_impl L t (Some k) (Some buf) (Some (length buf)) =
        (STORAGE_OK, Some (b @ drop (length b) buf), Some (length b))"
  using txn_get_raw_total(2) [OF assms, of t] get_put_u32le [of _ "[]"] get_put_u64le [of _ "[]"]
  by (simp_all add: txn_get_int_impl_def txn_get_uint_impl_def txn_get_u64_impl_def
      txn_get_bytes_impl_def encode_int_def encode_uint_def encode_u64_def encode_bytes_def memcpy_def)

lemma put_get_result:
  assumes "key_ok k" and "\<not> se_readonly env" and "\<And>t. f t = txn_put_raw L t (Some k) d"
    and "\<And>t. txn_map t k = Some d \<Longrightarrow> g t = (STORAGE_OK, out')"
  shows "\<exists>e1 e2. with_write_txn L (Some env) f = (STORAGE_OK, Some e1) \<and>
    with_read_txn L (Some e1) g out = (STORAGE_OK, out', Some e2)"
proof -
  from with_put_result [OF assms(1-3)] obtain e1 where
    e1: "with_write_txn L (Some env) f = (STORAGE_OK, Some e1)" "env_map (se_env e1) k = Some d" by auto
  have "\<exists>e2. with_read_txn L (Some e1) g out = (STORAGE_OK, out', Some e2)"
    by (rule with_read_txn_result) (simp add: assms(4) e1(2))
  with e1(1) show ?thesis by blast
qed

lemma set_get_result:
  assumes "key_ok k" and "\<not> se_readonly env"
  shows "\<exists>e1 e2. storage_set_int L (Some env) (Some k) i = (STORAGE_OK, Some e1) \<and>
      storage_get_int L (Some e1) (Some k) (Some i0) = (STORAGE_OK, Some i, Some e2)"
    and "\<exists>e1 e2. storage_set_uint L (Some env) (Some k) u = (STORAGE_OK, Some e1) \<and>
      storage_get_uint L (Some e1) (Some k) (Some u0) = (STORAGE_OK, Some u, Some e2)"
    and "\<exists>e1 e2. storage_set_u64 L (Some env) (Some k) w = (STORAGE_OK, Some e1) \<and>
      storage_get_u64 L (Some e1) (Some k) (Some w0) = (STORAGE_OK, Some w, Some e2)"
    and "length b \<le> length buf \<Longrightarrow>
      \<exists>e1 e2. storage_set_bytes L (Some env) (Some k) (Some b) (length b) = (STORAGE_OK, Some e1) \<and>
      storage_get_bytes L (Some e1) (Some k) (Some buf) (Some (length buf)) =
        (STORAGE_OK, (Some (b @ drop (length b) buf), Some (length b)), Some e2)"
  unfolding storage_op_defs
  by (rule put_get_result [OF assms(1,2)],
      simp add: txn_set_int_impl_def txn_set_uint_impl_def txn_set_u64_impl_def txn_set_bytes_impl_def
        malloc_total flip: encode_int_def encode_uint_def encode_u64_def encode_bytes_def,
      simp add: txn_get_result [OF assms(1)])+

lemma get_int_total:
  assumes "key_ok k"
  shows "fst (get_int L env k) =
    (case env_map (se_env env) k of None \<Rightarrow> STORAGE_ERR_NOTFOUND | Some d \<Rightarrow> fst (decode_int d))"
  unfolding get_int_def fst_got storage_get_int_def
  by (rule with_read_txn_runs) (simp add: txn_get_total [OF assms])

lemma get_uint_total:
  assumes "key_ok k"
  shows "fst (get_uint L env k) =
    (case env_map (se_env env) k of None \<Rightarrow> STORAGE_ERR_NOTFOUND | Some d \<Rightarrow> fst (decode_uint d))"
  unfolding get_uint_def fst_got storage_get_uint_def
  by (rule with_read_txn_runs) (simp add: txn_get_total [OF assms])

lemma get_u64_total:
  assumes "key_ok k"
  shows "fst (get_u64 L env k) =
    (case env_map (se_env env) k of None \<Rightarrow> STORAGE_ERR_NOTFOUND | Some d \<Rightarrow> fst (decode_u64 d))"
  unfolding get_u64_def fst_got storage_get_u64_def
  by (rule with_read_txn_runs) (simp add: txn_get_total [OF assms])

lemma get_bytes_total:
  assumes "key_ok k"
  shows "fst (get_bytes cap L env k) =
    (case env_map (se_env env) k of None \<Rightarrow> STORAGE_ERR_NOTFOUND | Some d \<Rightarrow> fst (decode_bytes cap d))"
  unfolding get_bytes_def fst_got storage_get_bytes_def
  by (rule with_read_txn_runs) (simp add: txn_get_total [OF assms])

lemma set_cell_total:
  assumes "key_ok k" and "\<not> se_readonly env"
  shows "fst (set_int L env k i) = STORAGE_OK"
    and "fst (set_uint L env k u) = STORAGE_OK"
    and "fst (set_u64 L env k w) = STORAGE_OK"
    and "fst (set_bytes L env k b) = STORAGE_OK"
  unfolding set_int_def set_uint_def set_u64_def set_bytes_def fst_got storage_op_defs
  by (rule with_write_txn_runs [OF assms(2)], simp add: txn_set_int_impl_def txn_set_uint_impl_def
      txn_set_u64_impl_def txn_set_bytes_impl_def malloc_total txn_put_raw_total assms(1))+

lemma storage_delete_total:
  assumes "key_ok k" and "\<not> se_readonly env"
  shows "fst (storage_delete L (Some env) (Some k)) =
    (if env_map (se_env env) k = None then STORAGE_ERR_NOTFOUND else STORAGE_OK)"
  unfolding storage_delete_def
  by (rule with_write_txn_runs [OF assms(2)]) (use assms(1) del_total [of k] in
    \<open>force simp: txn_delete_impl_def validate_key_def key_ok_def Let_def split: prod.splits\<close>)

end

sublocale lmdb_reliable \<subseteq> int_total: cell_store_total "\<lambda>env. env_map (se_env env)"
    "get_int L" "set_int L" encode_int decode_int "\<lambda>_. True" key_ok "\<lambda>env. \<not> se_readonly env"
  by unfold_locales (simp_all add: get_int_total set_cell_total)

sublocale lmdb_reliable \<subseteq> uint_total: cell_store_total "\<lambda>env. env_map (se_env env)"
    "get_uint L" "set_uint L" encode_uint decode_uint "\<lambda>_. True" key_ok "\<lambda>env. \<not> se_readonly env"
  by unfold_locales (simp_all add: get_uint_total set_cell_total)

sublocale lmdb_reliable \<subseteq> u64_total: cell_store_total "\<lambda>env. env_map (se_env env)"
    "get_u64 L" "set_u64 L" encode_u64 decode_u64 "\<lambda>_. True" key_ok "\<lambda>env. \<not> se_readonly env"
  by unfold_locales (simp_all add: get_u64_total set_cell_total)

sublocale lmdb_reliable \<subseteq> bytes_total: cell_store_total "\<lambda>env. env_map (se_env env)"
    "get_bytes cap L" "set_bytes L" encode_bytes "decode_bytes cap" "\<lambda>v. length v \<le> cap" key_ok
    "\<lambda>env. \<not> se_readonly env"
  for cap
  by unfold_locales (simp_all add: get_bytes_total set_cell_total)

subsection \<open>Opening and closing\<close>

text \<open>How many environments a log leaves open.\<close>

definition balance :: "env_event list \<Rightarrow> int" where
  "balance ev = int (count_list ev Env_Created) - int (count_list ev Env_Closed)"

lemma balance_simps [simp]:
  "balance [] = 0" "balance (Env_Created # ev) = balance ev + 1" "balance (Env_Closed # ev) = balance ev - 1"
  "balance (ev @ ev') = balance ev + balance ev'"
  by (simp_all add: balance_def)

lemma balance_close [simp]: "balance (storage_env_close env) = (if env = None then 0 else - 1)"
  by (auto simp: storage_env_close_def split: option.splits)

lemma env_open_result:
  assumes "storage_env_open L (Some p) n flags (Some old) = (rc, out, ev)"
  shows "if rc = STORAGE_OK
    then \<exists>env. out = Some (Some env) \<and> balance ev = 1 \<and> se_readonly env = (flags AND 2 \<noteq> 0)
    else out = Some old \<and> balance ev = 0"
proof -
  let ?ro = "flags AND 2 \<noteq> 0"
  obtain r1 e1 where 1: "mdb_env_create L = (r1, e1)" by fastforce
  obtain r2 e2 where 2: "mdb_env_set_mapsize L e1 (if n \<noteq> 0 then n else STORAGE_DEFAULT_MAPSIZE) = (r2, e2)" by fastforce
  obtain r3 e3 where 3: "mdb_env_set_maxreaders L e2 126 = (r3, e3)" by fastforce
  obtain r4 e4 where 4: "mdb_env_open L e3 p (env_open_flags flags) = (r4, e4)" by fastforce
  obtain r5 t5 e5 where 5: "mdb_txn_begin L e4 ?ro = (r5, t5, e5)" using prod_cases3 by blast
  obtain r6 t6 where 6: "mdb_dbi_open L t5 (\<not> ?ro) = (r6, t6)" by fastforce
  obtain r7 e7 where 7: "(if ?ro then (MDB_SUCCESS, mdb_txn_abort L t6 e5) else mdb_txn_commit L t6 e5) = (r7, e7)"
    by fastforce
  show ?thesis
    using assms
    unfolding storage_env_open_def option.case prod.case Let_def 1 2 3 4 5 6 7
    by (simp split: if_split_asm) auto
qed

lemma env_open_flags_kept:
  "storage_env_open L (Some p) n flags (Some old) = (STORAGE_OK, Some (Some env), ev) \<Longrightarrow>
     se_flags env = flags"
  unfolding storage_env_open_def by (auto simp: Let_def split: prod.splits if_splits)

end
