(* ===== verification/Storage_Iter.thy ===== *)
theory Storage_Iter
  imports Storage_Contract
begin

text \<open>
  The prefix iterator of \<open>src/storage_lmdb.c\<close>: the keys it has still to return, that each call
  returns the least of them, and that a client that calls it until it stops gets every key under
  the prefix once, in ascending order.
\<close>

subsection \<open>The iterator\<close>

text \<open>The keys an iterator has still to return.\<close>

definition iter_rest ::
  "('c \<Rightarrow> store) \<Rightarrow> ('c \<Rightarrow> string option) \<Rightarrow> ('t, 'c) storage_iter \<Rightarrow> string set" where
  "iter_rest cmap cpos it =
     (if it_exhausted it then {}
      else {k \<in> dom (cmap (it_cursor it)). prefix (it_prefix it) k \<and>
              (it_started it \<longrightarrow> cursor_admits MDB_NEXT (cpos (it_cursor it)) k)})"

definition iter_wf :: "('c \<Rightarrow> string option) \<Rightarrow> ('t, 'c) storage_iter \<Rightarrow> bool" where
  "iter_wf cpos it \<longleftrightarrow>
     (it_started it \<and> \<not> it_exhausted it \<longrightarrow>
        (\<exists>q. cpos (it_cursor it) = Some q \<and> prefix (it_prefix it) q))"

lemma take_prefix_iff: "take (length p) k = p \<longleftrightarrow> prefix p k"
  by (auto simp: prefix_def) (metis append_take_drop_id)

lemma iter_fresh [simp]:
  "iter_rest cmap cpos \<lparr>it_txn = t, it_cursor = c, it_prefix = p, it_started = False,
     it_exhausted = False\<rparr> = {k \<in> dom (cmap c). prefix p k}"
  "iter_wf cpos \<lparr>it_txn = t, it_cursor = c, it_prefix = p, it_started = False,
     it_exhausted = False\<rparr>"
  by (auto simp: iter_rest_def iter_wf_def)

text \<open>The operation the iterator asks of its cursor.\<close>

definition iter_op :: "('t, 'c) storage_iter \<Rightarrow> cursor_op" where
  "iter_op it = (if \<not> it_started it
     then (if length (it_prefix it) > 0 then MDB_SET_RANGE (it_prefix it) else MDB_FIRST)
     else MDB_NEXT)"

lemma iter_rest_op: "\<not> it_exhausted it \<Longrightarrow>
  iter_rest cmap cpos it = {k \<in> dom (cmap (it_cursor it)). prefix (it_prefix it) k \<and>
    cursor_admits (iter_op it) (cpos (it_cursor it)) k}"
  by (auto simp: iter_rest_def iter_op_def string_le_prefix)

lemma cursor_admits_up: "cursor_admits op pos k \<Longrightarrow> k < j \<Longrightarrow> cursor_admits op pos j"
  by (induction op pos k rule: cursor_admits.induct) auto

lemma iter_op_above_prefix:
  "iter_wf cpos it \<Longrightarrow> \<not> it_exhausted it \<Longrightarrow>
     cursor_admits (iter_op it) (cpos (it_cursor it)) k \<Longrightarrow> it_prefix it \<le> k"
  by (auto simp: iter_wf_def iter_op_def dest: string_le_prefix split: if_splits)

context lmdb_laws
begin

abbreviation "rest \<equiv> iter_rest cur_map cur_pos"
abbreviation "wf_iter \<equiv> iter_wf cur_pos"

lemma finite_rest: "finite (dom (cur_map (it_cursor it))) \<Longrightarrow> finite (rest it)"
  by (auto simp: iter_rest_def)

lemma iter_opens:
  assumes "storage_iter_open L (Some env) (Some p) (Some old) = (rc, out, envp)"
  shows "\<exists>env'. envp = Some env' \<and> env_map (se_env env') = env_map (se_env env) \<and>
      se_flags env' = se_flags env \<and> se_readonly env' = se_readonly env \<and>
      (if rc = STORAGE_OK
       then live_txns (se_env env') = Suc (live_txns (se_env env)) \<and>
            live_cursors (se_env env') = Suc (live_cursors (se_env env)) \<and>
            (\<exists>it. out = Some (Some it) \<and> wf_iter it \<and> it_prefix it = p \<and>
              finite (rest it) \<and> rest it = {k \<in> dom (env_map (se_env env)). prefix p k})
       else same_handle live_txns live_cursors env env' \<and> out = Some old)"
proof (cases "length p > STORAGE_KEY_MAX \<or> \<not> malloc_ok L sizeof_storage_iter")
  case True
  with assms show ?thesis by (auto simp: storage_iter_open_def split: if_splits)
next
  case False
  obtain mrc t e where b: "mdb_txn_begin L (se_env env) True = (mrc, t, e)"
    by (cases "mdb_txn_begin L (se_env env) True")
  obtain crc c e1 where o: "mdb_cursor_open L t e = (crc, c, e1)"
    by (cases "mdb_cursor_open L t e")
  from assms False b o show ?thesis
    using begin_env [OF b] begin_view [of "se_env env" True t e] finite_env [of "se_env env"]
      cursor_open_env [OF o] cursor_open_view [of t e c e1]
    by (auto simp: storage_iter_open_def begin_read_txn_def abort_txn_def same_handle_def abort_env
        Let_def split: if_splits)
qed

text \<open>Each call returns the least key that is left, and the end only when none is.\<close>

lemma iter_next_hit:
  assumes "wf_iter it" and "storage_iter_next L (Some it) (Some b) = (STORAGE_OK, key, itp)"
  shows "\<exists>k it'. key = Some k \<and> itp = Some it' \<and> k \<in> rest it \<and> (\<forall>j \<in> rest it. k \<le> j) \<and>
    rest it' = rest it - {k} \<and> wf_iter it' \<and> it_prefix it' = it_prefix it"
proof -
  obtain mrc k v c where g: "mdb_cursor_get L (it_cursor it) (iter_op it) = (mrc, k, v, c)"
    by (cases "mdb_cursor_get L (it_cursor it) (iter_op it)")
  from assms(2) g have ex: "\<not> it_exhausted it" and mrc: "mrc = MDB_SUCCESS"
    and pre: "prefix (it_prefix it) k" and key: "key = Some k"
    and itp: "itp = Some (it\<lparr>it_started := True, it_cursor := c\<rparr>)"
    by (auto simp: storage_iter_next_def iter_op_def [symmetric] Let_def take_prefix_iff
        dest: prefix_length_le split: if_splits)
  note hit = cursor_hit [OF g [unfolded mrc]]
  have "rest (it\<lparr>it_started := True, it_cursor := c\<rparr>) =
      {j \<in> dom (cur_map (it_cursor it)). prefix (it_prefix it) j \<and> k < j}"
    using hit ex by (simp add: iter_rest_def)
  also have "\<dots> = rest it - {k}"
    unfolding iter_rest_op [OF ex] using hit
    by (auto simp: order_less_le intro: cursor_admits_up [of _ _ k])
  finally have "rest (it\<lparr>it_started := True, it_cursor := c\<rparr>) = rest it - {k}" .
  then show ?thesis
    using hit ex pre key itp
    by (intro exI [of _ k] exI [of _ "it\<lparr>it_started := True, it_cursor := c\<rparr>"])
      (auto simp: iter_rest_op [OF ex] iter_wf_def)
qed

lemma iter_next_end:
  assumes "wf_iter it" and "storage_iter_next L (Some it) (Some b) = (STORAGE_ERR_NOTFOUND, key, itp)"
  shows "rest it = {}"
proof (cases "it_exhausted it")
  case False
  obtain mrc k v c where g: "mdb_cursor_get L (it_cursor it) (iter_op it) = (mrc, k, v, c)"
    by (cases "mdb_cursor_get L (it_cursor it) (iter_op it)")
  from assms(2) g False consider "mrc = MDB_NOTFOUND"
    | "mrc = MDB_SUCCESS" "\<not> prefix (it_prefix it) k"
    by (auto simp: storage_iter_next_def iter_op_def [symmetric] Let_def take_prefix_iff not_less
        dest: prefix_length_le split: if_splits) (fastforce dest: prefix_length_le)
  then show ?thesis
  proof cases
    case 1
    with cursor_end g show ?thesis by (auto simp: iter_rest_op [OF False])
  next
    case 2
    note hit = cursor_hit [OF g [unfolded 2(1)]]
    have "prefix (it_prefix it) k" if "j \<in> rest it" for j
      using that hit iter_op_above_prefix [OF assms(1) False, of k]
      by (auto simp: iter_rest_op [OF False] intro: prefix_interval)
    with 2(2) show ?thesis by blast
  qed
qed (simp add: iter_rest_def)

lemma iter_next_some:
  "storage_iter_next L (Some it) (Some b) = (rc, key, itp) \<Longrightarrow> \<exists>it'. itp = Some it'"
  by (auto simp: storage_iter_next_def Let_def split: if_splits prod.splits)

end

subsection \<open>A client loop\<close>

text \<open>
  What a client gets that calls \<open>storage_iter_next\<close> until it returns something else than success,
  at most \<open>n\<close> times: the keys and the code that ended it.
\<close>

fun iter_keys :: "('e, 't, 'c) platform \<Rightarrow> nat \<Rightarrow> ('t, 'c) storage_iter option \<Rightarrow>
    (string list \<times> storage_rc) option" where
  "iter_keys L 0 itp = None"
| "iter_keys L (Suc n) itp =
     (case storage_iter_next L itp (Some '''') of (rc, key, itp) \<Rightarrow>
        if rc \<noteq> STORAGE_OK then Some ([], rc)
        else map_option (\<lambda>(ks, rc). (the key # ks, rc)) (iter_keys L n itp))"

context lmdb_reliable
begin

lemma iter_next_codes:
  assumes "storage_iter_next L (Some it) (Some b) = (rc, key, itp)"
  shows "rc \<in> {STORAGE_OK, STORAGE_ERR_NOTFOUND}"
  using assms cursor_get_total [of "it_cursor it" "iter_op it"]
  by (auto simp: storage_iter_next_def iter_op_def [symmetric] Let_def split: prod.splits if_splits)

lemma iter_keys_sorted:
  "wf_iter it \<Longrightarrow> finite (rest it) \<Longrightarrow> card (rest it) < n \<Longrightarrow>
     iter_keys L n (Some it) = Some (sorted_list_of_set (rest it), STORAGE_ERR_NOTFOUND)"
proof (induction n arbitrary: it)
  case (Suc n)
  obtain rc key itp where nxt: "storage_iter_next L (Some it) (Some '''') = (rc, key, itp)"
    by (cases "storage_iter_next L (Some it) (Some '''')")
  show ?case
  proof (cases "rc = STORAGE_OK")
    case True
    with iter_next_hit [OF Suc.prems(1)] nxt obtain k it' where
      k: "key = Some k" "itp = Some it'" "k \<in> rest it" "\<forall>j \<in> rest it. k \<le> j"
        "rest it' = rest it - {k}" "wf_iter it'" by blast
    have "sorted_list_of_set (rest it) = k # sorted_list_of_set (rest it - {k})"
    proof -
      from k(3,4) Suc.prems(2) have "Min (rest it) = k" by (intro Min_eqI) auto
      with k(3) Suc.prems(2) show ?thesis by (subst sorted_list_of_set_nonempty) auto
    qed
    moreover have "iter_keys L n (Some it') = Some (sorted_list_of_set (rest it'), STORAGE_ERR_NOTFOUND)"
      by (rule Suc.IH) (use k Suc.prems card_Suc_Diff1 [of "rest it" k] in auto)
    ultimately show ?thesis using True nxt k by simp
  next
    case False
    with iter_next_codes [OF nxt] iter_next_end [OF Suc.prems(1)] nxt show ?thesis by auto
  qed
qed simp

lemma iter_opens_total:
  assumes "length p \<le> STORAGE_KEY_MAX"
  shows "fst (storage_iter_open L (Some env) (Some p) (Some old)) = STORAGE_OK"
proof -
  obtain mrc t e where b: "mdb_txn_begin L (se_env env) True = (mrc, t, e)"
    by (cases "mdb_txn_begin L (se_env env) True")
  with begin_total [of "se_env env" True] cursor_open_total [of t e] malloc_total assms show ?thesis
    by (auto simp: storage_iter_open_def begin_read_txn_def Let_def split: prod.splits)
qed

lemma iter_lists_prefix:
  assumes "length p \<le> STORAGE_KEY_MAX"
    and "card {k \<in> dom (env_map (se_env env)). prefix p k} < n"
  shows "\<exists>it env1. storage_iter_open L (Some env) (Some p) (Some None) =
      (STORAGE_OK, Some (Some it), Some env1) \<and>
    iter_keys L n (Some it) =
      Some (sorted_list_of_set {k \<in> dom (env_map (se_env env)). prefix p k}, STORAGE_ERR_NOTFOUND)"
proof -
  obtain out envp where o: "storage_iter_open L (Some env) (Some p) (Some None) = (STORAGE_OK, out, envp)"
    using iter_opens_total [OF assms(1), of env None]
    by (cases "storage_iter_open L (Some env) (Some p) (Some None)") auto
  from iter_opens [OF o] obtain it env1 where it: "out = Some (Some it)" "envp = Some env1" "wf_iter it"
    "finite (rest it)" "rest it = {k \<in> dom (env_map (se_env env)). prefix p k}" by auto
  with iter_keys_sorted [of it n] assms(2) o show ?thesis by auto
qed

end

end
