(* ===== verification/Storage_Txn.thy ===== *)
theory Storage_Txn
  imports Storage_Iter
begin

text \<open>
  The explicit transactions and the OID values of \<open>src/storage_lmdb.c\<close>. A client that begins a
  transaction, runs a list of sets and deletes and commits gets all of them or none; aborting
  discards them. An OID is stored as its little endian sub-identifiers and read back as written.
\<close>

subsection \<open>Transactions of several operations\<close>

datatype txn_op =
    Set_Int string int32 | Set_Uint string uint32 | Set_U64 string uint64
  | Set_Bytes string bytes | Delete string

text \<open>One call of the transaction API, and what it means for the contents.\<close>

fun txn_call :: "('e, 't, 'c) platform \<Rightarrow> txn_op \<Rightarrow> 't storage_txn option \<Rightarrow>
    storage_rc \<times> 't storage_txn option" where
  "txn_call L (Set_Int k v) txn = storage_txn_set_int L txn (Some k) v"
| "txn_call L (Set_Uint k v) txn = storage_txn_set_uint L txn (Some k) v"
| "txn_call L (Set_U64 k v) txn = storage_txn_set_u64 L txn (Some k) v"
| "txn_call L (Set_Bytes k b) txn = storage_txn_set_bytes L txn (Some k) (Some b) (length b)"
| "txn_call L (Delete k) txn = storage_txn_delete L txn (Some k)"

fun op_effect :: "txn_op \<Rightarrow> store \<Rightarrow> store" where
  "op_effect (Set_Int k v) m = m(k \<mapsto> encode_int v)"
| "op_effect (Set_Uint k v) m = m(k \<mapsto> encode_uint v)"
| "op_effect (Set_U64 k v) m = m(k \<mapsto> encode_u64 v)"
| "op_effect (Set_Bytes k b) m = m(k \<mapsto> encode_bytes b)"
| "op_effect (Delete k) m = m(k := None)"

text \<open>The same call as an operation of its own, in a transaction of one.\<close>

fun env_call :: "('e, 't, 'c) platform \<Rightarrow> txn_op \<Rightarrow> 'e storage_env option \<Rightarrow>
    storage_rc \<times> 'e storage_env option" where
  "env_call L (Set_Int k v) env = storage_set_int L env (Some k) v"
| "env_call L (Set_Uint k v) env = storage_set_uint L env (Some k) v"
| "env_call L (Set_U64 k v) env = storage_set_u64 L env (Some k) v"
| "env_call L (Set_Bytes k b) env = storage_set_bytes L env (Some k) (Some b) (length b)"
| "env_call L (Delete k) env = storage_delete L env (Some k)"

fun txn_calls :: "('e, 't, 'c) platform \<Rightarrow> txn_op list \<Rightarrow> 't storage_txn option \<Rightarrow>
    storage_rc \<times> 't storage_txn option" where
  "txn_calls L [] txn = (STORAGE_OK, txn)"
| "txn_calls L (p # ps) txn =
     (case txn_call L p txn of (rc, txn) \<Rightarrow>
        if rc \<noteq> STORAGE_OK then (rc, txn) else txn_calls L ps txn)"

text \<open>The client: begin, run the calls, commit if all went well and abort otherwise.\<close>

definition run_txn :: "('e, 't, 'c) platform \<Rightarrow> txn_op list \<Rightarrow> 'e storage_env \<Rightarrow>
    storage_rc \<times> 'e storage_env option" where
  "run_txn L ps env =
     (case storage_txn_begin L (Some env) False (Some None) of (rc, out, envp) \<Rightarrow>
        if rc \<noteq> STORAGE_OK then (rc, envp)
        else (case txn_calls L ps (the out) of (rc, txn) \<Rightarrow>
          if rc \<noteq> STORAGE_OK then (rc, map_option (storage_txn_abort L txn) envp)
          else (case storage_txn_commit L txn (the envp) of (rc, env) \<Rightarrow> (rc, Some env))))"

definition txn_open :: "('t \<Rightarrow> bool) \<Rightarrow> 't storage_txn \<Rightarrow> bool" where
  "txn_open ro txn \<longleftrightarrow> \<not> stx_readonly txn \<and> \<not> ro (stx_txn txn)"

lemmas txn_call_defs = storage_txn_set_int_def storage_txn_set_uint_def storage_txn_set_u64_def
  storage_txn_set_bytes_def storage_txn_delete_def txn_set_int_impl_def txn_set_uint_impl_def
  txn_set_u64_impl_def txn_set_bytes_impl_def txn_writer_def

context lmdb_laws
begin

lemma txn_delete_removes:
  assumes "txn_delete_impl L t (Some k) = (STORAGE_OK, t')"
  shows "txn_map t' = (txn_map t)(k := None) \<and> txn_ro t' = txn_ro t"
  using assms del_removes
  by (auto simp: txn_delete_impl_def validate_key_def Let_def split: prod.splits if_splits)

lemma txn_call_effect:
  assumes "txn_call L p (Some txn) = (rc, txnp)" and "txn_open txn_ro txn"
  shows "\<exists>txn'. txnp = Some txn' \<and> (rc = STORAGE_OK \<longrightarrow> txn_open txn_ro txn' \<and>
    txn_map (stx_txn txn') = op_effect p (txn_map (stx_txn txn)))"
  using assms
  by (cases p)
    (auto simp: txn_call_defs txn_open_def encode_int_def encode_uint_def encode_u64_def encode_bytes_def
      dest!: txn_put_raw_stores txn_delete_removes split: prod.splits if_splits)

lemma txn_calls_effect:
  "txn_calls L ps (Some txn) = (rc, txnp) \<Longrightarrow> txn_open txn_ro txn \<Longrightarrow>
     \<exists>txn'. txnp = Some txn' \<and> (rc = STORAGE_OK \<longrightarrow> txn_open txn_ro txn' \<and>
       txn_map (stx_txn txn') = fold op_effect ps (txn_map (stx_txn txn)))"
proof (induction ps arbitrary: txn)
  case (Cons p ps)
  obtain rc1 txnp1 where c: "txn_call L p (Some txn) = (rc1, txnp1)" by fastforce
  from txn_call_effect [OF c Cons.prems(2)] obtain txn1 where
    t: "txnp1 = Some txn1" "rc1 = STORAGE_OK \<Longrightarrow> txn_open txn_ro txn1"
      "rc1 = STORAGE_OK \<Longrightarrow> txn_map (stx_txn txn1) = op_effect p (txn_map (stx_txn txn))" by auto
  show ?case
    using Cons.prems(1) Cons.IH [of txn1] c t by (cases "rc1 = STORAGE_OK") auto
qed auto

lemma env_call_atomic:
  assumes "env_call L p (Some env) = (rc, envp)"
  shows "\<exists>env'. envp = Some env' \<and> same_handle live_txns live_cursors env env' \<and>
    env_map (se_env env') =
      (if rc = STORAGE_OK then op_effect p (env_map (se_env env)) else env_map (se_env env))"
  using assms storage_set_int_writes storage_set_uint_writes storage_set_u64_writes
    storage_set_bytes_writes [where len = "length b" and buf = b for b] storage_delete_removes
  by (cases p) fastforce+

lemma txn_begins:
  assumes "storage_txn_begin L (Some env) False (Some None) = (rc, out, envp)"
  shows "\<exists>env1. envp = Some env1 \<and> env_map (se_env env1) = env_map (se_env env) \<and>
    (if rc = STORAGE_OK
     then \<exists>txn. out = Some (Some txn) \<and> txn_open txn_ro txn \<and>
       txn_map (stx_txn txn) = env_map (se_env env) \<and> se_flags env1 = se_flags env \<and>
       se_readonly env1 = se_readonly env \<and> live_cursors (se_env env1) = live_cursors (se_env env) \<and>
       live_txns (se_env env1) = Suc (live_txns (se_env env))
     else out = Some None \<and> same_handle live_txns live_cursors env env1)"
  using assms begin_env [of "se_env env" False] begin_view [of "se_env env" False]
  by (auto simp: storage_txn_begin_def Let_def abort_txn_def same_handle_def abort_env txn_open_def
      split: prod.splits if_splits)

lemma run_txn_atomic:
  assumes "run_txn L ps env = (rc, envp)"
  shows "\<exists>env'. envp = Some env' \<and> same_handle live_txns live_cursors env env' \<and>
    env_map (se_env env') =
      (if rc = STORAGE_OK then fold op_effect ps (env_map (se_env env)) else env_map (se_env env))"
proof -
  obtain rc1 out envp1 where b: "storage_txn_begin L (Some env) False (Some None) = (rc1, out, envp1)"
    by (cases "storage_txn_begin L (Some env) False (Some None)")
  note r = assms [unfolded run_txn_def b prod.case]
  show ?thesis
  proof (cases "rc1 = STORAGE_OK")
    case False
    with r txn_begins [OF b] show ?thesis by auto
  next
    case True
    with txn_begins [OF b] obtain env1 txn where
      e1: "envp1 = Some env1" "env_map (se_env env1) = env_map (se_env env)" and
      t: "out = Some (Some txn)" "txn_open txn_ro txn" "txn_map (stx_txn txn) = env_map (se_env env)" and
      h: "se_flags env1 = se_flags env" "se_readonly env1 = se_readonly env"
        "live_cursors (se_env env1) = live_cursors (se_env env)"
        "live_txns (se_env env1) = Suc (live_txns (se_env env))" by auto
    obtain rc2 txnp where c: "txn_calls L ps (Some txn) = (rc2, txnp)" by fastforce
    from txn_calls_effect [OF c t(2)] obtain txn' where
      t': "txnp = Some txn'" "rc2 = STORAGE_OK \<Longrightarrow> txn_open txn_ro txn'"
        "rc2 = STORAGE_OK \<Longrightarrow> txn_map (stx_txn txn') = fold op_effect ps (env_map (se_env env))"
      using t(3) by auto
    obtain crc e2 where m: "mdb_txn_commit L (stx_txn txn') (se_env env1) = (crc, e2)" by fastforce
    from r True e1 t c t' m commit_env [OF m] show ?thesis
      by (auto simp: storage_txn_abort_def storage_txn_commit_def commit_write_txn_def abort_txn_def
          same_handle_def abort_env h txn_open_def split: if_splits)
  qed
qed

end

subsection \<open>OID values\<close>

lemma get_subids_put:
  "get_subids (concat (map put_u32le xs) @ rest) (length xs) = xs"
  by (induction xs) (simp_all add: append_assoc)

lemma length_concat_put [simp]: "length (concat (map put_u32le xs)) = 4 * length xs"
  by (induction xs) simp_all

context lmdb_reliable
begin

lemma oid_round_trip:
  assumes "key_ok k" and "\<not> se_readonly env" and "length s \<le> length buf"
  shows "\<exists>env1 env2. storage_set_oid L (Some env) (Some k) (Some s) (length s) = (STORAGE_OK, Some env1) \<and>
    storage_get_oid L (Some env1) (Some k) (Some buf) (Some (length buf)) =
      (STORAGE_OK, (Some (s @ drop (length s) buf), Some (length s)), Some env2)"
proof -
  let ?d = "encode_header STORAGE_TYPE_OID @ concat (map put_u32le s)"
  have read: "txn_get_oid_impl L t (Some k) (Some buf) (Some (length buf)) =
      (STORAGE_OK, Some (s @ drop (length s) buf), Some (length s))" if "txn_map t k = Some ?d" for t
    using txn_get_raw_total(2) [OF assms(1) that] assms(3) get_subids_put [of s "[]"]
    by (simp add: txn_get_oid_impl_def memcpy_def Let_def)
  show ?thesis unfolding storage_set_oid_def storage_get_oid_def
    by (rule put_get_result [OF assms(1,2) _ read]) (simp_all add: txn_set_oid_impl_def malloc_total)
qed

end

subsection \<open>What a read says about the stored value\<close>

text \<open>The answer of a read, from the stored value and the caller's variables alone.\<close>

definition int_answer :: "bytes option \<Rightarrow> int32 \<Rightarrow> storage_rc \<times> int32 option" where
  "int_answer cell old =
     (case cell of
        None \<Rightarrow> (STORAGE_ERR_NOTFOUND, Some old)
      | Some d \<Rightarrow>
          if length d < 4 then (STORAGE_ERR_INVAL, Some old)
          else if d ! 0 \<noteq> storage_type_code STORAGE_TYPE_INT32 then (STORAGE_ERR_TYPE, Some old)
          else if length d < 8 then (STORAGE_ERR_INVAL, Some old)
          else (STORAGE_OK, Some (get_u32le (drop 4 d))))"

definition bytes_answer :: "bytes option \<Rightarrow> bytes \<Rightarrow> nat \<Rightarrow> storage_rc \<times> bytes option \<times> nat option" where
  "bytes_answer cell buf n =
     (case cell of
        None \<Rightarrow> (STORAGE_ERR_NOTFOUND, Some buf, Some n)
      | Some d \<Rightarrow>
          if length d < 4 then (STORAGE_ERR_INVAL, Some buf, Some n)
          else if d ! 0 \<noteq> storage_type_code STORAGE_TYPE_BYTES then (STORAGE_ERR_TYPE, Some buf, Some n)
          else if length d - 4 > n then (STORAGE_ERR_TOOBIG, Some buf, Some (length d - 4))
          else (STORAGE_OK, Some (drop 4 d @ drop (length d - 4) buf), Some (length d - 4)))"

context lmdb_reliable
begin

lemma txn_get_exact:
  assumes "key_ok k"
  shows "txn_get_int_impl L t (Some k) (Some old) = int_answer (txn_map t k) old"
    and "txn_get_bytes_impl L t (Some k) (Some buf) (Some n) = bytes_answer (txn_map t k) buf n"
  using txn_get_raw_total [OF assms, of t]
  by (cases "txn_get_raw L t (Some k)";
      auto simp: txn_get_int_impl_def txn_get_bytes_impl_def int_answer_def bytes_answer_def
        decode_header_def memcpy_def Let_def split: option.splits)+

lemma get_exact:
  assumes "key_ok k"
  shows "\<exists>env'. storage_get_int L (Some env) (Some k) (Some old) =
      (case int_answer (env_map (se_env env) k) old of (rc, out) \<Rightarrow> (rc, out, Some env'))"
    and "\<exists>env'. storage_get_bytes L (Some env) (Some k) (Some buf) (Some n) =
      (case bytes_answer (env_map (se_env env) k) buf n of (rc, out) \<Rightarrow> (rc, out, Some env'))"
  unfolding storage_op_defs case_prod_beta
  by (rule with_read_txn_result, simp add: txn_get_exact [OF assms])+

end

text \<open>A key that is empty or longer than 255 bytes is refused before LMDB is asked.\<close>

definition key_error :: "string \<Rightarrow> storage_rc" where
  "key_error k = (if k = [] then STORAGE_ERR_INVAL else STORAGE_ERR_TOOBIG)"

lemma key_error_not_OK [simp]: "key_error k \<noteq> STORAGE_OK"
  by (simp add: key_error_def)

lemma txn_bad_key:
  assumes "\<not> key_ok k"
  shows "txn_get_raw L t (Some k) = (key_error k, [])"
    and "txn_put_raw L t (Some k) d = (key_error k, t)"
    and "txn_delete_impl L t (Some k) = (key_error k, t)"
  using assms
  by (auto simp: txn_get_raw_def txn_put_raw_def txn_delete_impl_def validate_key_def key_ok_def
      key_error_def Let_def)

fun op_key :: "txn_op \<Rightarrow> string" where
  "op_key (Set_Int k v) = k" | "op_key (Set_Uint k v) = k" | "op_key (Set_U64 k v) = k"
| "op_key (Set_Bytes k b) = k" | "op_key (Delete k) = k"

context lmdb_reliable
begin

lemma env_call_bad_key:
  assumes "\<not> key_ok (op_key p)" and "\<not> se_readonly env"
  shows "fst (env_call L p (Some env)) = key_error (op_key p)"
  using assms(1)
  by (cases p) (simp_all add: storage_op_defs txn_set_int_impl_def txn_set_uint_impl_def
      txn_set_u64_impl_def txn_set_bytes_impl_def malloc_total txn_bad_key
      with_write_txn_runs [OF assms(2)])

lemma get_bad_key:
  assumes "\<not> key_ok k"
  shows "fst (storage_get_int L (Some env) (Some k) (Some i)) = key_error k"
    and "fst (storage_get_bytes L (Some env) (Some k) (Some b) (Some n)) = key_error k"
    and "fst (storage_exists L (Some env) (Some k)) = key_error k"
  unfolding storage_op_defs
  by (rule with_read_txn_runs, simp add: txn_bad_key [OF assms] txn_get_int_impl_def
      txn_get_bytes_impl_def txn_exists_impl_def)+

end

end
