(* ===== verification/Storage_Properties.thy ===== *)
theory Storage_Properties
  imports Storage_Txn
begin

text \<open>
  The properties of the storage layer (\<open>src/storage_lmdb.c\<close>), stated on the code's own
  operations. The laws of the platform are hypotheses; the witnesses instantiate them with the
  in-memory platform of \<open>Lmdb_Memory\<close>.
\<close>

definition demo_store :: "bool \<Rightarrow> (string \<times> bytes) list \<Rightarrow> mem_env storage_env" where
  "demo_store ro data = \<lparr>se_env = \<lparr>me_data = data, me_txns = 0, me_cursors = 0\<rparr>, se_flags = 0,
     se_readonly = ro\<rparr>"

lemma demo_store_simps [simp]:
  "me_data (se_env (demo_store ro d)) = d" "se_readonly (demo_store ro d) = ro"
  by (simp_all add: demo_store_def)

text \<open>
  C1. A value that was stored is read back: on a writable environment and while the platform has
  resources, setting an int32, a uint32, a uint64 or a byte string under a key of 1 to 255 bytes
  succeeds and the matching getter then succeeds and returns that very value, whatever was stored
  there before; the byte string getter reports its length and leaves the rest of the caller's
  buffer alone.
\<close>

theorem storage_set_get:
  assumes "lmdb_reliable L env_map live_txns live_cursors txn_map txn_ro cur_map cur_pos"
    and "key_ok k" and "\<not> se_readonly env" and "length b \<le> length buf"
  shows "(\<exists>e1 e2. storage_set_int L (Some env) (Some k) i = (STORAGE_OK, Some e1) \<and>
      storage_get_int L (Some e1) (Some k) (Some i0) = (STORAGE_OK, Some i, Some e2)) \<and>
    (\<exists>e1 e2. storage_set_uint L (Some env) (Some k) u = (STORAGE_OK, Some e1) \<and>
      storage_get_uint L (Some e1) (Some k) (Some u0) = (STORAGE_OK, Some u, Some e2)) \<and>
    (\<exists>e1 e2. storage_set_u64 L (Some env) (Some k) w = (STORAGE_OK, Some e1) \<and>
      storage_get_u64 L (Some e1) (Some k) (Some w0) = (STORAGE_OK, Some w, Some e2)) \<and>
    (\<exists>e1 e2. storage_set_bytes L (Some env) (Some k) (Some b) (length b) = (STORAGE_OK, Some e1) \<and>
      storage_get_bytes L (Some e1) (Some k) (Some buf) (Some (length buf)) =
        (STORAGE_OK, (Some (b @ drop (length b) buf), Some (length b)), Some e2))"
  using lmdb_reliable.set_get_result [OF assms(1-3)] assms(4) by blast

theorem storage_set_get_witness:
  "\<exists>e1 e2. storage_set_int (memdb no_limits) (Some (demo_store False [])) (Some ''cpu'') 71000 =
      (STORAGE_OK, Some e1) \<and>
    storage_get_int (memdb no_limits) (Some e1) (Some ''cpu'') (Some 0) = (STORAGE_OK, Some 71000, Some e2)"
proof -
  have "key_ok ''cpu''" "\<not> se_readonly (demo_store False [])" "length [] \<le> length []"
    by (simp_all add: key_ok_def)
  from storage_set_get [OF mem_free.lmdb_reliable_axioms this, of 71000 0] show ?thesis by blast
qed



text \<open>
  C16. A transaction of several operations is all or nothing: a client that begins a transaction,
  runs any list of sets and deletes, commits when all succeed and aborts at the first failure
  leaves the environment with the effect of the whole list if it got success, and untouched if
  anything failed; no transaction stays open.
\<close>

theorem storage_txn_all_or_nothing:
  assumes "lmdb_laws L env_map live_txns live_cursors txn_map txn_ro cur_map cur_pos"
    and "run_txn L ps env = (rc, envp)"
  shows "\<exists>env'. envp = Some env' \<and> same_handle live_txns live_cursors env env' \<and>
    env_map (se_env env') =
      (if rc = STORAGE_OK then fold op_effect ps (env_map (se_env env)) else env_map (se_env env))"
  using lmdb_laws.run_txn_atomic [OF assms] .

theorem storage_txn_all_or_nothing_witness:
  "\<exists>rc envp env'. run_txn (memdb no_limits) [Set_Int ''a'' 1, Delete ''zz'', Set_Int ''b'' 2]
      (demo_store False []) = (rc, envp) \<and> envp = Some env' \<and> mem_map (se_env env') =
    (if rc = STORAGE_OK then [''a'' \<mapsto> encode_int 1, ''b'' \<mapsto> encode_int 2] else Map.empty)"
proof -
  obtain rc envp where r: "run_txn (memdb no_limits) [Set_Int ''a'' 1, Delete ''zz'', Set_Int ''b'' 2]
      (demo_store False []) = (rc, envp)" by fastforce
  from storage_txn_all_or_nothing [OF mem.lmdb_laws_axioms this] r show ?thesis by (auto simp: fun_upd_idem)
qed

text \<open>
  C27. The prefix iterator enumerates exactly its prefix: while the platform has resources, opening
  succeeds and calling \<open>storage_iter_next\<close> until it stops returns every key that starts with the
  prefix, once each and in ascending byte order, and ends with \<open>STORAGE_ERR_NOTFOUND\<close>.
\<close>

theorem storage_iter_enumerates:
  assumes "lmdb_reliable L env_map live_txns live_cursors txn_map txn_ro cur_map cur_pos"
    and "length p \<le> 255" and "card {k \<in> dom (env_map (se_env env)). prefix p k} < n"
  shows "\<exists>it env1. storage_iter_open L (Some env) (Some p) (Some None) =
      (STORAGE_OK, Some (Some it), Some env1) \<and>
    iter_keys L n (Some it) =
      Some (sorted_list_of_set {k \<in> dom (env_map (se_env env)). prefix p k}, STORAGE_ERR_NOTFOUND)"
  using lmdb_reliable.iter_lists_prefix [OF assms] .

theorem storage_iter_enumerates_witness:
  "\<exists>it env1. storage_iter_open (memdb no_limits)
      (Some (demo_store False [(''b.2'', []), (''c'', []), (''b.10'', []), (''a'', [])])) (Some ''b.'') (Some None) =
      (STORAGE_OK, Some (Some it), Some env1) \<and>
    iter_keys (memdb no_limits) 3 (Some it) = Some ([''b.10'', ''b.2''], STORAGE_ERR_NOTFOUND)"
proof -
  let ?env = "demo_store False [(''b.2'', []), (''c'', []), (''b.10'', []), (''a'', [])]"
  have keys: "{k \<in> dom (mem_map (se_env ?env)). prefix ''b.'' k} = {''b.10'', ''b.2''}"
    by (auto simp: dom_def split: if_splits)
  have sorted: "sorted_list_of_set {''b.10'', ''b.2''} = [''b.10'', ''b.2'']" by code_simp
  have "length ''b.'' \<le> 255" "card {k \<in> dom (mem_map (se_env ?env)). prefix ''b.'' k} < 3"
    unfolding keys by simp_all
  from storage_iter_enumerates [OF mem_free.lmdb_reliable_axioms this]
  show ?thesis unfolding keys sorted .
qed



text \<open>
  Keys are checked before LMDB is asked: an empty key gets \<open>STORAGE_ERR_INVAL\<close> and a key of more
  than 255 bytes \<open>STORAGE_ERR_TOOBIG\<close> from every setter, from the delete, from the readers and from
  the existence test.
\<close>

lemma storage_rejects_bad_keys:
  assumes "lmdb_reliable L env_map live_txns live_cursors txn_map txn_ro cur_map cur_pos"
    and "op_key p = [] \<or> length (op_key p) > 255" and "\<not> se_readonly env"
  shows "{fst (env_call L p (Some env)), fst (storage_get_int L (Some env) (Some (op_key p)) (Some i)),
      fst (storage_get_bytes L (Some env) (Some (op_key p)) (Some b) (Some n)),
      fst (storage_exists L (Some env) (Some (op_key p)))} =
    {if op_key p = [] then STORAGE_ERR_INVAL else STORAGE_ERR_TOOBIG}"
proof -
  have "\<not> key_ok (op_key p)" using assms(2) by (auto simp: key_ok_def)
  with lmdb_reliable.env_call_bad_key [OF assms(1) this assms(3)] lmdb_reliable.get_bad_key [OF assms(1) this]
  show ?thesis by (simp add: key_error_def)
qed

text \<open>
  A read-only environment is never written, whatever the platform does: every setter, the delete
  and the begin of a write transaction return \<open>STORAGE_ERR_READONLY\<close> and leave the environment as it
  is without a call to LMDB, a sync does nothing, and a read-only transaction refuses every write.
\<close>

lemma storage_readonly_refuses:
  assumes "se_readonly env" and "stx_readonly txn"
  shows "env_call L p (Some env) = (STORAGE_ERR_READONLY, Some env) \<and>
    storage_set_oid L (Some env) key subids count = (STORAGE_ERR_READONLY, Some env) \<and>
    storage_txn_begin L (Some env) False (Some out) = (STORAGE_ERR_READONLY, Some out, Some env) \<and>
    storage_env_sync L (Some env) force = (STORAGE_OK, Some env) \<and>
    txn_call L p (Some txn) = (STORAGE_ERR_READONLY, Some txn)"
  using assms
  by (cases p) (simp_all add: storage_op_defs storage_set_oid_def with_write_txn_def begin_write_txn_def
      storage_txn_begin_def storage_env_sync_def txn_call_defs)

text \<open>
  Opening an environment leaks nothing: whichever of its ten steps fails, every LMDB environment
  that was created has been closed again and the caller's pointer is untouched; on success exactly
  one is left open, and it is read-only exactly if \<open>STORAGE_ENV_READONLY\<close> was asked for.
\<close>

lemma storage_env_open_clean:
  "case storage_env_open L (Some path) mapsize flags (Some old) of (rc, out, ev) \<Rightarrow>
     (if rc = STORAGE_OK
      then \<exists>env. out = Some (Some env) \<and> balance ev = 1 \<and> se_readonly env = (flags AND 2 \<noteq> 0) \<and>
        se_flags env = flags
      else out = Some old \<and> balance ev = 0)"
  using env_open_result [of L path mapsize flags old] env_open_flags_kept [of L path mapsize flags old]
  by (fastforce split: prod.splits)

text \<open>
  The encodings on disk are the little endian bytes of the number, and reading them gives the
  number back, for every 32 and 64 bit value and whatever follows.
\<close>

lemma little_endian_codecs:
  "get_u32le (put_u32le v @ rest) = v \<and> get_u64le (put_u64le w @ rest) = w \<and>
   le_value (put_u32le v) = unat v \<and> le_value (put_u64le w) = unat w"
  by simp

text \<open>
  An object identifier is stored and read back unchanged: the getter reports its length, fills
  the front of the caller's array and leaves the rest alone.
\<close>

lemma storage_oid_round_trip:
  assumes "lmdb_reliable L env_map live_txns live_cursors txn_map txn_ro cur_map cur_pos"
    and "key_ok k" and "\<not> se_readonly env" and "length s \<le> length buf"
  shows "\<exists>env1 env2. storage_set_oid L (Some env) (Some k) (Some s) (length s) = (STORAGE_OK, Some env1) \<and>
    storage_get_oid L (Some env1) (Some k) (Some buf) (Some (length buf)) =
      (STORAGE_OK, (Some (s @ drop (length s) buf), Some (length s)), Some env2)"
  using lmdb_reliable.oid_round_trip [OF assms] .

end
