(* ===== verification/Table_Rows.thy ===== *)
theory Table_Rows
  imports Storage_Iter
begin

text \<open>
  \<open>src/table_rows.c\<close>: cell keys and row discovery. An instance is a fixed array of 128
  sub-identifiers of which the first \<open>len\<close> count; \<open>inst_oid\<close> reads those off. The process
  holds two environments; a column reference names one of them, so that columns sharing an
  environment see the same handle.
\<close>

abbreviation (input) TABLE_ROW_SUBID_MAX :: nat where "TABLE_ROW_SUBID_MAX \<equiv> 128"

record table_instance =
  ti_subid :: "uint32 list"
  ti_len :: nat

datatype env_id = Config_Env | Cache_Env

type_synonym 'e envs = "env_id \<Rightarrow> 'e storage_env option"

record table_column_ref =
  tc_env :: env_id
  tc_column :: "string option"

text \<open>\<open>count\<close> is the length of \<open>rs_rows\<close>; \<open>rs_capacity\<close> is the size of the allocation.\<close>

record table_rowset =
  rs_rows :: "table_instance list"
  rs_capacity :: nat
  rs_skipped :: nat

definition sizeof_table_instance :: nat where "sizeof_table_instance = 520"
definition sizeof_table_rowset :: nat where "sizeof_table_rowset = 32"

definition inst_oid :: "table_instance \<Rightarrow> uint32 list" where
  "inst_oid i = take (ti_len i) (ti_subid i)"

definition inst_wf :: "table_instance \<Rightarrow> bool" where
  "inst_wf i \<longleftrightarrow> length (ti_subid i) = TABLE_ROW_SUBID_MAX \<and> ti_len i \<le> TABLE_ROW_SUBID_MAX"

subsection \<open>Instance to key\<close>

text \<open>The C library's \<open>%lu\<close>.\<close>

definition digit_char :: "nat \<Rightarrow> char" where
  "digit_char d = char_of (48 + d)"

fun dec_string :: "nat \<Rightarrow> string" where
  "dec_string n =
     (if n < 10 then [digit_char n] else dec_string (n div 10) @ [digit_char (n mod 10)])"

declare dec_string.simps [simp del]

text \<open>
  The loop over the sub-identifiers. \<open>written\<close> is the string in the buffer so far; \<open>snprintf\<close>
  returns the length it wanted to write and truncates to what fits before the NUL.
\<close>

fun table_instance_format_loop :: "uint32 list \<Rightarrow> string \<Rightarrow> nat \<Rightarrow> bool \<Rightarrow> storage_rc \<times> string" where
  "table_instance_format_loop [] written buflen first = (STORAGE_OK, written)"
| "table_instance_format_loop (x # xs) written buflen first =
     (let text = (if first then '''' else ''.'') @ dec_string (unat x);
          n = length text; room = buflen - length written in
      if n \<ge> room then (STORAGE_ERR_TOOBIG, written @ take (room - 1) text)
      else table_instance_format_loop xs (written @ text) buflen False)"

definition table_instance_format ::
  "table_instance option \<Rightarrow> string option \<Rightarrow> nat \<Rightarrow> storage_rc \<times> string option" where
  "table_instance_format inst buf buflen =
     (case (inst, buf) of
        (Some i, Some _) \<Rightarrow>
          if buflen = 0 then (STORAGE_ERR_INVAL, buf)
          else if ti_len i = 0 \<or> ti_len i > TABLE_ROW_SUBID_MAX then (STORAGE_ERR_INVAL, buf)
          else (case table_instance_format_loop (inst_oid i) '''' buflen True of
                  (rc, s) \<Rightarrow> (rc, Some s))
      | _ \<Rightarrow> (STORAGE_ERR_INVAL, buf))"

subsection \<open>Key to instance\<close>

definition is_digit :: "char \<Rightarrow> bool" where
  "is_digit c \<longleftrightarrow> 48 \<le> (of_char c :: nat) \<and> (of_char c :: nat) \<le> 57"

text \<open>The inner loop: the value after the digits and what follows them, \<open>None\<close> on overflow.\<close>

fun parse_digits :: "string \<Rightarrow> uint64 \<Rightarrow> (uint64 \<times> string) option" where
  "parse_digits [] value = Some (value, [])"
| "parse_digits (c # cs) value =
     (if is_digit c then
        (let value = value * 10 + of_nat (of_char c - 48) in
         if value > 0xFFFFFFFF then None else parse_digits cs value)
      else Some (value, c # cs))"

lemma parse_digits_length:
  "parse_digits cs v = Some (w, rest) \<Longrightarrow> length rest \<le> length cs"
  by (induction cs v rule: parse_digits.induct)
    (auto simp: Let_def split: if_splits)

text \<open>The outer loop: \<open>cs\<close> is the input from \<open>pos\<close> on, \<open>acc\<close> the sub-identifiers so far.\<close>

function parse_components :: "string \<Rightarrow> uint32 list \<Rightarrow> uint32 list option" where
  "parse_components cs acc =
     (if cs = [] then Some acc
      else if length acc = TABLE_ROW_SUBID_MAX then None
      else case parse_digits cs 0 of
        None \<Rightarrow> None
      | Some (value, rest) \<Rightarrow>
          let digits = length cs - length rest in
          if digits = 0 then None
          else if digits > 1 \<and> hd cs = CHR ''0'' then None
          else let acc = acc @ [ucast value] in
            (case rest of
               [] \<Rightarrow> Some acc
             | c # rest \<Rightarrow>
                 if c \<noteq> CHR ''.'' then None
                 else if rest = [] then None
                 else parse_components rest acc))"
  by pat_completeness auto
termination
  by (relation "measure (\<lambda>(cs, acc). length cs)") (auto dest: parse_digits_length)

declare parse_components.simps [simp del]

text \<open>\<open>dotted\<close> and \<open>len\<close> are one argument, the \<open>len\<close> bytes; the unused tail is zeroed.\<close>

definition table_instance_parse ::
  "string option \<Rightarrow> table_instance option \<Rightarrow> storage_rc \<times> table_instance option" where
  "table_instance_parse dotted out =
     (case (dotted, out) of
        (Some cs, Some _) \<Rightarrow>
          if cs = [] then (STORAGE_ERR_INVAL, out)
          else (case parse_components cs [] of
              None \<Rightarrow> (STORAGE_ERR_INVAL, out)
            | Some acc \<Rightarrow>
                (STORAGE_OK,
                 Some \<lparr>ti_subid = acc @ replicate (TABLE_ROW_SUBID_MAX - length acc) 0,
                       ti_len = length acc\<rparr>))
      | _ \<Rightarrow> (STORAGE_ERR_INVAL, out))"

definition table_cell_key ::
  "string option \<Rightarrow> table_instance option \<Rightarrow> string option \<Rightarrow> nat \<Rightarrow> storage_rc \<times> string option" where
  "table_cell_key column inst buf buflen =
     (case (column, buf) of
        (Some col, Some _) \<Rightarrow>
          if length col = 0 then (STORAGE_ERR_INVAL, buf)
          else if length col + 2 > buflen then (STORAGE_ERR_TOOBIG, buf)
          else (case table_instance_format inst (Some '''') (buflen - length col - 1) of (rc, s) \<Rightarrow>
            let buf = col @ ''.'' @ the s in
            if rc \<noteq> STORAGE_OK then (rc, Some buf)
            else if length buf > STORAGE_KEY_MAX then (STORAGE_ERR_TOOBIG, Some buf)
            else (STORAGE_OK, Some buf))
      | _ \<Rightarrow> (STORAGE_ERR_INVAL, buf))"

subsection \<open>The order of instances\<close>

fun compare_shared :: "uint32 list \<Rightarrow> uint32 list \<Rightarrow> int option" where
  "compare_shared (x # xs) (y # ys) =
     (if x \<noteq> y then Some (if x < y then - 1 else 1) else compare_shared xs ys)"
| "compare_shared _ _ = None"

definition table_instance_compare :: "table_instance \<Rightarrow> table_instance \<Rightarrow> int" where
  "table_instance_compare a b =
     (let shared = min (ti_len a) (ti_len b) in
      case compare_shared (take shared (ti_subid a)) (take shared (ti_subid b)) of
        Some r \<Rightarrow> r
      | None \<Rightarrow> if ti_len a = ti_len b then 0 else if ti_len a < ti_len b then - 1 else 1)"

text \<open>The C library's \<open>qsort\<close> with a comparison function, as insertion into a sorted list.\<close>

fun insort_cmp :: "('a \<Rightarrow> 'a \<Rightarrow> int) \<Rightarrow> 'a \<Rightarrow> 'a list \<Rightarrow> 'a list" where
  "insort_cmp cmp x [] = [x]"
| "insort_cmp cmp x (y # ys) = (if cmp x y \<le> 0 then x # y # ys else y # insort_cmp cmp x ys)"

fun qsort :: "('a \<Rightarrow> 'a \<Rightarrow> int) \<Rightarrow> 'a list \<Rightarrow> 'a list" where
  "qsort cmp [] = []"
| "qsort cmp (x # xs) = insort_cmp cmp x (qsort cmp xs)"

subsection \<open>Rowsets\<close>

definition rowset_push ::
  "('e, 't, 'c) platform \<Rightarrow> table_rowset \<Rightarrow> table_instance \<Rightarrow> storage_rc \<times> table_rowset" where
  "rowset_push L rs inst =
     (if length (rs_rows rs) = rs_capacity rs then
        (let next = (if rs_capacity rs = 0 then 16 else rs_capacity rs * 2) in
         if \<not> malloc_ok L (next * sizeof_table_instance) then (STORAGE_ERR_IO, rs)
         else (STORAGE_OK, rs\<lparr>rs_rows := rs_rows rs @ [inst], rs_capacity := next\<rparr>))
      else (STORAGE_OK, rs\<lparr>rs_rows := rs_rows rs @ [inst]\<rparr>))"

text \<open>The scan loop of \<open>rowset_load_column\<close>. It may in principle not end: \<open>None\<close>.\<close>

partial_function (option) rowset_scan ::
  "('e, 't, 'c) platform \<Rightarrow> nat \<Rightarrow> table_rowset \<Rightarrow> ('t, 'c) storage_iter option \<Rightarrow>
   (storage_rc \<times> table_rowset \<times> ('t, 'c) storage_iter option) option" where
  "rowset_scan L prefix_len rs it =
     (case storage_iter_next L it (Some '''') of (rc, key, it) \<Rightarrow>
        if rc = STORAGE_ERR_NOTFOUND then Some (STORAGE_OK, rs, it)
        else if rc \<noteq> STORAGE_OK then Some (rc, rs, it)
        else (case table_instance_parse (Some (drop prefix_len (the key)))
                     (Some \<lparr>ti_subid = [], ti_len = 0\<rparr>) of (prc, inst) \<Rightarrow>
          if prc \<noteq> STORAGE_OK
          then rowset_scan L prefix_len (rs\<lparr>rs_skipped := Suc (rs_skipped rs)\<rparr>) it
          else (case rowset_push L rs (the inst) of (rc, rs) \<Rightarrow>
            if rc \<noteq> STORAGE_OK then Some (rc, rs, it)
            else rowset_scan L prefix_len rs it)))"

definition rowset_load_column ::
  "('e, 't, 'c) platform \<Rightarrow> 'e envs \<Rightarrow> table_rowset \<Rightarrow> table_column_ref \<Rightarrow>
   (storage_rc \<times> table_rowset \<times> 'e envs) option" where
  "rowset_load_column L envs rs col =
     (case (envs (tc_env col), tc_column col) of
        (Some env, Some column) \<Rightarrow>
          if column = '''' then Some (STORAGE_ERR_INVAL, rs, envs)
          else let pre = column @ ''.'' in
            if length pre \<ge> STORAGE_KEY_MAX + 2 then Some (STORAGE_ERR_TOOBIG, rs, envs)
            else (case storage_iter_open L (Some env) (Some pre) (Some None) of (rc, it, envp) \<Rightarrow>
              let envs = envs(tc_env col := envp) in
              if rc \<noteq> STORAGE_OK then Some (rc, rs, envs)
              else (case rowset_scan L (length pre) rs (the it) of
                  None \<Rightarrow> None
                | Some (rc, rs, it) \<Rightarrow>
                    Some (rc, rs, envs(tc_env col :=
                      map_option (storage_iter_close L it) (envs (tc_env col))))))
      | _ \<Rightarrow> Some (STORAGE_ERR_INVAL, rs, envs))"

fun rowset_load_columns ::
  "('e, 't, 'c) platform \<Rightarrow> 'e envs \<Rightarrow> table_rowset \<Rightarrow> table_column_ref list \<Rightarrow>
   (storage_rc \<times> table_rowset \<times> 'e envs) option" where
  "rowset_load_columns L envs rs [] = Some (STORAGE_OK, rs, envs)"
| "rowset_load_columns L envs rs (c # cs) =
     (case rowset_load_column L envs rs c of
        None \<Rightarrow> None
      | Some (rc, rs, envs) \<Rightarrow>
          if rc \<noteq> STORAGE_OK then Some (rc, rs, envs) else rowset_load_columns L envs rs cs)"

text \<open>The in-place de-duplication pass over a sorted array: \<open>i\<close> reads, \<open>unique\<close> writes.\<close>

function dedup_loop :: "table_instance list \<Rightarrow> nat \<Rightarrow> nat \<Rightarrow> table_instance list \<times> nat" where
  "dedup_loop rows i unique =
     (if i < length rows then
        (if table_instance_compare (rows ! i) (rows ! (unique - 1)) \<noteq> 0
         then dedup_loop (rows[unique := rows ! i]) (Suc i) (Suc unique)
         else dedup_loop rows (Suc i) unique)
      else (rows, unique))"
  by pat_completeness auto
termination
  by (relation "measure (\<lambda>(rows, i, unique). length rows - i)") auto

declare dedup_loop.simps [simp del]

definition table_rowset_load ::
  "('e, 't, 'c) platform \<Rightarrow> 'e envs \<Rightarrow> table_column_ref list option \<Rightarrow> table_rowset option option \<Rightarrow>
   (storage_rc \<times> table_rowset option option \<times> 'e envs) option" where
  "table_rowset_load L envs columns out =
     (case (columns, out) of
        (Some cols, Some _) \<Rightarrow>
          if cols = [] then Some (STORAGE_ERR_INVAL, out, envs)
          else if \<not> malloc_ok L sizeof_table_rowset then Some (STORAGE_ERR_IO, out, envs)
          else (case rowset_load_columns L envs
                       \<lparr>rs_rows = [], rs_capacity = 0, rs_skipped = 0\<rparr> cols of
              None \<Rightarrow> None
            | Some (rc, rs, envs) \<Rightarrow>
                if rc \<noteq> STORAGE_OK then Some (rc, out, envs)
                else if length (rs_rows rs) > 1 then
                  (case dedup_loop (qsort table_instance_compare (rs_rows rs)) 1 1 of
                     (rows, unique) \<Rightarrow>
                       Some (STORAGE_OK, Some (Some (rs\<lparr>rs_rows := take unique rows\<rparr>)), envs))
                else Some (STORAGE_OK, Some (Some rs), envs))
      | _ \<Rightarrow> Some (STORAGE_ERR_INVAL, out, envs))"

definition table_rowset_count :: "table_rowset option \<Rightarrow> nat" where
  "table_rowset_count rs = (case rs of None \<Rightarrow> 0 | Some r \<Rightarrow> length (rs_rows r))"

definition table_rowset_at :: "table_rowset option \<Rightarrow> nat \<Rightarrow> table_instance option" where
  "table_rowset_at rs index =
     (case rs of None \<Rightarrow> None
      | Some r \<Rightarrow> if index \<ge> length (rs_rows r) then None else Some (rs_rows r ! index))"

definition table_rowset_skipped :: "table_rowset option \<Rightarrow> nat" where
  "table_rowset_skipped rs = (case rs of None \<Rightarrow> 0 | Some r \<Rightarrow> rs_skipped r)"

end
