(* ===== verification/Table_Instance_Codec.thy ===== *)
theory Table_Instance_Codec
  imports Table_Rows
begin

text \<open>
  The dotted decimal codec of \<open>table_rows.c\<close> is a bijection between the instances of one to
  128 sub-identifiers and the canonical strings: both loops are compared with \<open>dotted\<close>, the
  textbook rendering of a list of sub-identifiers.
\<close>

subsection \<open>Decimal numerals\<close>

definition digit_val :: "char \<Rightarrow> nat" where
  "digit_val c = of_char c - 48"

definition dec_val :: "string \<Rightarrow> nat" where
  "dec_val s = foldl (\<lambda>v c. v * 10 + digit_val c) 0 s"

text \<open>A canonical numeral: digits, not empty, no leading zero.\<close>

definition canonical :: "string \<Rightarrow> bool" where
  "canonical s \<longleftrightarrow> s \<noteq> [] \<and> (\<forall>c \<in> set s. is_digit c) \<and> (length s > 1 \<longrightarrow> hd s \<noteq> CHR ''0'')"

lemma digit_char [simp]:
  assumes "d < 10"
  shows "is_digit (digit_char d)" "digit_val (digit_char d) = d"
  using assms by (simp_all add: is_digit_def digit_char_def digit_val_def)

lemma digit_char_val [simp]: "is_digit c \<Longrightarrow> digit_char (digit_val c) = c"
  by (simp add: is_digit_def digit_char_def digit_val_def)

lemma digit_val_lt: "is_digit c \<Longrightarrow> digit_val c < 10"
  by (auto simp: is_digit_def digit_val_def)

lemma digit_val_zero: "is_digit c \<Longrightarrow> digit_val c = 0 \<longleftrightarrow> c = CHR ''0''"
proof
  assume "is_digit c" and "digit_val c = 0"
  then have "(of_char c :: nat) = of_char (CHR ''0'')" by (auto simp: is_digit_def digit_val_def)
  then show "c = CHR ''0''" by (simp only: of_char_eq_iff)
qed (simp add: digit_val_def)

lemma dec_val_Nil [simp]: "dec_val [] = 0"
  by (simp add: dec_val_def)

lemma dec_val_snoc [simp]: "dec_val (s @ [c]) = dec_val s * 10 + digit_val c"
  by (simp add: dec_val_def)

lemma dec_string_nonempty [simp]: "dec_string n \<noteq> []"
  by (subst dec_string.simps) simp

lemma dec_string_digits: "c \<in> set (dec_string n) \<Longrightarrow> is_digit c"
proof (induction n rule: dec_string.induct)
  case (1 n)
  then show ?case by (subst (asm) (2) dec_string.simps) (auto split: if_splits)
qed

lemma dec_val_dec_string [simp]: "dec_val (dec_string n) = n"
proof (induction n rule: dec_string.induct)
  case (1 n)
  show ?case
  proof (cases "n < 10")
    case True
    then show ?thesis using dec_val_snoc [of "[]"] by (subst dec_string.simps) simp
  next
    case False
    with "1" show ?thesis by (subst dec_string.simps) simp
  qed
qed

lemma hd_dec_string: "0 < n \<Longrightarrow> hd (dec_string n) \<noteq> CHR ''0''"
proof (induction n rule: dec_string.induct)
  case (1 n)
  show ?case
  proof (cases "n < 10")
    case True
    with "1.prems" digit_val_zero [of "digit_char n"] show ?thesis
      by (subst dec_string.simps) simp
  next
    case False
    with "1.IH" show ?thesis by (subst dec_string.simps) simp
  qed
qed

lemma canonical_dec_string: "canonical (dec_string n)"
proof -
  have "hd (dec_string n) \<noteq> CHR ''0''" if "length (dec_string n) > 1"
  proof (rule hd_dec_string)
    show "0 < n" using that by (subst (asm) dec_string.simps) (auto split: if_splits)
  qed
  then show ?thesis by (auto simp: canonical_def dec_string_digits)
qed

lemma dec_val_pos:
  "\<forall>c \<in> set s. is_digit c \<Longrightarrow> s \<noteq> [] \<Longrightarrow> hd s \<noteq> CHR ''0'' \<Longrightarrow> 0 < dec_val s"
proof (induction s rule: rev_induct)
  case (snoc c s)
  then show ?case
    using digit_val_zero [of c] by (cases "s = []") (auto simp: dec_val_def)
qed simp

text \<open>The canonical numerals are exactly the output of \<open>%lu\<close>.\<close>

lemma dec_string_dec_val: "canonical s \<Longrightarrow> dec_string (dec_val s) = s"
proof (induction s rule: rev_induct)
  case Nil
  then show ?case by (simp add: canonical_def)
next
  case (snoc c s)
  have c: "is_digit c" using snoc.prems by (simp add: canonical_def)
  show ?case
  proof (cases "s = []")
    case True
    with c digit_val_lt show ?thesis
      using dec_val_snoc [of "[]" c] by (subst dec_string.simps) simp
  next
    case False
    with snoc.prems have s: "canonical s" and "hd s \<noteq> CHR ''0''"
      by (auto simp: canonical_def)
    then have "0 < dec_val s" using False by (intro dec_val_pos) (auto simp: canonical_def)
    with c s snoc.IH digit_val_lt [OF c] show ?thesis by (subst dec_string.simps) simp
  qed
qed

subsection \<open>The digit loop\<close>

lemma parse_step_value:
  assumes "v \<le> (0xFFFFFFFF :: uint64)" and "d < 10"
  shows "unat (v * 10 + of_nat d) = unat v * 10 + d"
proof -
  have "unat v \<le> 0xFFFFFFFF" using assms(1) by (simp add: word_le_nat_alt)
  with assms(2) show ?thesis
    by (simp add: unat_word_ariths unat_of_nat take_bit_nat_eq_self)
qed

definition dec_fold :: "nat \<Rightarrow> string \<Rightarrow> nat" where
  "dec_fold v s = foldl (\<lambda>v c. v * 10 + digit_val c) v s"

lemma dec_fold_ge: "v \<le> dec_fold v s"
proof (induction s arbitrary: v)
  case (Cons c s)
  have "v \<le> v * 10 + digit_val c" by simp
  also have "\<dots> \<le> dec_fold (v * 10 + digit_val c) s" by (rule Cons.IH)
  finally show ?case by (simp add: dec_fold_def)
qed (simp add: dec_fold_def)

text \<open>
  The loop reads the maximal run of digits and fails exactly when their value exceeds 32 bits;
  the 64 bit accumulator never wraps before the check sees it.
\<close>

lemma parse_digits_spec:
  "v \<le> 0xFFFFFFFF \<Longrightarrow> parse_digits cs v =
     (let n = dec_fold (unat v) (takeWhile is_digit cs) in
      if n \<le> 0xFFFFFFFF then Some (of_nat n, dropWhile is_digit cs) else None)"
proof (induction cs arbitrary: v)
  case Nil
  then show ?case by (simp add: dec_fold_def word_le_nat_alt)
next
  case (Cons c cs)
  show ?case
  proof (cases "is_digit c")
    case True
    let ?w = "v * 10 + of_nat (digit_val c) :: uint64"
    have w: "unat ?w = unat v * 10 + digit_val c"
      using Cons.prems digit_val_lt [OF True] by (rule parse_step_value)
    show ?thesis
    proof (cases "?w \<le> 0xFFFFFFFF")
      case le: True
      have "parse_digits (c # cs) v = parse_digits cs ?w"
        using True le by (simp add: digit_val_def Let_def not_less [symmetric])
      then show ?thesis
        using Cons.IH [OF le] True by (simp add: dec_fold_def w Let_def)
    next
      case gt: False
      have "0xFFFFFFFF < unat ?w" using gt by (simp add: word_le_nat_alt)
      then have "0xFFFFFFFF < dec_fold (unat ?w) (takeWhile is_digit cs)"
        using dec_fold_ge [of "unat ?w" "takeWhile is_digit cs"] by linarith
      moreover have "parse_digits (c # cs) v = None"
        using True gt by (simp add: digit_val_def Let_def not_le)
      ultimately show ?thesis using True by (simp add: dec_fold_def w Let_def)
    qed
  next
    case False
    with Cons.prems show ?thesis by (simp add: dec_fold_def word_le_nat_alt)
  qed
qed

corollary parse_digits_0:
  "parse_digits cs 0 =
     (let ds = takeWhile is_digit cs in
      if dec_val ds \<le> 0xFFFFFFFF then Some (of_nat (dec_val ds), dropWhile is_digit cs) else None)"
  using parse_digits_spec [of 0 cs] by (simp add: dec_val_def dec_fold_def Let_def)

subsection \<open>Dotted lists\<close>

fun dotted :: "uint32 list \<Rightarrow> string" where
  "dotted [] = ''''"
| "dotted [x] = dec_string (unat x)"
| "dotted (x # xs) = dec_string (unat x) @ ''.'' @ dotted xs"

lemma dot_not_digit [simp]: "\<not> is_digit (CHR ''.'')"
  by (simp add: is_digit_def)

lemma dotted_nonempty [simp]: "dotted xs = [] \<longleftrightarrow> xs = []"
  by (cases xs rule: dotted.cases) simp_all

lemma takeWhile_dec_string: "rest = [] \<or> \<not> is_digit (hd rest) \<Longrightarrow>
   takeWhile is_digit (dec_string n @ rest) = dec_string n \<and>
   dropWhile is_digit (dec_string n @ rest) = rest"
  using dec_string_digits [of _ n]
  by (cases rest) (auto simp: takeWhile_append dropWhile_append)

lemma ucast_ucast_32_64 [simp]: "ucast (ucast (x :: uint32) :: uint64) = x"
  by (rule bit_word_eqI) (simp add: bit_simps)

lemma unat_32_max: "unat (x :: uint32) \<le> 0xFFFFFFFF"
  using unsigned_less [of x] by (simp add: less_Suc_eq_le [symmetric])

lemma parse_component:
  assumes "length acc < 128" and "rest = [] \<or> (\<exists>r. rest = CHR ''.'' # r \<and> r \<noteq> [])"
  shows "parse_components (dec_string (unat x) @ rest) acc =
    (if rest = [] then Some (acc @ [x]) else parse_components (tl rest) (acc @ [x]))"
proof -
  let ?cs = "dec_string (unat x) @ rest"
  have "rest = [] \<or> \<not> is_digit (hd rest)" using assms(2) by auto
  then have p: "parse_digits ?cs 0 = Some (of_nat (unat x), rest)"
    using takeWhile_dec_string [of rest "unat x"] unat_32_max [of x]
    by (simp add: parse_digits_0 Let_def)
  have c: "canonical (dec_string (unat x))" by (rule canonical_dec_string)
  then have "\<not> (length (dec_string (unat x)) > 1 \<and> hd ?cs = CHR ''0'')"
    by (auto simp: canonical_def hd_append)
  with assms p show ?thesis
    by (subst parse_components.simps) (auto split: list.splits)
qed

text \<open>Parsing what the rendering produced gives the list back.\<close>

lemma parse_dotted: "xs \<noteq> [] \<Longrightarrow> length acc + length xs \<le> 128 \<Longrightarrow>
   parse_components (dotted xs) acc = Some (acc @ xs)"
proof (induction xs arbitrary: acc rule: dotted.induct)
  case (3 x y xs)
  then show ?case
    using parse_component [of acc "CHR ''.'' # dotted (y # xs)" x] by simp
qed (use parse_component [of _ "[]"] in simp_all)

text \<open>And nothing but a rendering parses.\<close>

lemma parse_digits_canonical:
  assumes "parse_digits cs 0 = Some (v, rest)" and "cs \<noteq> []"
    and "length cs - length rest \<noteq> 0"
    and "\<not> (length cs - length rest > 1 \<and> hd cs = CHR ''0'')"
  shows "cs = dec_string (unat (ucast v :: uint32)) @ rest"
proof -
  let ?ds = "takeWhile is_digit cs"
  from assms(1) have rest: "rest = dropWhile is_digit cs" and v: "v = of_nat (dec_val ?ds)"
    and le: "dec_val ?ds \<le> 0xFFFFFFFF"
    by (auto simp: parse_digits_0 Let_def split: if_splits)
  have split: "cs = ?ds @ rest" using rest by simp
  then have len: "length cs - length rest = length ?ds"
    by (metis add_diff_cancel_right' length_append)
  then have ds: "?ds \<noteq> []" using assms(3) by auto
  then have "hd ?ds = hd cs" by (metis split hd_append2)
  then have "canonical ?ds"
    using assms(4) len ds by (auto simp: canonical_def dest: set_takeWhileD)
  moreover have "unat (ucast v :: uint32) = dec_val ?ds"
    using le v by (simp add: unsigned_ucast_eq unat_of_nat take_bit_nat_eq_self)
  ultimately show ?thesis using split by (metis dec_string_dec_val)
qed

lemma parse_components_dotted:
  "parse_components cs acc = Some r \<Longrightarrow> cs \<noteq> [] \<Longrightarrow> length acc \<le> 128 \<Longrightarrow>
   \<exists>xs. xs \<noteq> [] \<and> r = acc @ xs \<and> cs = dotted xs \<and> length r \<le> 128"
proof (induction cs acc arbitrary: r rule: parse_components.induct)
  case (1 cs acc)
  from "1.prems" have acc: "length acc < 128"
    by (subst (asm) parse_components.simps) (auto split: if_splits)
  from "1.prems" acc obtain v rest where p: "parse_digits cs 0 = Some (v, rest)"
    by (subst (asm) parse_components.simps) (auto split: option.splits)
  from "1.prems" acc p have g: "length cs - length rest \<noteq> 0"
    "\<not> (length cs - length rest > 1 \<and> hd cs = CHR ''0'')"
    by (subst (asm) parse_components.simps, auto split: if_splits)+
  have cs: "cs = dec_string (unat (ucast v :: uint32)) @ rest"
    using parse_digits_canonical [OF p "1.prems"(2) g] .
  show ?case
  proof (cases rest)
    case Nil
    with "1.prems" acc p g have "r = acc @ [ucast v]"
      by (subst (asm) parse_components.simps) (auto split: if_splits)
    with cs Nil acc show ?thesis by (intro exI [of _ "[ucast v]"]) simp
  next
    case (Cons c rs)
    with "1.prems" acc p g have c: "c = CHR ''.''" "rs \<noteq> []"
      and r: "parse_components rs (acc @ [ucast v]) = Some r"
      by (subst (asm) parse_components.simps; auto split: if_splits)+
    have "\<exists>xs. xs \<noteq> [] \<and> r = (acc @ [ucast v]) @ xs \<and> rs = dotted xs \<and> length r \<le> 128"
      by (rule "1.IH" [OF "1.prems"(2) _ p refl refl g refl Cons _ c(2) r c(2)])
        (use acc c in simp_all)
    then obtain xs where xs: "xs \<noteq> []" "r = (acc @ [ucast v]) @ xs" "rs = dotted xs" "length r \<le> 128"
      by blast
    then have "dotted (ucast v # xs) = dec_string (unat (ucast v :: uint32)) @ ''.'' @ rs"
      by (cases xs) auto
    with xs cs Cons c show ?thesis by (intro exI [of _ "ucast v # xs"]) simp
  qed
qed

text \<open>The instance a list of sub-identifiers stands for, the unused tail of the array zeroed.\<close>

definition inst_of :: "uint32 list \<Rightarrow> table_instance" where
  "inst_of xs = \<lparr>ti_subid = xs @ replicate (TABLE_ROW_SUBID_MAX - length xs) 0, ti_len = length xs\<rparr>"

lemma inst_oid_of [simp]: "inst_oid (inst_of xs) = xs"
  by (simp add: inst_oid_def inst_of_def)

lemma ti_len_of [simp]: "ti_len (inst_of xs) = length xs"
  by (simp add: inst_of_def)

lemma inst_wf_of [simp]: "inst_wf (inst_of xs) \<longleftrightarrow> length xs \<le> 128"
  by (auto simp: inst_wf_def inst_of_def)

lemma inst_of_inject [simp]: "inst_of xs = inst_of ys \<longleftrightarrow> xs = ys"
  by (metis inst_oid_of)

lemma parse_iff:
  "table_instance_parse (Some s) (Some old) = (STORAGE_OK, Some i) \<longleftrightarrow>
     (\<exists>xs. xs \<noteq> [] \<and> length xs \<le> 128 \<and> s = dotted xs \<and> i = inst_of xs)"
proof
  assume "table_instance_parse (Some s) (Some old) = (STORAGE_OK, Some i)"
  then obtain acc where "parse_components s [] = Some acc" "s \<noteq> []" "i = inst_of acc"
    by (auto simp: table_instance_parse_def inst_of_def split: if_splits option.splits)
  with parse_components_dotted [of s "[]" acc]
  show "\<exists>xs. xs \<noteq> [] \<and> length xs \<le> 128 \<and> s = dotted xs \<and> i = inst_of xs" by auto
next
  assume "\<exists>xs. xs \<noteq> [] \<and> length xs \<le> 128 \<and> s = dotted xs \<and> i = inst_of xs"
  then show "table_instance_parse (Some s) (Some old) = (STORAGE_OK, Some i)"
    using parse_dotted [of _ "[]"]
    by (auto simp: table_instance_parse_def inst_of_def)
qed

lemma parse_error:
  "table_instance_parse (Some s) (Some old) = (rc, out) \<Longrightarrow> rc \<noteq> STORAGE_OK \<Longrightarrow>
     rc = STORAGE_ERR_INVAL \<and> out = Some old"
  by (auto simp: table_instance_parse_def split: if_splits option.splits)

lemma parse_dotted_inst [simp]:
  "xs \<noteq> [] \<Longrightarrow> length xs \<le> 128 \<Longrightarrow>
     table_instance_parse (Some (dotted xs)) (Some old) = (STORAGE_OK, Some (inst_of xs))"
  by (subst parse_iff) blast

lemma dotted_inject:
  assumes "dotted xs = dotted ys" and "length xs \<le> 128" "length ys \<le> 128"
  shows "xs = ys"
proof (cases "xs = [] \<or> ys = []")
  case True
  with assms(1) show ?thesis by (metis dotted_nonempty)
next
  case False
  with assms parse_dotted_inst [of xs undefined] parse_dotted_inst [of ys undefined]
  show ?thesis by simp
qed

subsection \<open>Rendering\<close>

definition dot_tail :: "uint32 list \<Rightarrow> string" where
  "dot_tail xs = concat (map (\<lambda>x. ''.'' @ dec_string (unat x)) xs)"

lemma dotted_Cons: "dotted (x # xs) = dec_string (unat x) @ dot_tail xs"
proof (induction xs arbitrary: x)
  case (Cons y ys)
  then show ?case by (simp add: dot_tail_def)
qed (simp add: dot_tail_def)

text \<open>
  The loop writes the whole rendering when it fits with its NUL; otherwise it reports
  \<open>TOOBIG\<close> and leaves the longest prefix that fits.
\<close>

lemma format_loop_tail:
  "length written < buflen \<Longrightarrow> table_instance_format_loop xs written buflen False =
     (if length (written @ dot_tail xs) < buflen then (STORAGE_OK, written @ dot_tail xs)
      else (STORAGE_ERR_TOOBIG, take (buflen - 1) (written @ dot_tail xs)))"
proof (induction xs arbitrary: written)
  case (Cons x xs)
  let ?t = "''.'' @ dec_string (unat x)"
  have tail: "dot_tail (x # xs) = ?t @ dot_tail xs" by (simp add: dot_tail_def)
  show ?case
  proof (cases "length (written @ ?t) < buflen")
    case True
    with Cons.IH [OF True] show ?thesis by (auto simp: tail Let_def)
  next
    case False
    moreover have "take n (?t @ zs) = take n ?t" if "n \<le> length ?t" for n zs
      using that by (simp only: take_append) simp
    ultimately show ?thesis using Cons.prems by (auto simp: tail Let_def)
  qed
qed (simp add: dot_tail_def)

lemma format_loop_first:
  assumes "0 < buflen" and "xs \<noteq> []"
  shows "table_instance_format_loop xs '''' buflen True =
    (if length (dotted xs) < buflen then (STORAGE_OK, dotted xs)
     else (STORAGE_ERR_TOOBIG, take (buflen - 1) (dotted xs)))"
proof (cases xs)
  case (Cons x ys)
  show ?thesis
  proof (cases "length (dec_string (unat x)) < buflen")
    case True
    with format_loop_tail [OF True, of ys] Cons show ?thesis
      by (simp add: dotted_Cons Let_def)
  next
    case False
    with Cons show ?thesis by (auto simp: dotted_Cons Let_def)
  qed
qed (use assms in simp)

lemma format_spec:
  assumes "0 < buflen" and "inst_wf i" and "0 < ti_len i"
  shows "table_instance_format (Some i) (Some old) buflen =
    (if length (dotted (inst_oid i)) < buflen then (STORAGE_OK, Some (dotted (inst_oid i)))
     else (STORAGE_ERR_TOOBIG, Some (take (buflen - 1) (dotted (inst_oid i)))))"
proof -
  have "inst_oid i \<noteq> []" using assms(2,3) by (auto simp: inst_oid_def inst_wf_def)
  with assms format_loop_first [of buflen "inst_oid i"] show ?thesis
    by (auto simp: table_instance_format_def inst_wf_def)
qed

end
