(* ===== verification/Table_Order.thy ===== *)
theory Table_Order
  imports Table_Instance_Codec
begin

text \<open>
  The order of rows: \<open>table_instance_compare\<close> is the OID order, sorting with it and dropping
  equal neighbours in place gives the set of instances in strictly ascending order, and the
  key of a cell determines its column and its row.
\<close>

subsection \<open>Sorting with a comparison function\<close>

text \<open>
  What \<open>qsort\<close> asks of its comparison function, for the elements it is called on: the sign
  is that of the order of a key.
\<close>

locale comparator =
  fixes cmp :: "'a \<Rightarrow> 'a \<Rightarrow> int"
    and ok :: "'a \<Rightarrow> bool"
    and key :: "'a \<Rightarrow> 'k :: linorder"
  assumes cmp_le: "ok a \<Longrightarrow> ok b \<Longrightarrow> cmp a b \<le> 0 \<longleftrightarrow> key a \<le> key b"
    and cmp_eq: "ok a \<Longrightarrow> ok b \<Longrightarrow> cmp a b = 0 \<longleftrightarrow> key a = key b"
begin

lemma insort_cmp_key:
  "ok x \<Longrightarrow> \<forall>y \<in> set ys. ok y \<Longrightarrow> insort_cmp cmp x ys = insort_key key x ys"
  by (induction ys) (auto simp: cmp_le)

lemma qsort_key: "\<forall>x \<in> set xs. ok x \<Longrightarrow> qsort cmp xs = sort_key key xs"
proof (induction xs)
  case (Cons x xs)
  have "\<forall>y \<in> set (sort_key key xs). ok y" using Cons.prems by simp
  with Cons show ?case by (simp add: insort_cmp_key)
qed simp

lemma qsort_sorted: "\<forall>x \<in> set xs. ok x \<Longrightarrow> sorted (map key (qsort cmp xs))"
  by (simp add: qsort_key)

lemma qsort_mset: "\<forall>x \<in> set xs. ok x \<Longrightarrow> set (qsort cmp xs) = set xs"
  by (simp add: qsort_key)

end

text \<open>The body of \<open>table_instance_compare\<close> on the lists of sub-identifiers alone.\<close>

definition oid_compare :: "uint32 list \<Rightarrow> uint32 list \<Rightarrow> int" where
  "oid_compare xs ys =
     (let shared = min (length xs) (length ys) in
      case compare_shared (take shared xs) (take shared ys) of
        Some r \<Rightarrow> r
      | None \<Rightarrow> if length xs = length ys then 0 else if length xs < length ys then - 1 else 1)"

lemma oid_compare_simps [simp]:
  "oid_compare [] [] = 0"
  "oid_compare [] (y # ys) = - 1"
  "oid_compare (x # xs) [] = 1"
  "oid_compare (x # xs) (y # ys) = (if x = y then oid_compare xs ys else if x < y then - 1 else 1)"
  by (simp_all add: oid_compare_def Let_def)

lemma oid_compare_sign:
  "(oid_compare xs ys \<le> 0 \<longleftrightarrow> xs \<le> ys) \<and> (oid_compare xs ys = 0 \<longleftrightarrow> xs = ys)"
proof (induction xs arbitrary: ys)
  case Nil
  show ?case by (cases ys) simp_all
next
  case (Cons x xs)
  then show ?case by (cases ys) auto
qed

lemma oid_compare_values: "oid_compare xs ys \<in> {- 1, 0, 1}"
  by (induction xs ys rule: list_induct2') auto

lemma table_instance_compare_oid:
  assumes "inst_wf a" "inst_wf b"
  shows "table_instance_compare a b = oid_compare (inst_oid a) (inst_oid b)"
proof -
  have "length (inst_oid a) = ti_len a" "length (inst_oid b) = ti_len b"
    using assms by (auto simp: inst_wf_def inst_oid_def)
  then show ?thesis
    by (simp add: table_instance_compare_def oid_compare_def) (simp add: inst_oid_def Let_def)
qed

interpretation oid_order: comparator table_instance_compare inst_wf inst_oid
  by unfold_locales (simp_all add: table_instance_compare_oid oid_compare_sign)

subsection \<open>De-duplication\<close>

text \<open>The in-place pass is \<open>remdups_adj\<close> on a list where comparing equal means being equal.\<close>

lemma dedup_loop_remdups:
  assumes "1 \<le> u" and "u \<le> i" and "i \<le> length rows"
    and "\<And>a b. a \<in> set rows \<Longrightarrow> b \<in> set rows \<Longrightarrow> table_instance_compare a b = 0 \<longleftrightarrow> a = b"
    and "dedup_loop rows i u = (rows', u')"
  shows "take u' rows' = take (u - 1) rows @ remdups_adj (rows ! (u - 1) # drop i rows)"
  using assms
proof (induction rows i u arbitrary: rows' u' rule: dedup_loop.induct)
  case (1 rows i u)
  have front: "take u rows = take (u - 1) rows @ [rows ! (u - 1)]"
    using "1.prems"(1-3) take_drop_snoc [of "u - 1" rows] by (cases u) auto
  show ?case
  proof (cases "i < length rows")
    case False
    then have "dedup_loop rows i u = (rows, u)" by (subst dedup_loop.simps) simp
    with False "1.prems"(3,5) front show ?thesis by simp
  next
    case True
    let ?x = "rows ! i" and ?y = "rows ! (u - 1)"
    have d: "drop i rows = ?x # drop (Suc i) rows" using True by (simp add: Cons_nth_drop_Suc)
    have mem: "?x \<in> set rows" "?y \<in> set rows" using True "1.prems"(1-3) by auto
    show ?thesis
    proof (cases "?x = ?y")
      case eq: True
      have "table_instance_compare ?x ?y = 0" using "1.prems"(4) mem eq by blast
      with "1.IH"(2) "1.prems" True d eq show ?thesis
        by (simp add: dedup_loop.simps [of rows i])
    next
      case neq: False
      let ?rows = "rows[u := ?x]"
      have cmp: "table_instance_compare ?x ?y \<noteq> 0" using "1.prems"(4) mem neq by blast
      have step: "dedup_loop ?rows (Suc i) (Suc u) = (rows', u')"
        using "1.prems"(5) True cmp by (simp add: dedup_loop.simps [of rows i])
      have "set ?rows \<subseteq> set rows" using mem by (simp add: set_update_subsetI)
      then have "take u' rows' = take u ?rows @ remdups_adj (?rows ! u # drop (Suc i) ?rows)"
        using "1.IH"(1) [OF True cmp _ _ _ _ step] True "1.prems"(1-4)
        by (auto simp: subset_iff)
      moreover have "?rows ! u = ?x" "drop (Suc i) ?rows = drop (Suc i) rows" "take u ?rows = take u rows"
        using True "1.prems"(2) by simp_all
      ultimately show ?thesis using d neq front by simp
    qed
  qed
qed

lemma sorted_remdups_adj_set:
  fixes xs :: "'a :: linorder list"
  assumes "sorted xs"
  shows "remdups_adj xs = sorted_list_of_set (set xs)"
proof -
  have "sorted_wrt (<) (remdups_adj ys)" if "sorted ys" for ys :: "'a list"
    using that
  proof (induction ys rule: remdups_adj.induct)
    case (3 x y ys)
    then show ?case by (auto simp: less_le)
  qed auto
  with assms have "sorted (remdups_adj xs) \<and> distinct (remdups_adj xs)"
    by (simp add: strict_sorted_iff)
  then show ?thesis by (metis remdups_adj_set sorted_list_of_set.idem_if_sorted_distinct)
qed

lemma sort_key_inst_of: "sort_key inst_oid (map inst_of xs) = map inst_of (sort xs)"
proof -
  have "insort_key inst_oid (inst_of x) (map inst_of ys) = map inst_of (insort x ys)" for x ys
    by (induction ys) simp_all
  then show ?thesis by (induction xs) simp_all
qed

text \<open>
  Sort and squeeze: whatever the scan pushed, in whatever order and with whatever repetitions,
  comes out as its set in ascending order.
\<close>

lemma sort_dedup:
  assumes "\<forall>xs \<in> set os. length xs \<le> 128" and "os \<noteq> []"
    and "dedup_loop (qsort table_instance_compare (map inst_of os)) 1 1 = (rows, u)"
  shows "take u rows = map inst_of (sorted_list_of_set (set os))"
proof -
  have wf: "\<forall>i \<in> set (map inst_of os). inst_wf i" using assms(1) by auto
  have q: "qsort table_instance_compare (map inst_of os) = map inst_of (sort os)"
    using oid_order.qsort_key [OF wf] by (simp add: sort_key_inst_of)
  have cmp: "table_instance_compare a b = 0 \<longleftrightarrow> a = b"
    if "a \<in> set (map inst_of (sort os))" "b \<in> set (map inst_of (sort os))" for a b
    using that assms(1) oid_order.cmp_eq [of a b] by auto
  obtain x xs where s: "sort os = x # xs"
    using assms(2) by (metis list.exhaust length_0_conv length_sort)
  have "take u rows = remdups_adj (map inst_of (sort os))"
    using dedup_loop_remdups [of 1 1 "map inst_of (sort os)", OF _ _ _ cmp] assms(3) q s by simp
  also have "\<dots> = map inst_of (remdups_adj (sort os))"
    by (rule remdups_adj_map_injective) (simp add: inj_def)
  finally show ?thesis by (simp add: sorted_remdups_adj_set)
qed

subsection \<open>Cell keys\<close>

definition cell_key :: "string \<Rightarrow> uint32 list \<Rightarrow> string" where
  "cell_key col xs = col @ ''.'' @ dotted xs"

text \<open>Columns are MIB object names, which carry no dot; then a key names one cell.\<close>

lemma cell_key_inject:
  assumes "cell_key col xs = cell_key col' ys" and "CHR ''.'' \<notin> set col" "CHR ''.'' \<notin> set col'"
    and "length xs \<le> 128" "length ys \<le> 128"
  shows "col = col' \<and> xs = ys"
proof -
  let ?p = "\<lambda>c. c \<noteq> CHR ''.''"
  have split: "takeWhile ?p (cell_key c zs) = c \<and> dropWhile ?p (cell_key c zs) = CHR ''.'' # dotted zs"
    if "CHR ''.'' \<notin> set c" for c zs
    using that by (auto simp: cell_key_def takeWhile_append dropWhile_append)
  with assms(1) split [OF assms(2), of xs] split [OF assms(3), of ys] dotted_inject [OF _ assms(4,5)]
  show ?thesis by simp
qed

lemma table_cell_key_spec:
  assumes "inst_wf i" and "0 < ti_len i"
  shows "table_cell_key (Some col) (Some i) (Some old) buflen = (STORAGE_OK, Some key) \<longleftrightarrow>
    col \<noteq> [] \<and> key = cell_key col (inst_oid i) \<and> length key < buflen \<and> length key \<le> STORAGE_KEY_MAX"
proof (cases "col = [] \<or> length col + 2 > buflen")
  case True
  moreover have "length key \<ge> length col + 2" if "key = cell_key col (inst_oid i)"
  proof -
    have "dotted (inst_oid i) \<noteq> []" using assms by (auto simp: inst_oid_def inst_wf_def)
    then have "Suc 0 \<le> length (dotted (inst_oid i))" by (cases "dotted (inst_oid i)") auto
    with that show ?thesis by (simp add: cell_key_def)
  qed
  ultimately show ?thesis by (auto simp: table_cell_key_def)
next
  case False
  then have "0 < buflen - length col - 1" by simp
  note format_spec [OF this assms, of "[]"]
  with False show ?thesis
    by (auto simp: table_cell_key_def cell_key_def Let_def)
qed

end
