(* ===== verification/Table_Rows_Load.thy ===== *)
theory Table_Rows_Load
  imports Table_Order
begin

text \<open>
  Row discovery is correct: scanning the prefix of every column, sorting and squeezing returns
  exactly the rows that have at least one cell under a canonical key, counts the keys that have
  none, always ends, changes nothing and returns every transaction and cursor it opened.
\<close>

subsection \<open>The scan\<close>

definition valid_oid :: "uint32 list \<Rightarrow> bool" where
  "valid_oid xs \<longleftrightarrow> xs \<noteq> [] \<and> length xs \<le> TABLE_ROW_SUBID_MAX"

text \<open>The instances that have a canonical key among \<open>K\<close>, and the keys that name none.\<close>

definition rows_under :: "string \<Rightarrow> string set \<Rightarrow> uint32 list set" where
  "rows_under pre K = {xs. valid_oid xs \<and> pre @ dotted xs \<in> K}"

definition junk_under :: "string \<Rightarrow> string set \<Rightarrow> string set" where
  "junk_under pre K = {k \<in> K. \<nexists>xs. valid_oid xs \<and> k = pre @ dotted xs}"

lemma under_empty [simp]: "rows_under pre {} = {}" "junk_under pre {} = {}"
  by (auto simp: rows_under_def junk_under_def)

lemma under_row:
  assumes "valid_oid xs" and "pre @ dotted xs \<in> K"
  shows "rows_under pre K = insert xs (rows_under pre (K - {pre @ dotted xs}))"
    and "junk_under pre K = junk_under pre (K - {pre @ dotted xs})"
proof -
  have "ys = xs" if "valid_oid ys" "dotted ys = dotted xs" for ys
    using that assms(1) by (intro dotted_inject) (auto simp: valid_oid_def)
  then show "rows_under pre K = insert xs (rows_under pre (K - {pre @ dotted xs}))"
    using assms by (auto simp: rows_under_def)
qed (use assms in \<open>auto simp: junk_under_def\<close>)

lemma under_junk:
  assumes "\<nexists>xs. valid_oid xs \<and> k = pre @ dotted xs" and "k \<in> K"
  shows "rows_under pre K = rows_under pre (K - {k})"
    and "junk_under pre K = insert k (junk_under pre (K - {k}))"
  using assms by (auto simp: rows_under_def junk_under_def)

lemma finite_junk: "finite K \<Longrightarrow> finite (junk_under pre K)"
  by (simp add: junk_under_def)

definition rowset_wf :: "table_rowset \<Rightarrow> bool" where
  "rowset_wf rs \<longleftrightarrow> length (rs_rows rs) \<le> rs_capacity rs"

text \<open>The rows \<open>os\<close> and \<open>n\<close> skipped keys were added.\<close>

definition rowset_adds :: "table_rowset \<Rightarrow> uint32 list list \<Rightarrow> nat \<Rightarrow> table_rowset \<Rightarrow> bool" where
  "rowset_adds rs os n rs' \<longleftrightarrow>
     rs_rows rs' = rs_rows rs @ map inst_of os \<and> rs_skipped rs' = rs_skipped rs + n \<and>
     (rowset_wf rs \<longrightarrow> rowset_wf rs')"

lemma rowset_adds_nothing [simp]: "rowset_adds rs [] 0 rs"
  by (simp add: rowset_adds_def)

lemma rowset_adds_trans: "rowset_adds a os n b \<Longrightarrow> rowset_adds b ps m c \<Longrightarrow>
    rowset_adds a (os @ ps) (n + m) c"
  by (simp add: rowset_adds_def)

lemma rowset_adds_skip: "rowset_adds rs [] (Suc 0) (rs\<lparr>rs_skipped := Suc (rs_skipped rs)\<rparr>)"
  by (simp add: rowset_adds_def rowset_wf_def)

text \<open>A push either grows the allocation first or has room; it never writes past the end.\<close>

lemma rowset_push_adds:
  "rowset_push L rs (inst_of xs) = (STORAGE_OK, rs') \<Longrightarrow> rowset_adds rs [xs] 0 rs'"
  by (auto simp: rowset_push_def rowset_adds_def rowset_wf_def Let_def split: if_splits)

lemma rowset_push_total: "(\<forall>n. malloc_ok L n) \<Longrightarrow> fst (rowset_push L rs i) = STORAGE_OK"
  by (simp add: rowset_push_def Let_def)

lemma parse_suffix:
  assumes "table_instance_parse (Some (drop (length pre) k)) (Some old) = (prc, inst)"
    and "prefix pre k"
  obtains (row) xs where "prc = STORAGE_OK" "valid_oid xs" "k = pre @ dotted xs" "inst = Some (inst_of xs)"
  | (junk) "prc \<noteq> STORAGE_OK" "\<nexists>xs. valid_oid xs \<and> k = pre @ dotted xs"
proof (cases "prc = STORAGE_OK")
  case True
  then obtain i where "inst = Some i"
    using assms(1) by (auto simp: table_instance_parse_def split: if_splits option.splits)
  with True assms parse_iff [of "drop (length pre) k" old i] show ?thesis
    by (metis row valid_oid_def append_eq_conv_conj prefix_def)
next
  case False
  then have "\<nexists>xs. valid_oid xs \<and> k = pre @ dotted xs"
    using assms(1) by (auto simp: valid_oid_def)
  with False show ?thesis by (rule junk)
qed

context lmdb_laws
begin

definition plentiful :: bool where
  "plentiful \<longleftrightarrow> (\<forall>n. malloc_ok L n) \<and>
     (\<forall>e. fst (mdb_txn_begin L e True) = MDB_SUCCESS) \<and>
     (\<forall>t e. fst (mdb_cursor_open L t e) = MDB_SUCCESS) \<and>
     (\<forall>c op. fst (mdb_cursor_get L c op) \<in> {MDB_SUCCESS, MDB_NOTFOUND})"

lemma iter_next_plentiful:
  "plentiful \<Longrightarrow> storage_iter_next L (Some it) (Some b) = (rc, key, itp) \<Longrightarrow>
     rc \<in> {STORAGE_OK, STORAGE_ERR_NOTFOUND}"
  by (auto simp: storage_iter_next_def plentiful_def Let_def split: if_splits prod.splits)
    (metis fst_conv)+

text \<open>What a scan of the keys \<open>K\<close> that starts from \<open>rs\<close> has to return.\<close>

definition scan_result ::
  "string \<Rightarrow> string set \<Rightarrow> table_rowset \<Rightarrow>
   (storage_rc \<times> table_rowset \<times> ('t, 'c) storage_iter option) option \<Rightarrow> bool" where
  "scan_result pre K rs res \<longleftrightarrow>
     (\<exists>rc rs' it. res = Some (rc, rs', Some it) \<and> (plentiful \<longrightarrow> rc = STORAGE_OK) \<and>
       (rc = STORAGE_OK \<longrightarrow> (\<exists>os. set os = rows_under pre K \<and>
          rowset_adds rs os (card (junk_under pre K)) rs')))"

lemma scan_result_error:
  "\<not> plentiful \<Longrightarrow> rc \<noteq> STORAGE_OK \<Longrightarrow> scan_result pre K rs (Some (rc, rs', Some it))"
  by (simp add: scan_result_def)

lemma scan_result_end: "scan_result pre {} rs (Some (STORAGE_OK, rs, Some it))"
  by (simp add: scan_result_def)

lemma scan_result_row:
  assumes "scan_result pre (K - {pre @ dotted xs}) rs1 res" and "valid_oid xs"
    and "pre @ dotted xs \<in> K" and "rowset_push L rs (inst_of xs) = (STORAGE_OK, rs1)"
  shows "scan_result pre K rs res"
proof -
  have "set ([xs] @ os) = rows_under pre K \<and> rowset_adds rs ([xs] @ os) (card (junk_under pre K)) rs'"
    if "set os = rows_under pre (K - {pre @ dotted xs})"
      "rowset_adds rs1 os (card (junk_under pre (K - {pre @ dotted xs}))) rs'" for os rs'
    using rowset_adds_trans [OF rowset_push_adds [OF assms(4)] that(2)] that(1)
      under_row [OF assms(2,3)] by simp
  with assms(1) show ?thesis unfolding scan_result_def by blast
qed

lemma scan_result_junk:
  assumes "scan_result pre (K - {k}) (rs\<lparr>rs_skipped := Suc (rs_skipped rs)\<rparr>) res"
    and "\<nexists>xs. valid_oid xs \<and> k = pre @ dotted xs" and "k \<in> K" and "finite K"
  shows "scan_result pre K rs res"
proof -
  have "card (junk_under pre K) = Suc 0 + card (junk_under pre (K - {k}))"
    using under_junk(2) [OF assms(2,3)] finite_junk [of "K - {k}" pre] assms(4)
    by (simp add: junk_under_def)
  moreover have "rows_under pre K = rows_under pre (K - {k})"
    using under_junk(1) [OF assms(2,3)] .
  ultimately show ?thesis
    using assms(1) rowset_adds_trans [OF rowset_adds_skip]
    unfolding scan_result_def by (metis append_Nil)
qed

lemma rowset_scan_spec:
  assumes "wf_iter it" and "finite (rest it)" and "it_prefix it = pre"
  shows "scan_result pre (rest it) rs (rowset_scan L (length pre) rs (Some it))"
  using assms
proof (induction "card (rest it)" arbitrary: it rs rule: less_induct)
  case less
  obtain rc key itp where n: "storage_iter_next L (Some it) (Some '''') = (rc, key, itp)"
    by (cases "storage_iter_next L (Some it) (Some '''')")
  obtain it' where it': "itp = Some it'" using iter_next_some [OF n] by blast
  note unfold = rowset_scan.simps [of L "length pre" rs "Some it"] n it'
  consider "rc = STORAGE_ERR_NOTFOUND" | "rc \<noteq> STORAGE_ERR_NOTFOUND" "rc \<noteq> STORAGE_OK"
    | "rc = STORAGE_OK" by blast
  then show ?case
  proof cases
    case 1
    with iter_next_end [OF less.prems(1)] n have "rest it = {}" by blast
    with 1 show ?thesis by (simp add: unfold scan_result_end)
  next
    case 2
    with iter_next_plentiful [OF _ n] show ?thesis by (auto simp: unfold intro: scan_result_error)
  next
    case 3
    from iter_next_hit [OF less.prems(1) n [unfolded 3]] it' less.prems(3)
    obtain k where k: "key = Some k" "k \<in> rest it"
      and it'': "rest it' = rest it - {k}" "wf_iter it'" "it_prefix it' = pre" by blast
    have "card (rest it') < card (rest it)" "finite (rest it')"
      using k(2) it''(1) less.prems(2) card_Diff1_less [of "rest it" k] by auto
    note IH = less.hyps [OF this(1) it''(2) this(2) it''(3), unfolded it''(1)]
    have pre: "prefix pre k" using k(2) less.prems(3) by (auto simp: iter_rest_def split: if_splits)
    obtain prc inst where p: "table_instance_parse (Some (drop (length pre) k))
        (Some \<lparr>ti_subid = [], ti_len = 0\<rparr>) = (prc, inst)" by fastforce
    from p pre show ?thesis
    proof (cases rule: parse_suffix)
      case (row xs)
      obtain prc' rs1 where push: "rowset_push L rs (inst_of xs) = (prc', rs1)" by fastforce
      have "scan_result pre (rest it) rs (rowset_scan L (length pre) rs1 (Some it'))"
        if "prc' = STORAGE_OK"
        using scan_result_row [OF IH [of rs1, unfolded row(3)] row(2)] push that k(2) row(3) by simp
      moreover have "\<not> plentiful" if "prc' \<noteq> STORAGE_OK"
        using rowset_push_total [of L rs "inst_of xs"] push that by (auto simp: plentiful_def)
      ultimately show ?thesis
        using 3 k p row push by (simp add: unfold scan_result_error)
    next
      case junk
      with scan_result_junk [OF IH junk(2) k(2) less.prems(2)] 3 k p show ?thesis
        by (simp add: unfold)
    qed
  qed
qed

end

subsection \<open>Columns and the whole load\<close>

text \<open>The rows a column of a store has, and the keys under it that name no row.\<close>

definition store_rows :: "store \<Rightarrow> string \<Rightarrow> uint32 list set" where
  "store_rows m col = {xs. valid_oid xs \<and> cell_key col xs \<in> dom m}"

definition store_junk :: "store \<Rightarrow> string \<Rightarrow> string set" where
  "store_junk m col =
     {k \<in> dom m. prefix (col @ ''.'') k \<and> (\<nexists>xs. valid_oid xs \<and> k = cell_key col xs)}"

lemma under_column:
  "rows_under (col @ ''.'') {k \<in> dom m. prefix (col @ ''.'') k} = store_rows m col"
  "junk_under (col @ ''.'') {k \<in> dom m. prefix (col @ ''.'') k} = store_junk m col"
  by (auto simp: rows_under_def junk_under_def store_rows_def store_junk_def cell_key_def)

text \<open>Both environments keep their contents, flags and live handles.\<close>

definition envs_same ::
  "('e \<Rightarrow> store) \<Rightarrow> ('e \<Rightarrow> nat) \<Rightarrow> ('e \<Rightarrow> nat) \<Rightarrow> 'e envs \<Rightarrow> 'e envs \<Rightarrow> bool" where
  "envs_same emap txns cursors envs envs' \<longleftrightarrow>
     (\<forall>i. rel_option (\<lambda>a b. same_handle txns cursors a b \<and> emap (se_env b) = emap (se_env a))
        (envs i) (envs' i))"

lemma envs_same_refl [simp]: "envs_same emap txns cursors envs envs"
  by (auto simp: envs_same_def intro: option.rel_refl)

lemma envs_same_trans:
  assumes "envs_same emap txns cursors a b" and "envs_same emap txns cursors b c"
  shows "envs_same emap txns cursors a c"
  unfolding envs_same_def
proof
  fix i
  from assms show "rel_option (\<lambda>x y. same_handle txns cursors x y \<and> emap (se_env y) = emap (se_env x))
      (a i) (c i)"
    unfolding envs_same_def
    by (auto simp: option_rel_Some1 option_rel_Some2 dest!: spec [of _ i] intro: same_handle_trans
        elim!: option.rel_cases)
qed

lemma envs_same_upd:
  "envs i = Some env \<Longrightarrow> same_handle txns cursors env env' \<Longrightarrow> emap (se_env env') = emap (se_env env) \<Longrightarrow>
     envs_same emap txns cursors envs (envs(i := Some env'))"
  by (auto simp: envs_same_def intro: option.rel_refl)

text \<open>The contents of the environment a column lives in, empty when it is not open.\<close>

definition col_store :: "('e \<Rightarrow> store) \<Rightarrow> 'e envs \<Rightarrow> table_column_ref \<Rightarrow> store" where
  "col_store emap envs col =
     (case envs (tc_env col) of None \<Rightarrow> Map.empty | Some env \<Rightarrow> emap (se_env env))"

lemma col_store_same: "envs_same emap txns cursors a b \<Longrightarrow> col_store emap b col = col_store emap a col"
  by (auto simp: envs_same_def col_store_def dest!: spec [of _ "tc_env col"] elim!: option.rel_cases)

text \<open>A column \<open>table_rowset_load\<close> can scan.\<close>

definition column_usable :: "'e envs \<Rightarrow> table_column_ref \<Rightarrow> bool" where
  "column_usable envs col \<longleftrightarrow> envs (tc_env col) \<noteq> None \<and>
     (case tc_column col of None \<Rightarrow> False | Some c \<Rightarrow> c \<noteq> [] \<and> length c < STORAGE_KEY_MAX)"

lemma column_usable_same: "envs_same emap txns cursors a b \<Longrightarrow> column_usable b col = column_usable a col"
  by (auto simp: envs_same_def column_usable_def dest!: spec [of _ "tc_env col"] elim!: option.rel_cases)

context lmdb_laws
begin

lemma iter_open_plentiful:
  "plentiful \<Longrightarrow> length p \<le> STORAGE_KEY_MAX \<Longrightarrow>
     fst (storage_iter_open L (Some env) (Some p) (Some old)) = STORAGE_OK"
  by (auto simp: storage_iter_open_def begin_read_txn_def plentiful_def Let_def split: prod.splits)
    (metis fst_conv)+

definition load_result ::
  "'e envs \<Rightarrow> table_rowset \<Rightarrow> bool \<Rightarrow> uint32 list set \<Rightarrow> nat \<Rightarrow>
   (storage_rc \<times> table_rowset \<times> 'e envs) option \<Rightarrow> bool" where
  "load_result envs rs usable R n res \<longleftrightarrow>
     (\<exists>rc rs' envs'. res = Some (rc, rs', envs') \<and>
        envs_same env_map live_txns live_cursors envs envs' \<and>
        (plentiful \<and> usable \<longrightarrow> rc = STORAGE_OK) \<and>
        (rc = STORAGE_OK \<longrightarrow> (\<exists>os. set os = R \<and> rowset_adds rs os n rs')))"

lemma rowset_load_column_spec:
  "load_result envs rs (column_usable envs col)
     (store_rows (col_store env_map envs col) (the (tc_column col)))
     (card (store_junk (col_store env_map envs col) (the (tc_column col))))
     (rowset_load_column L envs rs col)"
proof (cases "\<exists>env c. envs (tc_env col) = Some env \<and> tc_column col = Some c \<and> c \<noteq> [] \<and>
    length c + 1 < STORAGE_KEY_MAX + 2")
  case False
  then show ?thesis
    by (auto simp: rowset_load_column_def load_result_def column_usable_def Let_def
        split: option.splits)
next
  case True
  then obtain env c where env: "envs (tc_env col) = Some env" and c: "tc_column col = Some c" "c \<noteq> []"
    "length c + 1 < STORAGE_KEY_MAX + 2" by blast
  let ?pre = "c @ ''.''"
  obtain rc out envp where o: "storage_iter_open L (Some env) (Some ?pre) (Some None) = (rc, out, envp)"
    by (cases "storage_iter_open L (Some env) (Some ?pre) (Some None)")
  note opened = iter_opens [OF o]
  show ?thesis
  proof (cases "rc = STORAGE_OK")
    case err: False
    with opened env c o iter_open_plentiful [of ?pre env None] show ?thesis
      by (auto simp: rowset_load_column_def load_result_def column_usable_def intro: envs_same_upd)
  next
    case ok: True
    with opened obtain env1 it where env1: "envp = Some env1"
      "env_map (se_env env1) = env_map (se_env env)"
      "se_flags env1 = se_flags env" "se_readonly env1 = se_readonly env"
      "live_txns (se_env env1) = Suc (live_txns (se_env env))"
      "live_cursors (se_env env1) = Suc (live_cursors (se_env env))"
      and it: "out = Some (Some it)" "wf_iter it" "it_prefix it = ?pre" "finite (rest it)"
      "rest it = {k \<in> dom (env_map (se_env env)). prefix ?pre k}" by auto
    have "scan_result ?pre (rest it) rs (rowset_scan L (length ?pre) rs (Some it))"
      using rowset_scan_spec [OF it(2,4,3)] .
    then obtain rc rs' it' os where s: "rowset_scan L (length ?pre) rs (Some it) = Some (rc, rs', Some it')"
      "plentiful \<longrightarrow> rc = STORAGE_OK"
      "rc = STORAGE_OK \<longrightarrow> set os = store_rows (env_map (se_env env)) c \<and>
         rowset_adds rs os (card (store_junk (env_map (se_env env)) c)) rs'"
      unfolding scan_result_def it(5) under_column by blast
    have "envs_same env_map live_txns live_cursors envs
        (envs(tc_env col := Some (storage_iter_close L (Some it') env1)))"
      using env env1 by (intro envs_same_upd [of envs _ env])
        (simp_all add: storage_iter_close_def abort_txn_def abort_env cursor_close_env same_handle_def)
    with s env c o ok env1(1) it(1) show ?thesis
      by (auto simp: rowset_load_column_def load_result_def col_store_def)
  qed
qed

end

text \<open>The rows of a table: those with a cell in at least one of its columns.\<close>

definition table_rows :: "('e \<Rightarrow> store) \<Rightarrow> 'e envs \<Rightarrow> table_column_ref list \<Rightarrow> uint32 list set" where
  "table_rows emap envs cols =
     (\<Union>col \<in> set cols. store_rows (col_store emap envs col) (the (tc_column col)))"

definition table_junk :: "('e \<Rightarrow> store) \<Rightarrow> 'e envs \<Rightarrow> table_column_ref list \<Rightarrow> nat" where
  "table_junk emap envs cols =
     (\<Sum>col \<leftarrow> cols. card (store_junk (col_store emap envs col) (the (tc_column col))))"

lemma table_rows_simps [simp]:
  "table_rows emap envs [] = {}" "table_junk emap envs [] = 0"
  "table_rows emap envs (c # cs) =
     store_rows (col_store emap envs c) (the (tc_column c)) \<union> table_rows emap envs cs"
  "table_junk emap envs (c # cs) =
     card (store_junk (col_store emap envs c) (the (tc_column c))) + table_junk emap envs cs"
  by (simp_all add: table_rows_def table_junk_def)

lemma table_rows_same:
  assumes "envs_same emap txns cursors a b"
  shows "table_rows emap b cols = table_rows emap a cols"
    and "table_junk emap b cols = table_junk emap a cols"
  by (simp_all add: table_rows_def table_junk_def col_store_same [OF assms])

lemma table_rows_valid: "xs \<in> table_rows emap envs cols \<Longrightarrow> xs \<noteq> [] \<and> length xs \<le> 128"
  by (auto simp: table_rows_def store_rows_def valid_oid_def)

text \<open>What the finished rowset holds.\<close>

definition rowset_holds :: "table_rowset \<Rightarrow> uint32 list set \<Rightarrow> nat \<Rightarrow> bool" where
  "rowset_holds rs R n \<longleftrightarrow>
     rs_rows rs = map inst_of (sorted_list_of_set R) \<and> rs_skipped rs = n \<and> rowset_wf rs"

lemma sort_squeeze_holds:
  assumes "rowset_adds \<lparr>rs_rows = [], rs_capacity = 0, rs_skipped = 0\<rparr> os n rs"
    and "\<forall>xs \<in> set os. length xs \<le> 128"
  shows "length (rs_rows rs) \<le> 1 \<Longrightarrow> rowset_holds rs (set os) n"
    and "length (rs_rows rs) > 1 \<Longrightarrow>
      dedup_loop (qsort table_instance_compare (rs_rows rs)) 1 1 = (rows, u) \<Longrightarrow>
      rowset_holds (rs\<lparr>rs_rows := take u rows\<rparr>) (set os) n"
proof -
  have rs: "rs_rows rs = map inst_of os" "rs_skipped rs = n" "length os \<le> rs_capacity rs"
    using assms(1) by (auto simp: rowset_adds_def rowset_wf_def)
  show "rowset_holds rs (set os) n" if "length (rs_rows rs) \<le> 1"
    using that rs by (cases os) (auto simp: rowset_holds_def rowset_wf_def)
  show "rowset_holds (rs\<lparr>rs_rows := take u rows\<rparr>) (set os) n"
    if "length (rs_rows rs) > 1"
      "dedup_loop (qsort table_instance_compare (rs_rows rs)) 1 1 = (rows, u)"
  proof -
    have "take u rows = map inst_of (sorted_list_of_set (set os))"
      using that rs by (intro sort_dedup [OF assms(2)]) auto
    moreover have "length (sorted_list_of_set (set os)) \<le> length os"
      by (simp add: card_length)
    ultimately show ?thesis using rs by (simp add: rowset_holds_def rowset_wf_def)
  qed
qed

context lmdb_laws
begin

lemma rowset_load_columns_spec:
  "load_result envs rs (\<forall>c \<in> set cols. column_usable envs c)
     (table_rows env_map envs cols) (table_junk env_map envs cols)
     (rowset_load_columns L envs rs cols)"
proof (induction cols arbitrary: envs rs)
  case Nil
  then show ?case by (simp add: load_result_def)
next
  case (Cons c cs)
  from rowset_load_column_spec [of envs rs c] obtain rc rs1 envs1 where
    l: "rowset_load_column L envs rs c = Some (rc, rs1, envs1)"
      "envs_same env_map live_txns live_cursors envs envs1"
      "plentiful \<and> column_usable envs c \<longrightarrow> rc = STORAGE_OK"
    and adds: "rc = STORAGE_OK \<Longrightarrow>
      \<exists>os. set os = store_rows (col_store env_map envs c) (the (tc_column c)) \<and>
        rowset_adds rs os (card (store_junk (col_store env_map envs c) (the (tc_column c)))) rs1"
    by (auto simp: load_result_def)
  note same = table_rows_same [OF l(2)] column_usable_same [OF l(2)]
  show ?case
  proof (cases "rc = STORAGE_OK")
    case False
    with l show ?thesis by (auto simp: load_result_def)
  next
    case True
    from adds [OF True] obtain os where os:
      "set os = store_rows (col_store env_map envs c) (the (tc_column c))"
      "rowset_adds rs os (card (store_junk (col_store env_map envs c) (the (tc_column c)))) rs1"
      by blast
    from Cons.IH [of envs1 rs1] obtain rc2 rs2 envs2 os2 where
      r: "rowset_load_columns L envs1 rs1 cs = Some (rc2, rs2, envs2)"
        "envs_same env_map live_txns live_cursors envs1 envs2"
        "plentiful \<and> (\<forall>c \<in> set cs. column_usable envs c) \<longrightarrow> rc2 = STORAGE_OK"
        "rc2 = STORAGE_OK \<longrightarrow> set os2 = table_rows env_map envs cs \<and>
           rowset_adds rs1 os2 (table_junk env_map envs cs) rs2"
      unfolding load_result_def same by blast
    have "\<exists>os. set os = table_rows env_map envs (c # cs) \<and>
        rowset_adds rs os (table_junk env_map envs (c # cs)) rs2" if "rc2 = STORAGE_OK"
      using r(4) that os rowset_adds_trans [OF os(2)]
      by (intro exI [of _ "os @ os2"]) simp
    with l r(1-3) True envs_same_trans [OF l(2) r(2)] show ?thesis
      by (simp add: load_result_def)
  qed
qed

lemma table_rowset_load_spec:
  assumes "cols \<noteq> []"
  shows "\<exists>rc out envs'. table_rowset_load L envs (Some cols) (Some old) = Some (rc, out, envs') \<and>
    envs_same env_map live_txns live_cursors envs envs' \<and>
    (plentiful \<and> (\<forall>c \<in> set cols. column_usable envs c) \<longrightarrow> rc = STORAGE_OK) \<and>
    (if rc = STORAGE_OK
     then \<exists>rs. out = Some (Some rs) \<and>
            rowset_holds rs (table_rows env_map envs cols) (table_junk env_map envs cols)
     else out = Some old)"
proof (cases "malloc_ok L sizeof_table_rowset")
  case False
  then show ?thesis using assms by (simp add: table_rowset_load_def plentiful_def) blast
next
  case True
  let ?rs = "\<lparr>rs_rows = [], rs_capacity = 0, rs_skipped = 0\<rparr>"
  from rowset_load_columns_spec [of envs ?rs cols] obtain rc rs envs' os where
    l: "rowset_load_columns L envs ?rs cols = Some (rc, rs, envs')"
      "envs_same env_map live_txns live_cursors envs envs'"
      "plentiful \<and> (\<forall>c \<in> set cols. column_usable envs c) \<longrightarrow> rc = STORAGE_OK"
      "rc = STORAGE_OK \<longrightarrow> set os = table_rows env_map envs cols \<and>
         rowset_adds ?rs os (table_junk env_map envs cols) rs"
    unfolding load_result_def by blast
  show ?thesis
  proof (cases "rc = STORAGE_OK")
    case False
    with True assms l show ?thesis by (auto simp: table_rowset_load_def)
  next
    case ok: True
    obtain rows u where d: "dedup_loop (qsort table_instance_compare (rs_rows rs)) 1 1 = (rows, u)"
      by fastforce
    have os: "set os = table_rows env_map envs cols"
      "rowset_adds ?rs os (table_junk env_map envs cols) rs" using l(4) ok by auto
    then have "\<forall>xs \<in> set os. length xs \<le> 128" using table_rows_valid by blast
    note holds = sort_squeeze_holds [OF os(2) this, unfolded os(1)]
    show ?thesis
    proof (cases "length (rs_rows rs) > 1")
      case True
      with holds(2) [OF True d] \<open>malloc_ok L sizeof_table_rowset\<close> assms l(1,2) ok d show ?thesis
        by (simp add: table_rowset_load_def)
    next
      case False
      with holds(1) \<open>malloc_ok L sizeof_table_rowset\<close> assms l(1,2) ok show ?thesis
        by (simp add: table_rowset_load_def)
    qed
  qed
qed

end

context lmdb_reliable
begin

lemma plentiful: plentiful
  by (auto simp: plentiful_def malloc_total begin_total cursor_open_total
      intro!: cursor_get_total [simplified])

lemma table_rowset_load_total:
  assumes "cols \<noteq> []" and "\<forall>c \<in> set cols. column_usable envs c"
  shows "\<exists>rs envs'. table_rowset_load L envs (Some cols) (Some old) =
      Some (STORAGE_OK, Some (Some rs), envs') \<and>
    envs_same env_map live_txns live_cursors envs envs' \<and>
    rowset_holds rs (table_rows env_map envs cols) (table_junk env_map envs cols)"
  using table_rowset_load_spec [OF assms(1), of envs old] plentiful assms(2) by auto

end

end
