(* ===== verification/Net_Snmp.thy ===== *)
theory Net_Snmp
  imports Table_Rows_Load
begin

text \<open>
  What the subagent uses of net-snmp. The library is not part of the repository, so it is a
  parameter like the storage platform: a record of operations on requests \<open>'r\<close>, index varbind
  lists \<open>'i\<close> and trap varbind lists \<open>'v\<close>. The locale \<open>snmp_laws\<close> names what the handlers rely
  on: the data list of a request gives back what was put in, and recording an error, a stash or
  a result leaves the rest of the request alone. \<open>snmp_demo\<close> is an executable instance.

  The functions with side effects on the request return the updated request; field accesses
  such as \<open>requests->requestvb->val_len\<close> are selectors. \<open>snmp_log\<close> output is left out.
\<close>

datatype asn_type = ASN_INTEGER | ASN_UNSIGNED | ASN_COUNTER | ASN_OCTET_STR | ASN_OBJECT_ID

datatype snmp_err =
    SNMP_ERR_NOERROR | SNMP_ERR_GENERR | SNMP_ERR_WRONGTYPE | SNMP_ERR_WRONGLENGTH
  | SNMP_ERR_WRONGVALUE | SNMP_ERR_RESOURCEUNAVAILABLE | SNMP_ERR_COMMITFAILED
  | SNMP_ERR_UNDOFAILED | SNMP_ERR_NOCREATION | SNMP_ERR_NOTWRITABLE
  | SNMP_NOSUCHINSTANCE | SNMP_NOSUCHOBJECT

datatype agent_mode =
    MODE_GET | MODE_SET_RESERVE1 | MODE_SET_RESERVE2 | MODE_SET_FREE | MODE_SET_ACTION
  | MODE_SET_COMMIT | MODE_SET_UNDO | MODE_OTHER int

type_synonym clong = "64 word"  \<comment> \<open>C \<open>long\<close>, read with \<open>sint\<close>\<close>
type_synonym oid = "64 word list"  \<comment> \<open>\<open>oid\<close> is a 64 bit \<open>unsigned long\<close>\<close>

text \<open>
  The stashes of \<open>MODE_SET_RESERVE2\<close>: the scalars keep a bare value, the table cells the
  \<open>undo_...\<close> structs with the key and whether the cell existed.
\<close>

datatype stash =
    Stash_Int int32
  | Stash_Uint uint32
  | Stash_Bytes bytes nat  \<comment> \<open>data, len\<close>
  | Cell_Int string bool int32  \<comment> \<open>key, existed, value\<close>
  | Cell_Bytes string bool bytes nat  \<comment> \<open>key, existed, data, len\<close>

datatype vb_value = Vb_Oid oid | Vb_Int int32

record 'i table_request_info =
  tri_colnum :: nat
  tri_indexes :: "'i option"

record ('r, 'i, 'v) snmp_api =
  check_vb_type :: "'r \<Rightarrow> asn_type \<Rightarrow> snmp_err"
  vb_integer :: "'r \<Rightarrow> clong"  \<comment> \<open>\<open>*requestvb->val.integer\<close>\<close>
  vb_string :: "'r \<Rightarrow> bytes option"  \<comment> \<open>\<open>requestvb->val.string\<close>\<close>
  vb_val_len :: "'r \<Rightarrow> nat"  \<comment> \<open>\<open>requestvb->val_len\<close>\<close>
  set_request_error :: "'r \<Rightarrow> snmp_err \<Rightarrow> 'r"
  set_var_typed_integer :: "'r \<Rightarrow> asn_type \<Rightarrow> clong \<Rightarrow> 'r"
  set_var_typed_value :: "'r \<Rightarrow> asn_type \<Rightarrow> bytes \<Rightarrow> 'r"
  add_list_data :: "'r \<Rightarrow> string \<Rightarrow> stash \<Rightarrow> 'r"
  get_list_data :: "'r \<Rightarrow> string \<Rightarrow> stash option"
  remove_list_data :: "'r \<Rightarrow> string \<Rightarrow> 'r"
  extract_table_info :: "'r \<Rightarrow> 'i table_request_info option"
  extract_iterator_context :: "'r \<Rightarrow> bool"  \<comment> \<open>not \<open>NULL\<close>\<close>
  parse_oid_indexes :: "oid \<Rightarrow> 'i \<Rightarrow> bool \<times> 'i"  \<comment> \<open>\<open>SNMPERR_SUCCESS\<close> or not\<close>
  build_oid_noalloc :: "nat \<Rightarrow> 'i \<Rightarrow> bool \<times> oid"
  varlist_add :: "'v option \<Rightarrow> oid \<Rightarrow> asn_type \<Rightarrow> vb_value \<Rightarrow> 'v option"

text \<open>What recording something in a request leaves alone.\<close>

definition same_input :: "('r, 'i, 'v) snmp_api \<Rightarrow> 'r \<Rightarrow> 'r \<Rightarrow> bool" where
  "same_input S r r' \<longleftrightarrow>
     vb_integer S r' = vb_integer S r \<and> vb_string S r' = vb_string S r \<and>
     vb_val_len S r' = vb_val_len S r \<and> check_vb_type S r' = check_vb_type S r \<and>
     extract_table_info S r' = extract_table_info S r \<and>
     extract_iterator_context S r' = extract_iterator_context S r"

lemma same_input_refl [simp]: "same_input S r r"
  by (simp add: same_input_def)

lemma same_input_trans: "same_input S a b \<Longrightarrow> same_input S b c \<Longrightarrow> same_input S a c"
  by (simp add: same_input_def)

locale snmp_laws =
  fixes S :: "('r, 'i, 'v) snmp_api"
    and req_error :: "'r \<Rightarrow> snmp_err"
    and req_result :: "'r \<Rightarrow> (asn_type \<times> (clong + bytes)) option"
  assumes error_set: "e \<noteq> SNMP_ERR_NOERROR \<Longrightarrow> req_error (set_request_error S r e) \<noteq> SNMP_ERR_NOERROR"
    and error_first: "req_error r = SNMP_ERR_NOERROR \<Longrightarrow> req_error (set_request_error S r e) = e"
    and error_input: "same_input S r (set_request_error S r e)"
    and error_data: "get_list_data S (set_request_error S r e) = get_list_data S r"
    and add_fresh: "get_list_data S r n = None \<Longrightarrow> get_list_data S (add_list_data S r n u) n = Some u"
    and add_other: "m \<noteq> n \<Longrightarrow> get_list_data S (add_list_data S r n u) m = get_list_data S r m"
    and add_input: "same_input S r (add_list_data S r n u)"
    and add_error: "req_error (add_list_data S r n u) = req_error r"
    and remove_other: "m \<noteq> n \<Longrightarrow> get_list_data S (remove_list_data S r n) m = get_list_data S r m"
    and remove_input: "same_input S r (remove_list_data S r n)"
    and remove_error: "req_error (remove_list_data S r n) = req_error r"
    and integer_result: "req_result (set_var_typed_integer S r t v) = Some (t, Inl v)"
    and value_result: "req_result (set_var_typed_value S r t b) = Some (t, Inr b)"
    and integer_error: "req_error (set_var_typed_integer S r t v) = req_error r"
    and value_error: "req_error (set_var_typed_value S r t b) = req_error r"

text \<open>
  The index codec of net-snmp is one to one: what \<open>build_oid_noalloc\<close> reports of the varbinds
  that \<open>parse_oid_indexes\<close> filled from an instance is that instance.
\<close>

locale snmp_index_laws =
  fixes S :: "('r, 'i, 'v) snmp_api"
  assumes build_parse: "parse_oid_indexes S ids i = (True, i') \<Longrightarrow> length ids \<le> n \<Longrightarrow>
     build_oid_noalloc S n i' = (True, ids)"

text \<open>
  Which instances parse depends on the index syntax of the table alone, not on the values the
  varbinds happen to hold.
\<close>

locale snmp_index_syntax = snmp_index_laws +
  fixes accepts :: "oid \<Rightarrow> bool"
  assumes parse_accepts: "fst (parse_oid_indexes S ids i) = accepts ids"

text \<open>The varbind lists of traps, while nothing runs out of memory.\<close>

locale snmp_varlists =
  fixes S :: "('r, 'i, 'v) snmp_api"
    and varbinds :: "'v \<Rightarrow> (oid \<times> asn_type \<times> vb_value) list"
  assumes varlist_grows: "\<exists>w. varlist_add S vl oid t x = Some w \<and>
     varbinds w = (case vl of None \<Rightarrow> [] | Some v \<Rightarrow> varbinds v) @ [(oid, t, x)]"

subsection \<open>An executable instance\<close>

text \<open>Requests for scalars and for a table indexed by one Unsigned32.\<close>

record demo_request =
  dr_type :: asn_type
  dr_integer :: clong
  dr_string :: "bytes option"
  dr_error :: snmp_err
  dr_result :: "(asn_type \<times> (clong + bytes)) option"
  dr_data :: "(string \<times> stash) list"
  dr_info :: "clong table_request_info option"
  dr_context :: bool

definition snmp_demo :: "(demo_request, clong, (oid \<times> asn_type \<times> vb_value) list) snmp_api" where
  "snmp_demo = \<lparr>
     check_vb_type = (\<lambda>r t. if dr_type r = t then SNMP_ERR_NOERROR else SNMP_ERR_WRONGTYPE),
     vb_integer = dr_integer,
     vb_string = dr_string,
     vb_val_len = (\<lambda>r. case dr_string r of None \<Rightarrow> 0 | Some s \<Rightarrow> length s),
     set_request_error = (\<lambda>r e. if dr_error r = SNMP_ERR_NOERROR then r\<lparr>dr_error := e\<rparr> else r),
     set_var_typed_integer = (\<lambda>r t v. r\<lparr>dr_result := Some (t, Inl v)\<rparr>),
     set_var_typed_value = (\<lambda>r t b. r\<lparr>dr_result := Some (t, Inr b)\<rparr>),
     add_list_data = (\<lambda>r n u. r\<lparr>dr_data := dr_data r @ [(n, u)]\<rparr>),
     get_list_data = (\<lambda>r n. map_of (dr_data r) n),
     remove_list_data = (\<lambda>r n. r\<lparr>dr_data := filter (\<lambda>(m, _). m \<noteq> n) (dr_data r)\<rparr>),
     extract_table_info = dr_info,
     extract_iterator_context = dr_context,
     parse_oid_indexes = (\<lambda>ids i. case ids of [x] \<Rightarrow> (True, x) | _ \<Rightarrow> (False, i)),
     build_oid_noalloc = (\<lambda>n i. if n = 0 then (False, []) else (True, [i])),
     varlist_add = (\<lambda>vl oid t x. Some ((case vl of None \<Rightarrow> [] | Some v \<Rightarrow> v) @ [(oid, t, x)]))\<rparr>"

lemma map_of_filter_other:
  "m \<noteq> n \<Longrightarrow> map_of (filter (\<lambda>(k, _). k \<noteq> n) xs) m = map_of xs m"
  by (induction xs) auto

interpretation snmp_demo: snmp_laws snmp_demo dr_error dr_result
  by unfold_locales
    (auto simp: snmp_demo_def same_input_def map_of_filter_other map_add_Some_iff map_add_def
      split: option.splits)

interpretation snmp_demo: snmp_index_laws snmp_demo
  by unfold_locales (auto simp: snmp_demo_def split: list.splits)

interpretation snmp_demo: snmp_index_syntax snmp_demo "\<lambda>ids. length ids = 1"
  by unfold_locales (auto simp: snmp_demo_def split: list.splits)

interpretation snmp_demo: snmp_varlists snmp_demo id
  by unfold_locales (simp add: snmp_demo_def split: option.splits)

end
