(* ===== verification/Table_Oid.thy ===== *)
theory Table_Oid
  imports Net_Snmp
begin

text \<open>
  \<open>src/table_oid.c\<close>: conversions between row instances and net-snmp index varbinds. A pointer
  that may be \<open>NULL\<close> is an option; the varbind list that is filled and the instance that is
  written come back with the result. The C code zeroes \<open>out\<close> before it checks the
  sub-identifiers, so a rejected one leaves the sub-identifiers before it in the array.
\<close>

definition table_instance_to_indexes ::
  "('r, 'i, 'v) snmp_api \<Rightarrow> table_instance option \<Rightarrow> 'i option \<Rightarrow> int \<times> 'i option" where
  "table_instance_to_indexes S inst put_index_data =
     (case (inst, put_index_data) of
        (Some i, Some idx) \<Rightarrow>
          if ti_len i = 0 \<or> ti_len i > TABLE_ROW_SUBID_MAX then (- 1, put_index_data)
          else (case parse_oid_indexes S (map ucast (inst_oid i)) idx of (ok, idx') \<Rightarrow>
            if \<not> ok then (- 1, Some idx') else (0, Some idx'))
      | _ \<Rightarrow> (- 1, put_index_data))"

text \<open>The copy loop: the sub-identifiers copied so far and whether all of them fit.\<close>

fun copy_subids :: "oid \<Rightarrow> uint32 list \<Rightarrow> bool \<times> uint32 list" where
  "copy_subids [] acc = (True, acc)"
| "copy_subids (x # xs) acc =
     (if x > 0xFFFFFFFF then (False, acc) else copy_subids xs (acc @ [ucast x]))"

definition table_instance_from_indexes ::
  "('r, 'i, 'v) snmp_api \<Rightarrow> 'i table_request_info option \<Rightarrow> table_instance option \<Rightarrow>
   int \<times> table_instance option" where
  "table_instance_from_indexes S table_info out =
     (case (table_info, out) of
        (Some info, Some _) \<Rightarrow>
          (case tri_indexes info of
             None \<Rightarrow> (- 1, out)
           | Some idx \<Rightarrow>
               (case build_oid_noalloc S TABLE_ROW_SUBID_MAX idx of (ok, subids) \<Rightarrow>
                  if \<not> ok then (- 1, out)
                  else if length subids = 0 \<or> length subids > TABLE_ROW_SUBID_MAX then (- 1, out)
                  else (case copy_subids subids [] of (fits, acc) \<Rightarrow>
                    let arr = acc @ replicate (TABLE_ROW_SUBID_MAX - length acc) 0 in
                    if \<not> fits then (- 1, Some \<lparr>ti_subid = arr, ti_len = 0\<rparr>)
                    else (0, Some \<lparr>ti_subid = arr, ti_len = length subids\<rparr>))))
      | _ \<Rightarrow> (- 1, out))"

lemma copy_subids_spec:
  "copy_subids xs acc =
     (\<forall>x \<in> set xs. x \<le> 0xFFFFFFFF,
      acc @ map ucast (takeWhile (\<lambda>x. x \<le> 0xFFFFFFFF) xs))"
  by (induction xs arbitrary: acc) (auto simp: not_le)

lemma ucast_32_64_le: "(ucast (x :: uint32) :: uint64) \<le> 0xFFFFFFFF"
proof -
  have "unat (ucast x :: uint64) = unat x"
    using unat_32_max [of x] by (simp add: unsigned_ucast_eq take_bit_nat_eq_self)
  then show ?thesis using unat_32_max [of x] by (simp add: word_le_nat_alt)
qed

lemma copy_subids_widened: "copy_subids (map ucast xs) acc = (True, acc @ xs)"
proof -
  have "takeWhile (\<lambda>x. x \<le> 0xFFFFFFFF) (map ucast xs) = (map ucast xs :: oid)"
    by (rule takeWhile_eq_all_conv [THEN iffD2]) (auto simp: ucast_32_64_le)
  moreover have "map ucast (map ucast xs :: oid) = xs" by (simp add: comp_def)
  ultimately show ?thesis
    by (simp add: copy_subids_spec ucast_32_64_le del: takeWhile_eq_all_conv map_map)
qed

text \<open>An instance that \<open>table_instance_from_indexes\<close> accepts is a proper row instance.\<close>

lemma from_indexes_inst:
  assumes "table_instance_from_indexes S info (Some old) = (0, out)"
  shows "\<exists>xs. out = Some (inst_of xs) \<and> valid_oid xs"
proof -
  from assms obtain i idx subids where i: "info = Some i" "tri_indexes i = Some idx"
    "build_oid_noalloc S TABLE_ROW_SUBID_MAX idx = (True, subids)"
    and len: "subids \<noteq> []" "length subids \<le> TABLE_ROW_SUBID_MAX"
    and fits: "\<forall>x \<in> set subids. x \<le> 0xFFFFFFFF"
    by (auto simp: table_instance_from_indexes_def copy_subids_spec Let_def
        split: option.splits prod.splits if_splits)
  have "takeWhile (\<lambda>x. x \<le> 0xFFFFFFFF) subids = subids"
    using fits by (simp add: takeWhile_eq_all_conv)
  with assms i len fits show ?thesis
    by (intro exI [of _ "map ucast subids"])
      (auto simp: table_instance_from_indexes_def copy_subids_spec inst_of_def valid_oid_def Let_def)
qed

context snmp_index_laws
begin

text \<open>The row a request carries is the row the iterator offered.\<close>

lemma from_to_indexes:
  assumes "valid_oid xs"
    and "table_instance_to_indexes S (Some (inst_of xs)) (Some idx) = (0, Some idx')"
    and "tri_indexes info = Some idx'"
  shows "table_instance_from_indexes S (Some info) (Some old) = (0, Some (inst_of xs))"
proof -
  from assms(2) have "parse_oid_indexes S (map ucast xs) idx = (True, idx')"
    by (auto simp: table_instance_to_indexes_def split: if_splits prod.splits)
  then have "build_oid_noalloc S TABLE_ROW_SUBID_MAX idx' = (True, map ucast xs)"
    using assms(1) by (intro build_parse) (auto simp: valid_oid_def)
  with assms(1,3) show ?thesis
    by (auto simp: table_instance_from_indexes_def copy_subids_widened inst_of_def valid_oid_def Let_def)
qed

end

end
