(* ===== verification/Agent.thy ===== *)
theory Agent
  imports Table_Oid
begin

text \<open>
  The state of the subagent process that the MIB handlers, the trap module and the IPC server
  share: the globals \<open>config_env\<close> and \<open>cache_env\<close> of \<open>include/subagent_env.h\<close>, the alarm state
  of \<open>demo_trap.c\<close>, the skipped-key counters of the two table modules, and the traps handed to
  \<open>send_v2trap\<close> so far. The accessors run one storage operation on one of the environments.
\<close>

datatype temp_state = TEMP_STATE_CLEAR | TEMP_STATE_ALARM

record ('e, 'v) agent =
  ag_envs :: "'e envs"
  ag_temp_state :: temp_state
  ag_traps :: "'v list"
  ag_port_skipped :: nat
  ag_sensor_skipped :: nat

definition ag_put_env :: "('e, 'v) agent \<Rightarrow> env_id \<Rightarrow> 'e storage_env option \<Rightarrow> ('e, 'v) agent" where
  "ag_put_env st i envp = st\<lparr>ag_envs := (ag_envs st)(i := envp)\<rparr>"

text \<open>A local the C code leaves uninitialised starts as zero here; it is read after success only.\<close>

definition ag_get_int ::
  "('e, 't, 'c) platform \<Rightarrow> ('e, 'v) agent \<Rightarrow> env_id \<Rightarrow> string \<Rightarrow> storage_rc \<times> int32 \<times> ('e, 'v) agent" where
  "ag_get_int L st i key =
     (case storage_get_int L (ag_envs st i) (Some key) (Some 0) of (rc, out, envp) \<Rightarrow>
        (rc, the out, ag_put_env st i envp))"

definition ag_get_uint ::
  "('e, 't, 'c) platform \<Rightarrow> ('e, 'v) agent \<Rightarrow> env_id \<Rightarrow> string \<Rightarrow> storage_rc \<times> uint32 \<times> ('e, 'v) agent" where
  "ag_get_uint L st i key =
     (case storage_get_uint L (ag_envs st i) (Some key) (Some 0) of (rc, out, envp) \<Rightarrow>
        (rc, the out, ag_put_env st i envp))"

text \<open>Reading into a buffer of \<open>cap\<close> bytes: the buffer and the length afterwards.\<close>

definition ag_get_bytes ::
  "('e, 't, 'c) platform \<Rightarrow> ('e, 'v) agent \<Rightarrow> env_id \<Rightarrow> string \<Rightarrow> nat \<Rightarrow>
   storage_rc \<times> bytes \<times> nat \<times> ('e, 'v) agent" where
  "ag_get_bytes L st i key cap =
     (case storage_get_bytes L (ag_envs st i) (Some key) (Some (replicate cap 0)) (Some cap) of
        (rc, (buf, len), envp) \<Rightarrow> (rc, the buf, the len, ag_put_env st i envp))"

definition ag_set_int ::
  "('e, 't, 'c) platform \<Rightarrow> ('e, 'v) agent \<Rightarrow> env_id \<Rightarrow> string \<Rightarrow> int32 \<Rightarrow> storage_rc \<times> ('e, 'v) agent" where
  "ag_set_int L st i key v =
     (case storage_set_int L (ag_envs st i) (Some key) v of (rc, envp) \<Rightarrow> (rc, ag_put_env st i envp))"

definition ag_set_uint ::
  "('e, 't, 'c) platform \<Rightarrow> ('e, 'v) agent \<Rightarrow> env_id \<Rightarrow> string \<Rightarrow> uint32 \<Rightarrow> storage_rc \<times> ('e, 'v) agent" where
  "ag_set_uint L st i key v =
     (case storage_set_uint L (ag_envs st i) (Some key) v of (rc, envp) \<Rightarrow> (rc, ag_put_env st i envp))"

definition ag_set_bytes ::
  "('e, 't, 'c) platform \<Rightarrow> ('e, 'v) agent \<Rightarrow> env_id \<Rightarrow> string \<Rightarrow> bytes option \<Rightarrow> nat \<Rightarrow>
   storage_rc \<times> ('e, 'v) agent" where
  "ag_set_bytes L st i key buf len =
     (case storage_set_bytes L (ag_envs st i) (Some key) buf len of (rc, envp) \<Rightarrow>
        (rc, ag_put_env st i envp))"

definition ag_delete ::
  "('e, 't, 'c) platform \<Rightarrow> ('e, 'v) agent \<Rightarrow> env_id \<Rightarrow> string \<Rightarrow> storage_rc \<times> ('e, 'v) agent" where
  "ag_delete L st i key =
     (case storage_delete L (ag_envs st i) (Some key) of (rc, envp) \<Rightarrow> (rc, ag_put_env st i envp))"

lemmas ag_defs = ag_get_int_def ag_get_uint_def ag_get_bytes_def ag_set_int_def ag_set_uint_def
  ag_set_bytes_def ag_delete_def ag_put_env_def

subsection \<open>Effects\<close>

text \<open>
  The contents of the environments change by \<open>G\<close>; handles, flags and the rest of the agent
  stay. \<open>keep\<close> is the effect of an operation that changes nothing.
\<close>

type_synonym effect = "env_id \<Rightarrow> store \<Rightarrow> store"

definition keep :: effect where "keep i m = m"

definition upd :: "env_id \<Rightarrow> string \<Rightarrow> bytes option \<Rightarrow> effect" where
  "upd i k d j m = (if j = i then m(k := d) else m)"

definition ag_map :: "('e \<Rightarrow> store) \<Rightarrow> ('e, 'v) agent \<Rightarrow> env_id \<Rightarrow> store" where
  "ag_map emap st i = (case ag_envs st i of None \<Rightarrow> Map.empty | Some e \<Rightarrow> emap (se_env e))"

definition envs_effect ::
  "('e \<Rightarrow> store) \<Rightarrow> ('e \<Rightarrow> nat) \<Rightarrow> ('e \<Rightarrow> nat) \<Rightarrow> effect \<Rightarrow> 'e envs \<Rightarrow> 'e envs \<Rightarrow> bool" where
  "envs_effect emap txns cursors G envs envs' \<longleftrightarrow>
     (\<forall>i. rel_option (\<lambda>a b. same_handle txns cursors a b \<and> emap (se_env b) = G i (emap (se_env a)))
        (envs i) (envs' i))"

definition ag_effect ::
  "('e \<Rightarrow> store) \<Rightarrow> ('e \<Rightarrow> nat) \<Rightarrow> ('e \<Rightarrow> nat) \<Rightarrow> effect \<Rightarrow> ('e, 'v) agent \<Rightarrow> ('e, 'v) agent \<Rightarrow> bool" where
  "ag_effect emap txns cursors G st st' \<longleftrightarrow>
     envs_effect emap txns cursors G (ag_envs st) (ag_envs st') \<and>
     ag_temp_state st' = ag_temp_state st \<and> ag_traps st' = ag_traps st \<and>
     ag_port_skipped st' = ag_port_skipped st \<and> ag_sensor_skipped st' = ag_sensor_skipped st"

text \<open>An open environment that accepts writes.\<close>

definition ag_writable :: "('e, 'v) agent \<Rightarrow> env_id \<Rightarrow> bool" where
  "ag_writable st i = (case ag_envs st i of None \<Rightarrow> False | Some e \<Rightarrow> \<not> se_readonly e)"

lemma envs_effect_keep: "envs_effect emap txns cursors keep = envs_same emap txns cursors"
  by (intro ext) (simp add: envs_effect_def envs_same_def keep_def)

lemma envs_effect_trans:
  assumes "envs_effect emap txns cursors G a b" and "envs_effect emap txns cursors H b c"
  shows "envs_effect emap txns cursors (\<lambda>i m. H i (G i m)) a c"
proof -
  have "rel_option (\<lambda>x y. same_handle txns cursors x y \<and> emap (se_env y) = H i (G i (emap (se_env x))))
      (a i) (c i)" for i
    using assms unfolding envs_effect_def
    by (auto simp: option_rel_Some1 option_rel_Some2 dest!: spec [of _ i] intro: same_handle_trans
        elim!: option.rel_cases)
  then show ?thesis by (simp add: envs_effect_def)
qed

lemma envs_effect_cong:
  assumes "envs_effect emap txns cursors G a b"
    and "\<And>i e. a i = Some e \<Longrightarrow> G i (emap (se_env e)) = H i (emap (se_env e))"
  shows "envs_effect emap txns cursors H a b"
proof -
  have "rel_option (\<lambda>x y. same_handle txns cursors x y \<and> emap (se_env y) = H i (emap (se_env x)))
      (a i) (b i)" for i
    using assms unfolding envs_effect_def
    by (auto simp: option_rel_Some1 option_rel_Some2 dest!: spec [of _ i] elim!: option.rel_cases)
  then show ?thesis by (simp add: envs_effect_def)
qed

lemma envs_keep_trans:
  "envs_effect emap txns cursors keep a b \<Longrightarrow> envs_effect emap txns cursors G b c \<Longrightarrow>
     envs_effect emap txns cursors G a c"
  "envs_effect emap txns cursors G a b \<Longrightarrow> envs_effect emap txns cursors keep b c \<Longrightarrow>
     envs_effect emap txns cursors G a c"
  using envs_effect_trans [of emap txns cursors keep a b G c]
    envs_effect_trans [of emap txns cursors G a b keep c]
  by (simp_all add: keep_def)

lemma ag_effect_refl [simp]: "ag_effect emap txns cursors keep st st"
  by (simp add: ag_effect_def envs_effect_keep)

lemma ag_effect_trans:
  "ag_effect emap txns cursors G a b \<Longrightarrow> ag_effect emap txns cursors H b c \<Longrightarrow>
     ag_effect emap txns cursors (\<lambda>i m. H i (G i m)) a c"
  by (auto simp: ag_effect_def intro: envs_effect_trans)

lemma ag_keep_trans:
  "ag_effect emap txns cursors keep a b \<Longrightarrow> ag_effect emap txns cursors G b c \<Longrightarrow>
     ag_effect emap txns cursors G a c"
  "ag_effect emap txns cursors G a b \<Longrightarrow> ag_effect emap txns cursors keep b c \<Longrightarrow>
     ag_effect emap txns cursors G a c"
  by (auto simp: ag_effect_def intro: envs_keep_trans)

lemma envs_effect_map:
  "envs_effect emap txns cursors G (ag_envs st) (ag_envs st') \<Longrightarrow> ag_envs st i \<noteq> None \<Longrightarrow>
     ag_map emap st' i = G i (ag_map emap st i)"
  by (auto simp: envs_effect_def ag_map_def dest!: spec [of _ i] elim!: option.rel_cases)

lemma ag_effect_map: "ag_effect emap txns cursors G st st' \<Longrightarrow> ag_envs st i \<noteq> None \<Longrightarrow>
    ag_map emap st' i = G i (ag_map emap st i)"
  unfolding ag_effect_def by (blast intro: envs_effect_map)

lemma envs_keep_map: "envs_effect emap txns cursors keep (ag_envs st) (ag_envs st') \<Longrightarrow>
    ag_map emap st' i = ag_map emap st i"
  by (auto simp: envs_effect_def ag_map_def keep_def dest!: spec [of _ i] elim!: option.rel_cases)

lemma ag_keep_map: "ag_effect emap txns cursors keep st st' \<Longrightarrow> ag_map emap st' i = ag_map emap st i"
  by (auto simp: ag_effect_def intro: envs_keep_map)

lemma ag_map_open: "ag_map emap st i k = Some d \<Longrightarrow> ag_envs st i \<noteq> None"
  by (auto simp: ag_map_def split: option.splits)

lemma envs_effect_writable: "envs_effect emap txns cursors G (ag_envs st) (ag_envs st') \<Longrightarrow>
    ag_writable st' i = ag_writable st i"
  by (auto simp: envs_effect_def ag_writable_def same_handle_def dest!: spec [of _ i]
      elim!: option.rel_cases)

lemma ag_effect_rest: "ag_effect emap txns cursors G st st' \<Longrightarrow>
    ag_temp_state st' = ag_temp_state st \<and> ag_traps st' = ag_traps st"
  by (simp add: ag_effect_def)

lemma ag_effect_put_env:
  assumes "ag_envs st i = Some env" and "same_handle txns cursors env env'"
    and "emap (se_env env') = G i (emap (se_env env))" and "\<And>j m. j \<noteq> i \<Longrightarrow> G j m = m"
  shows "ag_effect emap txns cursors G st (ag_put_env st i (Some env'))"
  using assms by (auto simp: ag_effect_def envs_effect_def ag_put_env_def intro: option.rel_refl)

lemma ag_put_env_same: "ag_envs st i = envp \<Longrightarrow> ag_put_env st i envp = st"
  by (auto simp: ag_put_env_def)

subsection \<open>The accessors\<close>

text \<open>What a read tells about a cell; a value counts on success only.\<close>

definition cell_read ::
  "(bytes \<Rightarrow> storage_rc \<times> 'x option) \<Rightarrow> bytes option \<Rightarrow> storage_rc \<Rightarrow> 'x \<Rightarrow> bool" where
  "cell_read dec cell rc v \<longleftrightarrow>
     (rc = STORAGE_OK \<longrightarrow> (\<exists>d. cell = Some d \<and> dec d = (STORAGE_OK, Some v))) \<and>
     (rc = STORAGE_ERR_NOTFOUND \<longrightarrow> cell = None)"

lemma reads_as_cell:
  assumes "reads_as dec m k rc out" and "\<And>d o'. dec d = (STORAGE_OK, o') \<Longrightarrow> o' \<noteq> None"
  shows "cell_read dec (m k) rc (the out)"
  using assms by (fastforce simp: reads_as_def cell_read_def)

lemma decode_some:
  "decode_fixed ty n rd d = (STORAGE_OK, x) \<Longrightarrow> x \<noteq> None"
  "decode_bytes cap d = (STORAGE_OK, y) \<Longrightarrow> y \<noteq> None"
  by (auto simp: decode_fixed_def decode_bytes_def split: prod.splits if_splits)

lemma storage_null_env [simp]:
  "storage_get_int L None key i = (STORAGE_ERR_INVAL, i, None)"
  "storage_get_uint L None key u = (STORAGE_ERR_INVAL, u, None)"
  "storage_get_bytes L None key buf len = (STORAGE_ERR_INVAL, (buf, len), None)"
  "storage_set_int L None key i' = (STORAGE_ERR_INVAL, None)"
  "storage_set_uint L None key u' = (STORAGE_ERR_INVAL, None)"
  "storage_set_bytes L None key buf' len' = (STORAGE_ERR_INVAL, None)"
  "storage_delete L None key = (STORAGE_ERR_INVAL, None)"
  by (simp_all add: storage_op_defs with_read_txn_def with_write_txn_def)

definition payload_of :: "bytes option \<Rightarrow> nat \<Rightarrow> bytes" where
  "payload_of buf len = (case buf of None \<Rightarrow> [] | Some b \<Rightarrow> take len b)"

lemma payload_of_Some [simp]: "payload_of (Some b) len = take len b"
  by (simp add: payload_of_def)

context lmdb_laws
begin

abbreviation "effect \<equiv> ag_effect env_map live_txns live_cursors"
abbreviation "contents \<equiv> ag_map env_map"

text \<open>An operation that leaves the environment it ran on as it was.\<close>

lemma ag_read_frame:
  assumes "ag_envs st i = None \<Longrightarrow> envp = None"
    and "\<And>env. ag_envs st i = Some env \<Longrightarrow> \<exists>env'. envp = Some env' \<and>
      same_handle live_txns live_cursors env env' \<and> env_map (se_env env') = env_map (se_env env)"
  shows "effect keep st (ag_put_env st i envp)"
proof (cases "ag_envs st i")
  case None
  with assms(1) show ?thesis by (simp add: ag_put_env_same)
next
  case (Some env)
  with assms(2) show ?thesis by (auto simp: keep_def intro!: ag_effect_put_env)
qed

lemma ag_get_int_reads:
  assumes "ag_get_int L st i k = (rc, v, st')"
  shows "effect keep st st'" and "cell_read decode_int (contents st i k) rc v"
proof -
  obtain out envp where g: "storage_get_int L (ag_envs st i) (Some k) (Some 0) = (rc, out, envp)"
    "v = the out" "st' = ag_put_env st i envp"
    using assms by (auto simp: ag_get_int_def split: prod.splits)
  show "effect keep st st'"
    unfolding g(3) by (rule ag_read_frame) (use g(1) read_frames(1) in auto)
  show "cell_read decode_int (contents st i k) rc v"
    using g reads_as_cell [OF storage_get_int_reads decode_some(1)]
    by (cases "ag_envs st i") (auto simp: ag_map_def cell_read_def)
qed

lemma ag_get_uint_reads:
  assumes "ag_get_uint L st i k = (rc, v, st')"
  shows "effect keep st st'" and "cell_read decode_uint (contents st i k) rc v"
proof -
  obtain out envp where g: "storage_get_uint L (ag_envs st i) (Some k) (Some 0) = (rc, out, envp)"
    "v = the out" "st' = ag_put_env st i envp"
    using assms by (auto simp: ag_get_uint_def split: prod.splits)
  show "effect keep st st'"
    unfolding g(3) by (rule ag_read_frame) (use g(1) read_frames(2) in auto)
  show "cell_read decode_uint (contents st i k) rc v"
    using g reads_as_cell [OF storage_get_uint_reads decode_some(1)]
    by (cases "ag_envs st i") (auto simp: ag_map_def cell_read_def)
qed

lemma ag_get_bytes_reads:
  assumes "ag_get_bytes L st i k cap = (rc, buf, len, st')"
  shows "effect keep st st'" and "cell_read (decode_bytes cap) (contents st i k) rc (take len buf)"
proof -
  obtain bufp lenp envp where
    g: "storage_get_bytes L (ag_envs st i) (Some k) (Some (replicate cap 0)) (Some cap) =
        (rc, (bufp, lenp), envp)"
    "buf = the bufp" "len = the lenp" "st' = ag_put_env st i envp"
    using assms by (auto simp: ag_get_bytes_def split: prod.splits)
  show "effect keep st st'"
    unfolding g(4) by (rule ag_read_frame) (use g(1) read_frames(4) in auto)
  show "cell_read (decode_bytes cap) (contents st i k) rc (take len buf)"
    using g reads_as_cell [OF storage_get_bytes_reads decode_some(2)]
    by (cases "ag_envs st i") (auto simp: ag_map_def cell_read_def)
qed

text \<open>A write is all or nothing.\<close>

lemma ag_write_effect:
  assumes "ag_envs st i = None \<Longrightarrow> rc \<noteq> STORAGE_OK \<and> envp = None"
    and "\<And>env. ag_envs st i = Some env \<Longrightarrow> \<exists>env'. envp = Some env' \<and>
      same_handle live_txns live_cursors env env' \<and> env_map (se_env env') =
        (if rc = STORAGE_OK then (env_map (se_env env))(k := d) else env_map (se_env env))"
  shows "effect (if rc = STORAGE_OK then upd i k d else keep) st (ag_put_env st i envp)"
proof (cases "ag_envs st i")
  case None
  with assms(1) show ?thesis by (simp add: ag_put_env_same)
next
  case (Some env)
  with assms(2) show ?thesis by (auto simp: keep_def upd_def intro!: ag_effect_put_env)
qed

lemma ag_set_int_writes:
  assumes "ag_set_int L st i k v = (rc, st')"
  shows "effect (if rc = STORAGE_OK then upd i k (Some (encode_int v)) else keep) st st'"
proof -
  obtain envp where g: "storage_set_int L (ag_envs st i) (Some k) v = (rc, envp)"
    "st' = ag_put_env st i envp"
    using assms by (auto simp: ag_set_int_def split: prod.splits)
  show ?thesis unfolding g(2)
    by (rule ag_write_effect) (use g(1) storage_set_int_writes in auto)
qed

lemma ag_set_uint_writes:
  assumes "ag_set_uint L st i k v = (rc, st')"
  shows "effect (if rc = STORAGE_OK then upd i k (Some (encode_uint v)) else keep) st st'"
proof -
  obtain envp where g: "storage_set_uint L (ag_envs st i) (Some k) v = (rc, envp)"
    "st' = ag_put_env st i envp"
    using assms by (auto simp: ag_set_uint_def split: prod.splits)
  show ?thesis unfolding g(2)
    by (rule ag_write_effect) (use g(1) storage_set_uint_writes in auto)
qed

lemma storage_set_bytes_writes':
  assumes "storage_set_bytes L (Some env) (Some k) buf len = (rc, envp)"
  shows "\<exists>env'. envp = Some env' \<and> same_handle live_txns live_cursors env env' \<and>
    env_map (se_env env') =
      (if rc = STORAGE_OK then (env_map (se_env env))(k \<mapsto> encode_bytes (payload_of buf len))
       else env_map (se_env env))"
  using assms unfolding storage_set_bytes_def
  by (rule with_put_txn)
    (simp add: txn_set_bytes_impl_def encode_bytes_def payload_of_def split: if_splits)

lemma ag_set_bytes_writes:
  assumes "ag_set_bytes L st i k buf len = (rc, st')"
  shows "effect (if rc = STORAGE_OK then upd i k (Some (encode_bytes (payload_of buf len))) else keep) st st'"
proof -
  obtain envp where g: "storage_set_bytes L (ag_envs st i) (Some k) buf len = (rc, envp)"
    "st' = ag_put_env st i envp"
    using assms by (auto simp: ag_set_bytes_def split: prod.splits)
  show ?thesis unfolding g(2)
    by (rule ag_write_effect) (use g(1) storage_set_bytes_writes' in auto)
qed

lemma storage_delete_notfound:
  assumes "storage_delete L (Some env) (Some k) = (STORAGE_ERR_NOTFOUND, envp)"
  shows "env_map (se_env env) k = None"
proof -
  obtain rc t e where b: "mdb_txn_begin L (se_env env) False = (rc, t, e)"
    by (cases "mdb_txn_begin L (se_env env) False")
  have "rc \<noteq> MDB_NOTFOUND" using begin_codes [of "se_env env" False] b by simp
  obtain drc t' where d: "mdb_del L t k = (drc, t')" by fastforce
  obtain crc e' where c: "mdb_txn_commit L t' e = (crc, e')" by fastforce
  have "crc \<noteq> MDB_NOTFOUND" using commit_codes [of t' e] c by simp
  with \<open>rc \<noteq> MDB_NOTFOUND\<close> assms b c d have "rc = MDB_SUCCESS" "drc = MDB_NOTFOUND"
    by (auto simp: storage_delete_def with_write_txn_def begin_write_txn_def commit_write_txn_def
        txn_delete_impl_def validate_key_def Let_def split: if_splits)
  with b d begin_view [of "se_env env" False t e] del_missing [of t k t'] show ?thesis by simp
qed

text \<open>Deleting, with a missing key counted as success the way the undo code does.\<close>

lemma ag_delete_writes:
  assumes "ag_delete L st i k = (rc, st')"
  shows "effect (if rc = STORAGE_OK then upd i k None else keep) st st'"
    and "rc = STORAGE_ERR_NOTFOUND \<Longrightarrow> contents st i k = None"
proof -
  obtain envp where g: "storage_delete L (ag_envs st i) (Some k) = (rc, envp)"
    "st' = ag_put_env st i envp"
    using assms by (auto simp: ag_delete_def split: prod.splits)
  show "effect (if rc = STORAGE_OK then upd i k None else keep) st st'"
    unfolding g(2)
    by (rule ag_write_effect) (use g(1) storage_delete_removes in auto)
  show "contents st i k = None" if "rc = STORAGE_ERR_NOTFOUND"
    using that g(1) storage_delete_notfound by (auto simp: ag_map_def split: option.splits)
qed

end

lemma ag_fst:
  "fst (ag_get_int L st i k) = fst (storage_get_int L (ag_envs st i) (Some k) (Some 0))"
  "fst (ag_get_uint L st i k) = fst (storage_get_uint L (ag_envs st i) (Some k) (Some 0))"
  "fst (ag_get_bytes L st i k cap) =
     fst (storage_get_bytes L (ag_envs st i) (Some k) (Some (replicate cap 0)) (Some cap))"
  "fst (ag_set_int L st i k v) = fst (storage_set_int L (ag_envs st i) (Some k) v)"
  "fst (ag_set_uint L st i k u) = fst (storage_set_uint L (ag_envs st i) (Some k) u)"
  "fst (ag_set_bytes L st i k buf len) = fst (storage_set_bytes L (ag_envs st i) (Some k) buf len)"
  "fst (ag_delete L st i k) = fst (storage_delete L (ag_envs st i) (Some k))"
  by (simp_all add: ag_defs split: prod.splits)

context lmdb_reliable
begin

lemma ag_get_total:
  assumes "key_ok k" and "ag_envs st i \<noteq> None"
  shows "fst (ag_get_int L st i k) =
      (case contents st i k of None \<Rightarrow> STORAGE_ERR_NOTFOUND | Some d \<Rightarrow> fst (decode_int d))"
    and "fst (ag_get_uint L st i k) =
      (case contents st i k of None \<Rightarrow> STORAGE_ERR_NOTFOUND | Some d \<Rightarrow> fst (decode_uint d))"
    and "fst (ag_get_bytes L st i k cap) =
      (case contents st i k of None \<Rightarrow> STORAGE_ERR_NOTFOUND | Some d \<Rightarrow> fst (decode_bytes cap d))"
  using assms(2) get_int_total [OF assms(1)] get_uint_total [OF assms(1)] get_bytes_total [OF assms(1)]
  by (auto simp: ag_fst ag_map_def get_int_def get_uint_def get_bytes_def)

lemma ag_set_total:
  assumes "key_ok k" and "ag_writable st i"
  shows "fst (ag_set_int L st i k v) = STORAGE_OK"
    and "fst (ag_set_uint L st i k u) = STORAGE_OK"
    and "fst (ag_delete L st i k) =
      (if contents st i k = None then STORAGE_ERR_NOTFOUND else STORAGE_OK)"
  using assms(2) set_cell_total [OF assms(1)] storage_delete_total [OF assms(1)]
  by (auto simp: ag_fst ag_map_def ag_writable_def set_int_def set_uint_def split: option.splits)

lemma ag_set_bytes_total:
  assumes "key_ok k" and "ag_writable st i" and "buf = None \<Longrightarrow> len = 0"
  shows "fst (ag_set_bytes L st i k buf len) = STORAGE_OK"
proof (cases "ag_envs st i")
  case (Some env)
  with assms have "fst (storage_set_bytes L (Some env) (Some k) buf len) = STORAGE_OK"
    unfolding storage_set_bytes_def ag_writable_def
    by (intro with_write_txn_runs) (auto simp: txn_set_bytes_impl_def malloc_total txn_put_raw_total)
  with Some show ?thesis by (simp add: ag_fst)
qed (use assms in \<open>simp add: ag_writable_def\<close>)

end

subsection \<open>Storage modes\<close>

text \<open>
  \<open>include/storage_mode.h\<close>: the backend of every writable object is chosen at compile time;
  read-only objects always live in the cache.
\<close>

datatype storage_mode = STORAGE_MODE_PERSISTENT | STORAGE_MODE_VOLATILE

definition STORAGE_MODE_deviceName :: storage_mode where
  "STORAGE_MODE_deviceName = STORAGE_MODE_PERSISTENT"
definition STORAGE_MODE_tempThresholdMilliC :: storage_mode where
  "STORAGE_MODE_tempThresholdMilliC = STORAGE_MODE_VOLATILE"
definition STORAGE_MODE_adminStatusExt :: storage_mode where
  "STORAGE_MODE_adminStatusExt = STORAGE_MODE_PERSISTENT"
definition STORAGE_MODE_sampleIntervalSec :: storage_mode where
  "STORAGE_MODE_sampleIntervalSec = STORAGE_MODE_PERSISTENT"
definition STORAGE_MODE_portDescr :: storage_mode where
  "STORAGE_MODE_portDescr = STORAGE_MODE_PERSISTENT"
definition STORAGE_MODE_portAdminStatus :: storage_mode where
  "STORAGE_MODE_portAdminStatus = STORAGE_MODE_PERSISTENT"
definition STORAGE_MODE_portAlarmThresholdMilliC :: storage_mode where
  "STORAGE_MODE_portAlarmThresholdMilliC = STORAGE_MODE_VOLATILE"

text \<open>The \<open>#if STORAGE_MODE_x == STORAGE_MODE_PERSISTENT\<close> selection.\<close>

definition backend :: "storage_mode \<Rightarrow> env_id" where
  "backend m = (if m = STORAGE_MODE_PERSISTENT then Config_Env else Cache_Env)"

lemmas storage_mode_defs [simp] = backend_def STORAGE_MODE_deviceName_def
  STORAGE_MODE_tempThresholdMilliC_def STORAGE_MODE_adminStatusExt_def
  STORAGE_MODE_sampleIntervalSec_def STORAGE_MODE_portDescr_def STORAGE_MODE_portAdminStatus_def
  STORAGE_MODE_portAlarmThresholdMilliC_def

end
