(* ===== verification/Demo_Trap.thy ===== *)
theory Demo_Trap
  imports Agent
begin

text \<open>
  \<open>src/demo_trap.c\<close>: the temperature alarm. The module re-reads both objects from storage on
  every call, keeps one bit of state between calls and hands a trap to net-snmp on the
  clear-to-alarm edge. \<open>threshold - 500\<close> is an \<open>int32_t\<close> subtraction, so it wraps here.
\<close>

abbreviation (input) TEMP_ALARM_HYSTERESIS_MILLIC :: int32 where
  "TEMP_ALARM_HYSTERESIS_MILLIC \<equiv> 500"

definition snmp_trap_oid :: oid where "snmp_trap_oid = [1, 3, 6, 1, 6, 3, 1, 1, 4, 1, 0]"
definition demo_temp_alarm_oid :: oid where "demo_temp_alarm_oid = [1, 3, 6, 1, 4, 1, 99999, 0, 1]"
definition cpu_temp_oid :: oid where "cpu_temp_oid = [1, 3, 6, 1, 4, 1, 99999, 2, 1, 0]"
definition temp_threshold_oid :: oid where "temp_threshold_oid = [1, 3, 6, 1, 4, 1, 99999, 1, 2, 0]"

definition read_temp_threshold ::
  "('e, 't, 'c) platform \<Rightarrow> ('e, 'v) agent \<Rightarrow> storage_rc \<times> int32 \<times> ('e, 'v) agent" where
  "read_temp_threshold L st =
     ag_get_int L st (backend STORAGE_MODE_tempThresholdMilliC) ''tempThresholdMilliC''"

definition read_cpu_temp ::
  "('e, 't, 'c) platform \<Rightarrow> ('e, 'v) agent \<Rightarrow> storage_rc \<times> int32 \<times> ('e, 'v) agent" where
  "read_cpu_temp L st = ag_get_int L st Cache_Env ''cpuTempMilliC''"

text \<open>\<open>send_v2trap\<close> is the append to the log of traps.\<close>

definition send_v2trap :: "('e, 'v) agent \<Rightarrow> 'v option \<Rightarrow> ('e, 'v) agent" where
  "send_v2trap st vl = (case vl of None \<Rightarrow> st | Some v \<Rightarrow> st\<lparr>ag_traps := ag_traps st @ [v]\<rparr>)"

definition demo_send_temp_alarm ::
  "('e, 't, 'c) platform \<Rightarrow> ('r, 'i, 'v) snmp_api \<Rightarrow> ('e, 'v) agent \<Rightarrow> int \<times> ('e, 'v) agent" where
  "demo_send_temp_alarm L S st =
     (case read_cpu_temp L st of (rc, cpu_temp, st) \<Rightarrow>
        if rc = STORAGE_ERR_NOTFOUND then (0, st)
        else if rc \<noteq> STORAGE_OK then (- 1, st)
        else (case read_temp_threshold L st of (rc, threshold, st) \<Rightarrow>
          if rc = STORAGE_ERR_NOTFOUND then (0, st)
          else if rc \<noteq> STORAGE_OK then (- 1, st)
          else (case varlist_add S None snmp_trap_oid ASN_OBJECT_ID (Vb_Oid demo_temp_alarm_oid) of
              None \<Rightarrow> (- 1, st)
            | Some vl \<Rightarrow>
                let vl = varlist_add S (Some vl) cpu_temp_oid ASN_INTEGER (Vb_Int cpu_temp);
                    vl = varlist_add S vl temp_threshold_oid ASN_INTEGER (Vb_Int threshold)
                in (0, send_v2trap st vl))))"

definition demo_check_temp_alarm ::
  "('e, 't, 'c) platform \<Rightarrow> ('r, 'i, 'v) snmp_api \<Rightarrow> ('e, 'v) agent \<Rightarrow> int \<times> ('e, 'v) agent" where
  "demo_check_temp_alarm L S st =
     (case read_cpu_temp L st of (rc, cpu_temp, st) \<Rightarrow>
        if rc = STORAGE_ERR_NOTFOUND then (0, st)
        else if rc \<noteq> STORAGE_OK then (- 1, st)
        else (case read_temp_threshold L st of (rc, threshold, st) \<Rightarrow>
          if rc = STORAGE_ERR_NOTFOUND then (0, st)
          else if rc \<noteq> STORAGE_OK then (- 1, st)
          else if ag_temp_state st = TEMP_STATE_CLEAR then
            (if sint cpu_temp > sint threshold then
               (case demo_send_temp_alarm L S (st\<lparr>ag_temp_state := TEMP_STATE_ALARM\<rparr>) of (ret, st) \<Rightarrow>
                  if ret \<noteq> 0 then (- 1, st) else (1, st))
             else (0, st))
          else if sint cpu_temp \<le> sint (threshold - TEMP_ALARM_HYSTERESIS_MILLIC)
          then (0, st\<lparr>ag_temp_state := TEMP_STATE_CLEAR\<rparr>)
          else (0, st)))"

subsection \<open>The alarm as a state machine\<close>

text \<open>One evaluation of a sample: the next state and whether the edge fires.\<close>

fun alarm_step :: "temp_state \<Rightarrow> int32 \<Rightarrow> int32 \<Rightarrow> temp_state \<times> bool" where
  "alarm_step TEMP_STATE_CLEAR cpu th =
     (if sint cpu > sint th then (TEMP_STATE_ALARM, True) else (TEMP_STATE_CLEAR, False))"
| "alarm_step TEMP_STATE_ALARM cpu th =
     (if sint cpu \<le> sint (th - 500) then (TEMP_STATE_CLEAR, False) else (TEMP_STATE_ALARM, False))"

fun alarm_run :: "temp_state \<Rightarrow> (int32 \<times> int32) list \<Rightarrow> bool list \<times> temp_state" where
  "alarm_run s [] = ([], s)"
| "alarm_run s ((cpu, th) # xs) =
     (case alarm_step s cpu th of (s', fired) \<Rightarrow>
        case alarm_run s' xs of (fs, s'') \<Rightarrow> (fired # fs, s''))"

definition rearms :: "int32 \<times> int32 \<Rightarrow> bool" where
  "rearms x = (case x of (cpu, th) \<Rightarrow> sint cpu \<le> sint (th - 500))"

lemma length_alarm_run [simp]: "length (fst (alarm_run s xs)) = length xs"
  by (induction s xs rule: alarm_run.induct) (auto split: prod.splits)

lemma alarm_quiet:
  "j < length xs \<Longrightarrow> \<forall>k < j. \<not> rearms (xs ! k) \<Longrightarrow> \<not> fst (alarm_run TEMP_STATE_ALARM xs) ! j"
proof (induction xs arbitrary: j)
  case (Cons x xs)
  obtain cpu th where x: "x = (cpu, th)" by fastforce
  show ?case
  proof (cases j)
    case 0
    then show ?thesis by (simp add: x split: prod.splits)
  next
    case (Suc i)
    have "\<not> rearms x" using Cons.prems(2) Suc by force
    then have "alarm_step TEMP_STATE_ALARM cpu th = (TEMP_STATE_ALARM, False)"
      by (simp add: rearms_def x)
    moreover have "\<not> rearms (xs ! k)" if "k < i" for k
      using Cons.prems(2) [rule_format, of "Suc k"] that Suc by simp
    ultimately show ?thesis
      using Cons.IH [of i] Cons.prems(1) Suc by (auto simp: x split: prod.splits)
  qed
qed simp

text \<open>Between two traps the temperature went below the hysteresis band.\<close>

lemma alarm_run_rearms:
  "i < j \<Longrightarrow> j < length xs \<Longrightarrow> fst (alarm_run s xs) ! i \<Longrightarrow> fst (alarm_run s xs) ! j \<Longrightarrow>
     \<exists>k. i < k \<and> k < j \<and> rearms (xs ! k)"
proof (induction xs arbitrary: s i j)
  case (Cons x xs)
  obtain cpu th where x: "x = (cpu, th)" by fastforce
  obtain s' f where st: "alarm_step s cpu th = (s', f)" by fastforce
  obtain fs s'' where run: "alarm_run s' xs = (fs, s'')" by fastforce
  have eq: "fst (alarm_run s (x # xs)) = f # fs" by (simp add: x st run)
  obtain j' where j: "j = Suc j'" using Cons.prems(1) by (cases j) auto
  show ?case
  proof (cases i)
    case 0
    with Cons.prems(3) eq have f by simp
    with st have "s' = TEMP_STATE_ALARM" by (cases s) (auto split: if_splits)
    with alarm_quiet [of j' xs] Cons.prems(2,4) eq run j
    obtain k where k: "k < j'" "rearms (xs ! k)" by auto
    with 0 j show ?thesis by (intro exI [of _ "Suc k"]) auto
  next
    case (Suc i')
    with Cons.IH [of i' j' s'] Cons.prems eq run j obtain k where "i' < k" "k < j'" "rearms (xs ! k)"
      by auto
    with Suc j show ?thesis by (intro exI [of _ "Suc k"]) auto
  qed
qed simp

subsection \<open>The code refines the machine\<close>

text \<open>A temperature cell that holds \<open>v\<close>.\<close>

definition holds_int :: "bytes option \<Rightarrow> int32 \<Rightarrow> bool" where
  "holds_int cell v \<longleftrightarrow> (\<exists>d. cell = Some d \<and> decode_int d = (STORAGE_OK, Some v))"

lemma holds_int_fun: "holds_int c v \<Longrightarrow> holds_int c w \<Longrightarrow> v = w"
  by (auto simp: holds_int_def)

lemma holds_int_encode [simp]: "holds_int (Some (encode_int v)) w \<longleftrightarrow> v = w"
  by (auto simp: holds_int_def)

lemma cell_read_int: "cell_read decode_int c STORAGE_OK v \<longleftrightarrow> holds_int c v"
  by (simp add: cell_read_def holds_int_def)

definition temps_hold :: "('e \<Rightarrow> store) \<Rightarrow> ('e, 'v) agent \<Rightarrow> int32 \<Rightarrow> int32 \<Rightarrow> bool" where
  "temps_hold emap st cpu th \<longleftrightarrow>
     holds_int (ag_map emap st Cache_Env ''cpuTempMilliC'') cpu \<and>
     holds_int (ag_map emap st Cache_Env ''tempThresholdMilliC'') th"

definition trap_varbinds :: "int32 \<Rightarrow> int32 \<Rightarrow> (oid \<times> asn_type \<times> vb_value) list" where
  "trap_varbinds cpu th =
     [(snmp_trap_oid, ASN_OBJECT_ID, Vb_Oid demo_temp_alarm_oid),
      (cpu_temp_oid, ASN_INTEGER, Vb_Int cpu), (temp_threshold_oid, ASN_INTEGER, Vb_Int th)]"

lemma ag_effect_keep_envs: "ag_effect emap txns cursors keep st st' \<Longrightarrow>
    envs_same emap txns cursors (ag_envs st) (ag_envs st')"
  by (simp add: ag_effect_def envs_effect_keep)

text \<open>What sending may do: nothing but add one trap, and that only when it reports success.\<close>

definition send_result ::
  "('e \<Rightarrow> store) \<Rightarrow> ('e \<Rightarrow> nat) \<Rightarrow> ('e \<Rightarrow> nat) \<Rightarrow> ('e, 'v) agent \<Rightarrow> int \<times> ('e, 'v) agent \<Rightarrow> bool" where
  "send_result emap txns cursors st res \<longleftrightarrow>
     (case res of (ret, st') \<Rightarrow>
        ret \<in> {0, - 1} \<and> envs_same emap txns cursors (ag_envs st) (ag_envs st') \<and>
        ag_temp_state st' = ag_temp_state st \<and>
        (\<exists>tr. ag_traps st' = ag_traps st @ tr \<and> length tr \<le> (if ret = 0 then 1 else 0)))"

text \<open>
  What an evaluation may do: nothing, or one step of the machine on the stored temperatures,
  with at most one trap and that on the edge only.
\<close>

definition check_result ::
  "('e \<Rightarrow> store) \<Rightarrow> ('e \<Rightarrow> nat) \<Rightarrow> ('e \<Rightarrow> nat) \<Rightarrow> ('e, 'v) agent \<Rightarrow> int \<times> ('e, 'v) agent \<Rightarrow> bool" where
  "check_result emap txns cursors st res \<longleftrightarrow>
     (case res of (ret, st') \<Rightarrow>
        envs_same emap txns cursors (ag_envs st) (ag_envs st') \<and>
        (ret \<in> {0, - 1} \<and> ag_temp_state st' = ag_temp_state st \<and> ag_traps st' = ag_traps st \<or>
         (\<exists>cpu th fired tr. temps_hold emap st cpu th \<and>
            alarm_step (ag_temp_state st) cpu th = (ag_temp_state st', fired) \<and>
            ag_traps st' = ag_traps st @ tr \<and> length tr \<le> (if ret = 1 then 1 else 0) \<and>
            (if fired then ret \<in> {1, - 1} else ret = 0))))"

lemma check_result_step:
  assumes "temps_hold emap st cpu th" and "envs_same emap txns cursors (ag_envs st) (ag_envs st')"
    and "alarm_step (ag_temp_state st) cpu th = (ag_temp_state st', fired)"
    and "ag_traps st' = ag_traps st @ tr" and "length tr \<le> (if ret = 1 then 1 else 0)"
    and "if fired then ret \<in> {1, - 1} else ret = 0"
  shows "check_result emap txns cursors st (ret, st')"
  using assms unfolding check_result_def by blast

context lmdb_laws
begin

lemma read_temps:
  assumes "read_cpu_temp L st = (rc1, cpu, st1)" and "read_temp_threshold L st1 = (rc2, th, st2)"
  shows "effect keep st st1" and "effect keep st st2"
    and "rc1 = STORAGE_OK \<Longrightarrow> rc2 = STORAGE_OK \<Longrightarrow> temps_hold env_map st cpu th"
proof -
  note g1 = ag_get_int_reads [OF assms(1) [unfolded read_cpu_temp_def]]
  note g2 = ag_get_int_reads [OF assms(2) [unfolded read_temp_threshold_def]]
  show "effect keep st st1" by (rule g1)
  show "effect keep st st2" using g1(1) g2(1) by (rule ag_keep_trans)
  show "temps_hold env_map st cpu th" if "rc1 = STORAGE_OK" "rc2 = STORAGE_OK"
    using that g1(2) g2(2) ag_keep_map [OF g1(1), of Cache_Env]
    by (simp add: temps_hold_def cell_read_int)
qed

lemma demo_send_spec:
  "send_result env_map live_txns live_cursors st (demo_send_temp_alarm L S st)"
proof -
  obtain rc1 cpu st1 where r1: "read_cpu_temp L st = (rc1, cpu, st1)"
    by (cases "read_cpu_temp L st")
  obtain rc2 th st2 where r2: "read_temp_threshold L st1 = (rc2, th, st2)"
    by (cases "read_temp_threshold L st1")
  note e = read_temps(1,2) [OF r1 r2]
  show ?thesis
    using ag_effect_keep_envs [OF e(1)] ag_effect_keep_envs [OF e(2)]
      ag_effect_rest [OF e(1)] ag_effect_rest [OF e(2)]
    by (simp add: send_result_def demo_send_temp_alarm_def r1 r2 send_v2trap_def Let_def
        split: option.splits)
qed

lemma demo_check_spec:
  "check_result env_map live_txns live_cursors st (demo_check_temp_alarm L S st)"
proof -
  obtain rc1 cpu st1 where r1: "read_cpu_temp L st = (rc1, cpu, st1)"
    by (cases "read_cpu_temp L st")
  obtain rc2 th st2 where r2: "read_temp_threshold L st1 = (rc2, th, st2)"
    by (cases "read_temp_threshold L st1")
  note e = read_temps [OF r1 r2]
  note frames = ag_effect_keep_envs [OF e(1)] ag_effect_keep_envs [OF e(2)]
    ag_effect_rest [OF e(1)] ag_effect_rest [OF e(2)]
  show ?thesis
  proof (cases "rc1 = STORAGE_OK \<and> rc2 = STORAGE_OK")
    case False
    with frames show ?thesis
      by (auto simp: check_result_def demo_check_temp_alarm_def r1 r2)
  next
    case True
    with e(3) have temps: "temps_hold env_map st cpu th" by simp
    let ?st = "st2\<lparr>ag_temp_state := TEMP_STATE_ALARM\<rparr>"
    obtain ret st3 where s: "demo_send_temp_alarm L S ?st = (ret, st3)" by fastforce
    have send: "send_result env_map live_txns live_cursors ?st (ret, st3)"
      using demo_send_spec [of ?st S] s by simp
    then have "envs_same env_map live_txns live_cursors (ag_envs st) (ag_envs st3)"
      using frames(2) by (auto simp: send_result_def intro: envs_same_trans)
    with True frames send s show ?thesis
      by (cases "ag_temp_state st")
        (auto simp: send_result_def demo_check_temp_alarm_def r1 r2
          intro!: check_result_step [OF temps])
  qed
qed

end

context lmdb_reliable
begin

lemma read_temps_total:
  assumes "temps_hold env_map st cpu th"
  shows "\<exists>st1 st2. read_cpu_temp L st = (STORAGE_OK, cpu, st1) \<and>
    read_temp_threshold L st1 = (STORAGE_OK, th, st2)"
proof -
  have keys: "key_ok ''cpuTempMilliC''" "key_ok ''tempThresholdMilliC''" by (simp_all add: key_ok_def)
  have env: "ag_envs st Cache_Env \<noteq> None"
    using assms by (auto simp: temps_hold_def holds_int_def dest: ag_map_open)
  obtain rc1 cpu' st1 where r1: "read_cpu_temp L st = (rc1, cpu', st1)"
    by (cases "read_cpu_temp L st")
  obtain rc2 th' st2 where r2: "read_temp_threshold L st1 = (rc2, th', st2)"
    by (cases "read_temp_threshold L st1")
  have map: "contents st1 Cache_Env = contents st Cache_Env"
    using ag_keep_map [OF read_temps(1) [OF r1 r2]] .
  have env1: "ag_envs st1 Cache_Env \<noteq> None"
    using assms ag_map_open [of env_map st1 Cache_Env] map by (auto simp: temps_hold_def holds_int_def)
  have "rc1 = STORAGE_OK"
    using ag_get_total(1) [OF keys(1) env] r1 assms
    by (auto simp: read_cpu_temp_def temps_hold_def holds_int_def)
  moreover have "rc2 = STORAGE_OK"
    using ag_get_total(1) [OF keys(2) env1] r2 assms map
    by (auto simp: read_temp_threshold_def temps_hold_def holds_int_def)
  ultimately have "temps_hold env_map st cpu' th'" using read_temps(3) [OF r1 r2] by simp
  with assms have "cpu' = cpu" "th' = th" by (auto simp: temps_hold_def dest: holds_int_fun)
  with r1 r2 \<open>rc1 = STORAGE_OK\<close> \<open>rc2 = STORAGE_OK\<close> show ?thesis by blast
qed

text \<open>
  While the platform has resources an evaluation is exactly one step of the machine, and the
  edge sends one trap that carries both temperatures.
\<close>

lemma demo_send_total:
  assumes "snmp_varlists S varbinds" and "temps_hold env_map st cpu th"
  shows "\<exists>st' v. demo_send_temp_alarm L S st = (0, st') \<and> ag_traps st' = ag_traps st @ [v] \<and>
    varbinds v = trap_varbinds cpu th"
proof -
  from read_temps_total [OF assms(2)] obtain st1 st2 where
    r: "read_cpu_temp L st = (STORAGE_OK, cpu, st1)" "read_temp_threshold L st1 = (STORAGE_OK, th, st2)"
    by blast
  note grow = snmp_varlists.varlist_grows [OF assms(1)]
  obtain v1 where v1: "varlist_add S None snmp_trap_oid ASN_OBJECT_ID (Vb_Oid demo_temp_alarm_oid) = Some v1"
    "varbinds v1 = [(snmp_trap_oid, ASN_OBJECT_ID, Vb_Oid demo_temp_alarm_oid)]"
    using grow [of None] by fastforce
  obtain v2 where v2: "varlist_add S (Some v1) cpu_temp_oid ASN_INTEGER (Vb_Int cpu) = Some v2"
    "varbinds v2 = varbinds v1 @ [(cpu_temp_oid, ASN_INTEGER, Vb_Int cpu)]"
    using grow [of "Some v1"] by fastforce
  obtain v3 where v3: "varlist_add S (Some v2) temp_threshold_oid ASN_INTEGER (Vb_Int th) = Some v3"
    "varbinds v3 = varbinds v2 @ [(temp_threshold_oid, ASN_INTEGER, Vb_Int th)]"
    using grow [of "Some v2"] by fastforce
  have "ag_traps st2 = ag_traps st" using ag_effect_rest [OF read_temps(2) [OF r]] by simp
  with r v1 v2 v3 show ?thesis
    by (simp add: demo_send_temp_alarm_def send_v2trap_def trap_varbinds_def Let_def)
qed

lemma demo_check_total:
  assumes "snmp_varlists S varbinds" and "temps_hold env_map st cpu th"
    and "alarm_step (ag_temp_state st) cpu th = (s, fired)"
  shows "\<exists>st' tr. demo_check_temp_alarm L S st = ((if fired then 1 else 0), st') \<and>
    ag_temp_state st' = s \<and> ag_traps st' = ag_traps st @ tr \<and>
    map varbinds tr = (if fired then [trap_varbinds cpu th] else [])"
proof -
  from read_temps_total [OF assms(2)] obtain st1 st2 where
    r: "read_cpu_temp L st = (STORAGE_OK, cpu, st1)" "read_temp_threshold L st1 = (STORAGE_OK, th, st2)"
    by blast
  note e = read_temps(2) [OF r]
  let ?st = "st2\<lparr>ag_temp_state := TEMP_STATE_ALARM\<rparr>"
  have "temps_hold env_map ?st cpu th"
    using assms(2) ag_keep_map [OF e, of Cache_Env] by (simp add: temps_hold_def ag_map_def)
  from demo_send_total [OF assms(1) this] obtain st3 v where
    s: "demo_send_temp_alarm L S ?st = (0, st3)" "ag_traps st3 = ag_traps st2 @ [v]"
      "varbinds v = trap_varbinds cpu th" by auto
  have "ag_temp_state st3 = TEMP_STATE_ALARM"
    using demo_send_spec [of ?st S] s(1) by (simp add: send_result_def)
  with assms(3) r s ag_effect_rest [OF e] show ?thesis
    by (cases "ag_temp_state st") (auto simp: demo_check_temp_alarm_def split: if_splits)
qed

end

subsection \<open>Sequences of checks\<close>

text \<open>
  Successive calls of the check, as pairs of the agent before and after: between two calls anything
  may be stored, but only the check moves the edge.
\<close>

fun check_calls ::
  "('e, 't, 'c) platform \<Rightarrow> ('r, 'i, 'v) snmp_api \<Rightarrow> (('e, 'v) agent \<times> ('e, 'v) agent) list \<Rightarrow> bool" where
  "check_calls L S [] \<longleftrightarrow> True"
| "check_calls L S ((st, st') # cs) \<longleftrightarrow>
     snd (demo_check_temp_alarm L S st) = st' \<and>
     (cs \<noteq> [] \<longrightarrow> ag_temp_state (fst (hd cs)) = ag_temp_state st') \<and> check_calls L S cs"

definition emits :: "('e, 'v) agent \<times> ('e, 'v) agent \<Rightarrow> bool" where
  "emits c \<longleftrightarrow> ag_traps (snd c) \<noteq> ag_traps (fst c)"

definition cooled :: "('e \<Rightarrow> store) \<Rightarrow> ('e, 'v) agent \<Rightarrow> bool" where
  "cooled emap st \<longleftrightarrow> (\<exists>cpu th. temps_hold emap st cpu th \<and> sint cpu \<le> sint (th - 500))"

context lmdb_laws
begin

lemma check_edge:
  assumes "demo_check_temp_alarm L S st = (ret, st')"
  shows "ag_traps st' \<noteq> ag_traps st \<Longrightarrow> ag_temp_state st = TEMP_STATE_CLEAR \<and> ag_temp_state st' = TEMP_STATE_ALARM"
    and "ag_temp_state st = TEMP_STATE_ALARM \<Longrightarrow> ag_temp_state st' = TEMP_STATE_CLEAR \<Longrightarrow> cooled env_map st"
  using demo_check_spec [of st S] assms
  by (cases "ag_temp_state st"; fastforce simp: check_result_def cooled_def split: if_splits)+

lemma check_calls_quiet:
  "check_calls L S cs \<Longrightarrow> ag_temp_state (fst (hd cs)) = TEMP_STATE_ALARM \<Longrightarrow> j < length cs \<Longrightarrow> emits (cs ! j) \<Longrightarrow>
     \<exists>k < j. cooled env_map (fst (cs ! k))"
proof (induction cs arbitrary: j)
  case (Cons c cs)
  obtain st st' where c: "c = (st, st')" by fastforce
  obtain ret where r: "demo_check_temp_alarm L S st = (ret, st')"
    using Cons.prems(1) c by (cases "demo_check_temp_alarm L S st") auto
  show ?case
  proof (cases j)
    case 0
    with Cons.prems(2,4) c check_edge(1) [OF r] show ?thesis by (simp add: emits_def)
  next
    case (Suc j')
    show ?thesis
    proof (cases "ag_temp_state st'")
      case TEMP_STATE_CLEAR
      with check_edge(2) [OF r] Cons.prems(2) c Suc show ?thesis by auto
    next
      case TEMP_STATE_ALARM
      from Suc Cons.prems(3) have ne: "cs \<noteq> []" by auto
      with Cons.IH [of j'] Cons.prems c Suc TEMP_STATE_ALARM obtain k where
        "k < j'" "cooled env_map (fst (cs ! k))" by auto
      with Suc show ?thesis by (intro exI [of _ "Suc k"]) simp
    qed
  qed
qed simp

lemma check_calls_rearm:
  "check_calls L S cs \<Longrightarrow> i < j \<Longrightarrow> j < length cs \<Longrightarrow> emits (cs ! i) \<Longrightarrow> emits (cs ! j) \<Longrightarrow>
     \<exists>k. i < k \<and> k < j \<and> cooled env_map (fst (cs ! k))"
proof (induction cs arbitrary: i j)
  case (Cons c cs)
  obtain st st' where c: "c = (st, st')" by fastforce
  obtain ret where r: "demo_check_temp_alarm L S st = (ret, st')"
    using Cons.prems(1) c by (cases "demo_check_temp_alarm L S st") auto
  obtain j' where j: "j = Suc j'" using Cons.prems(2) by (cases j) auto
  have ne: "cs \<noteq> []" using Cons.prems(3) j by auto
  show ?case
  proof (cases i)
    case 0
    with Cons.prems(4) c check_edge(1) [OF r] have "ag_temp_state st' = TEMP_STATE_ALARM" by (simp add: emits_def)
    with check_calls_quiet [of S cs j'] Cons.prems c ne j obtain k where
      "k < j'" "cooled env_map (fst (cs ! k))" by auto
    with 0 j show ?thesis by (intro exI [of _ "Suc k"]) simp
  next
    case (Suc i')
    with Cons.IH [of i' j'] Cons.prems c j obtain k where
      "i' < k" "k < j'" "cooled env_map (fst (cs ! k))" by auto
    with Suc j show ?thesis by (intro exI [of _ "Suc k"]) simp
  qed
qed simp

end

end
