(* ===== verification/Scalar_Handlers.thy ===== *)
theory Scalar_Handlers
  imports Demo_Trap
begin

text \<open>
  The scalar MIB handlers, \<open>src/generated/demo_config.c\<close> (read-write, with the SET phases) and
  \<open>src/generated/demo_status.c\<close> (read-only). They come from one template per value type, so the
  phases are definitions over the environment and the key, and a handler is the \<open>switch\<close> on
  the mode. A handler works on the single request the scalar helper passes it and returns its
  code, the agent and the request.
\<close>

subsection \<open>GET\<close>

definition scalar_get_int ::
  "('e, 't, 'c) platform \<Rightarrow> ('r, 'i, 'v) snmp_api \<Rightarrow> env_id \<Rightarrow> string \<Rightarrow>
   ('e, 'v) agent \<Rightarrow> 'r \<Rightarrow> ('e, 'v) agent \<times> 'r" where
  "scalar_get_int L S env key st request =
     (case ag_get_int L st env key of (rc, val, st) \<Rightarrow>
        if rc = STORAGE_ERR_NOTFOUND then (st, set_request_error S request SNMP_NOSUCHINSTANCE)
        else if rc \<noteq> STORAGE_OK then (st, set_request_error S request SNMP_ERR_GENERR)
        else (st, set_var_typed_integer S request ASN_INTEGER (scast val)))"

definition scalar_get_uint ::
  "('e, 't, 'c) platform \<Rightarrow> ('r, 'i, 'v) snmp_api \<Rightarrow> env_id \<Rightarrow> string \<Rightarrow> asn_type \<Rightarrow>
   ('e, 'v) agent \<Rightarrow> 'r \<Rightarrow> ('e, 'v) agent \<times> 'r" where
  "scalar_get_uint L S env key ty st request =
     (case ag_get_uint L st env key of (rc, val, st) \<Rightarrow>
        if rc = STORAGE_ERR_NOTFOUND then (st, set_request_error S request SNMP_NOSUCHINSTANCE)
        else if rc \<noteq> STORAGE_OK then (st, set_request_error S request SNMP_ERR_GENERR)
        else (st, set_var_typed_integer S request ty (ucast val)))"

definition scalar_get_bytes ::
  "('e, 't, 'c) platform \<Rightarrow> ('r, 'i, 'v) snmp_api \<Rightarrow> env_id \<Rightarrow> string \<Rightarrow> nat \<Rightarrow>
   ('e, 'v) agent \<Rightarrow> 'r \<Rightarrow> ('e, 'v) agent \<times> 'r" where
  "scalar_get_bytes L S env key cap st request =
     (case ag_get_bytes L st env key cap of (rc, buf, len, st) \<Rightarrow>
        if rc = STORAGE_ERR_NOTFOUND then (st, set_request_error S request SNMP_NOSUCHINSTANCE)
        else if rc \<noteq> STORAGE_OK then (st, set_request_error S request SNMP_ERR_GENERR)
        else (st, set_var_typed_value S request ASN_OCTET_STR (take len buf)))"

subsection \<open>RESERVE1: is the value legal\<close>

definition reserve1_size :: "('r, 'i, 'v) snmp_api \<Rightarrow> nat \<Rightarrow> 'r \<Rightarrow> 'r" where
  "reserve1_size S hi request =
     (if check_vb_type S request ASN_OCTET_STR \<noteq> SNMP_ERR_NOERROR
      then set_request_error S request SNMP_ERR_WRONGTYPE
      else if \<not> vb_val_len S request \<le> hi then set_request_error S request SNMP_ERR_WRONGLENGTH
      else request)"

definition reserve1_range :: "('r, 'i, 'v) snmp_api \<Rightarrow> asn_type \<Rightarrow> int \<Rightarrow> int \<Rightarrow> 'r \<Rightarrow> 'r" where
  "reserve1_range S ty lo hi request =
     (if check_vb_type S request ty \<noteq> SNMP_ERR_NOERROR
      then set_request_error S request SNMP_ERR_WRONGTYPE
      else let v = sint (vb_integer S request) in
        if \<not> (v \<ge> lo \<and> v \<le> hi) then set_request_error S request SNMP_ERR_WRONGVALUE
        else request)"

definition reserve1_enum :: "('r, 'i, 'v) snmp_api \<Rightarrow> int list \<Rightarrow> 'r \<Rightarrow> 'r" where
  "reserve1_enum S legal request =
     (if check_vb_type S request ASN_INTEGER \<noteq> SNMP_ERR_NOERROR
      then set_request_error S request SNMP_ERR_WRONGTYPE
      else if sint (vb_integer S request) \<in> set legal then request
      else set_request_error S request SNMP_ERR_WRONGVALUE)"

subsection \<open>RESERVE2: stash the previous value\<close>

definition scalar_reserve2_int ::
  "('e, 't, 'c) platform \<Rightarrow> ('r, 'i, 'v) snmp_api \<Rightarrow> env_id \<Rightarrow> string \<Rightarrow>
   ('e, 'v) agent \<Rightarrow> 'r \<Rightarrow> ('e, 'v) agent \<times> 'r" where
  "scalar_reserve2_int L S env key st request =
     (if \<not> malloc_ok L 4 then (st, set_request_error S request SNMP_ERR_RESOURCEUNAVAILABLE)
      else (case ag_get_int L st env key of (rc, prev, st) \<Rightarrow>
        if rc = STORAGE_ERR_NOTFOUND
        then (st, add_list_data S request (''undo_'' @ key) (Stash_Int 0))
        else if rc \<noteq> STORAGE_OK
        then (st, set_request_error S request SNMP_ERR_RESOURCEUNAVAILABLE)
        else (st, add_list_data S request (''undo_'' @ key) (Stash_Int prev))))"

definition scalar_reserve2_uint ::
  "('e, 't, 'c) platform \<Rightarrow> ('r, 'i, 'v) snmp_api \<Rightarrow> env_id \<Rightarrow> string \<Rightarrow>
   ('e, 'v) agent \<Rightarrow> 'r \<Rightarrow> ('e, 'v) agent \<times> 'r" where
  "scalar_reserve2_uint L S env key st request =
     (if \<not> malloc_ok L 4 then (st, set_request_error S request SNMP_ERR_RESOURCEUNAVAILABLE)
      else (case ag_get_uint L st env key of (rc, prev, st) \<Rightarrow>
        if rc = STORAGE_ERR_NOTFOUND
        then (st, add_list_data S request (''undo_'' @ key) (Stash_Uint 0))
        else if rc \<noteq> STORAGE_OK
        then (st, set_request_error S request SNMP_ERR_RESOURCEUNAVAILABLE)
        else (st, add_list_data S request (''undo_'' @ key) (Stash_Uint prev))))"

definition scalar_reserve2_bytes ::
  "('e, 't, 'c) platform \<Rightarrow> ('r, 'i, 'v) snmp_api \<Rightarrow> env_id \<Rightarrow> string \<Rightarrow> nat \<Rightarrow>
   ('e, 'v) agent \<Rightarrow> 'r \<Rightarrow> ('e, 'v) agent \<times> 'r" where
  "scalar_reserve2_bytes L S env key cap st request =
     (if \<not> malloc_ok L (8 + cap) then (st, set_request_error S request SNMP_ERR_RESOURCEUNAVAILABLE)
      else (case ag_get_bytes L st env key cap of (rc, data, len, st) \<Rightarrow>
        if rc = STORAGE_ERR_NOTFOUND
        then (st, add_list_data S request (''undo_'' @ key) (Stash_Bytes data 0))
        else if rc \<noteq> STORAGE_OK
        then (st, set_request_error S request SNMP_ERR_RESOURCEUNAVAILABLE)
        else (st, add_list_data S request (''undo_'' @ key) (Stash_Bytes data len))))"

subsection \<open>ACTION and UNDO\<close>

text \<open>\<open>(int32_t)\<close> and \<open>(uint32_t)\<close> of a \<open>long\<close> keep the low 32 bits.\<close>

definition scalar_action_int ::
  "('e, 't, 'c) platform \<Rightarrow> ('r, 'i, 'v) snmp_api \<Rightarrow> env_id \<Rightarrow> string \<Rightarrow>
   ('e, 'v) agent \<Rightarrow> 'r \<Rightarrow> ('e, 'v) agent \<times> 'r" where
  "scalar_action_int L S env key st request =
     (case ag_set_int L st env key (ucast (vb_integer S request)) of (rc, st) \<Rightarrow>
        if rc \<noteq> STORAGE_OK then (st, set_request_error S request SNMP_ERR_COMMITFAILED)
        else (st, request))"

definition scalar_action_uint ::
  "('e, 't, 'c) platform \<Rightarrow> ('r, 'i, 'v) snmp_api \<Rightarrow> env_id \<Rightarrow> string \<Rightarrow>
   ('e, 'v) agent \<Rightarrow> 'r \<Rightarrow> ('e, 'v) agent \<times> 'r" where
  "scalar_action_uint L S env key st request =
     (case ag_set_uint L st env key (ucast (vb_integer S request)) of (rc, st) \<Rightarrow>
        if rc \<noteq> STORAGE_OK then (st, set_request_error S request SNMP_ERR_COMMITFAILED)
        else (st, request))"

definition scalar_action_bytes ::
  "('e, 't, 'c) platform \<Rightarrow> ('r, 'i, 'v) snmp_api \<Rightarrow> env_id \<Rightarrow> string \<Rightarrow>
   ('e, 'v) agent \<Rightarrow> 'r \<Rightarrow> ('e, 'v) agent \<times> 'r" where
  "scalar_action_bytes L S env key st request =
     (case ag_set_bytes L st env key (vb_string S request) (vb_val_len S request) of (rc, st) \<Rightarrow>
        if rc \<noteq> STORAGE_OK then (st, set_request_error S request SNMP_ERR_COMMITFAILED)
        else (st, request))"

text \<open>Restore a stash of the type the object has; the stash is released either way.\<close>

definition scalar_restore ::
  "('e, 't, 'c) platform \<Rightarrow> env_id \<Rightarrow> string \<Rightarrow> stash \<Rightarrow> ('e, 'v) agent \<Rightarrow>
   storage_rc \<times> ('e, 'v) agent" where
  "scalar_restore L env key prev st =
     (case prev of
        Stash_Int v \<Rightarrow> ag_set_int L st env key v
      | Stash_Uint v \<Rightarrow> ag_set_uint L st env key v
      | Stash_Bytes data len \<Rightarrow> ag_set_bytes L st env key (Some data) len
      | _ \<Rightarrow> (STORAGE_OK, st))"

definition scalar_undo ::
  "('e, 't, 'c) platform \<Rightarrow> ('r, 'i, 'v) snmp_api \<Rightarrow> env_id \<Rightarrow> string \<Rightarrow>
   ('e, 'v) agent \<Rightarrow> 'r \<Rightarrow> ('e, 'v) agent \<times> 'r" where
  "scalar_undo L S env key st request =
     (case get_list_data S request (''undo_'' @ key) of
        None \<Rightarrow> (st, remove_list_data S request (''undo_'' @ key))
      | Some prev \<Rightarrow>
          (case scalar_restore L env key prev st of (rc, st) \<Rightarrow>
             let request = (if rc \<noteq> STORAGE_OK then set_request_error S request SNMP_ERR_UNDOFAILED
                            else request)
             in (st, remove_list_data S request (''undo_'' @ key))))"

subsection \<open>The read-write handlers\<close>

definition handle_deviceName ::
  "('e, 't, 'c) platform \<Rightarrow> ('r, 'i, 'v) snmp_api \<Rightarrow> agent_mode \<Rightarrow> ('e, 'v) agent \<Rightarrow> 'r \<Rightarrow>
   snmp_err \<times> ('e, 'v) agent \<times> 'r" where
  "handle_deviceName L S mode st request =
     (let env = backend STORAGE_MODE_deviceName; key = ''deviceName'' in
      case mode of
        MODE_GET \<Rightarrow> (SNMP_ERR_NOERROR, scalar_get_bytes L S env key 64 st request)
      | MODE_SET_RESERVE1 \<Rightarrow> (SNMP_ERR_NOERROR, st, reserve1_size S 63 request)
      | MODE_SET_RESERVE2 \<Rightarrow> (SNMP_ERR_NOERROR, scalar_reserve2_bytes L S env key 64 st request)
      | MODE_SET_FREE \<Rightarrow> (SNMP_ERR_NOERROR, st, remove_list_data S request (''undo_'' @ key))
      | MODE_SET_ACTION \<Rightarrow> (SNMP_ERR_NOERROR, scalar_action_bytes L S env key st request)
      | MODE_SET_COMMIT \<Rightarrow> (SNMP_ERR_NOERROR, st, remove_list_data S request (''undo_'' @ key))
      | MODE_SET_UNDO \<Rightarrow> (SNMP_ERR_NOERROR, scalar_undo L S env key st request)
      | _ \<Rightarrow> (SNMP_ERR_GENERR, st, request))"

text \<open>A stored threshold can flip the alarm edge, so it is evaluated again at once.\<close>

definition tempThreshold_action ::
  "('e, 't, 'c) platform \<Rightarrow> ('r, 'i, 'v) snmp_api \<Rightarrow> ('e, 'v) agent \<Rightarrow> 'r \<Rightarrow> ('e, 'v) agent \<times> 'r" where
  "tempThreshold_action L S st request =
     (case ag_set_int L st (backend STORAGE_MODE_tempThresholdMilliC) ''tempThresholdMilliC''
             (ucast (vb_integer S request)) of (rc, st) \<Rightarrow>
        if rc \<noteq> STORAGE_OK then (st, set_request_error S request SNMP_ERR_COMMITFAILED)
        else (snd (demo_check_temp_alarm L S st), request))"

definition handle_tempThresholdMilliC ::
  "('e, 't, 'c) platform \<Rightarrow> ('r, 'i, 'v) snmp_api \<Rightarrow> agent_mode \<Rightarrow> ('e, 'v) agent \<Rightarrow> 'r \<Rightarrow>
   snmp_err \<times> ('e, 'v) agent \<times> 'r" where
  "handle_tempThresholdMilliC L S mode st request =
     (let env = backend STORAGE_MODE_tempThresholdMilliC; key = ''tempThresholdMilliC'' in
      case mode of
        MODE_GET \<Rightarrow> (SNMP_ERR_NOERROR, scalar_get_int L S env key st request)
      | MODE_SET_RESERVE1 \<Rightarrow>
          (SNMP_ERR_NOERROR, st, reserve1_range S ASN_INTEGER (- 40000) 125000 request)
      | MODE_SET_RESERVE2 \<Rightarrow> (SNMP_ERR_NOERROR, scalar_reserve2_int L S env key st request)
      | MODE_SET_FREE \<Rightarrow> (SNMP_ERR_NOERROR, st, remove_list_data S request (''undo_'' @ key))
      | MODE_SET_ACTION \<Rightarrow> (SNMP_ERR_NOERROR, tempThreshold_action L S st request)
      | MODE_SET_COMMIT \<Rightarrow> (SNMP_ERR_NOERROR, st, remove_list_data S request (''undo_'' @ key))
      | MODE_SET_UNDO \<Rightarrow> (SNMP_ERR_NOERROR, scalar_undo L S env key st request)
      | _ \<Rightarrow> (SNMP_ERR_GENERR, st, request))"

definition handle_adminStatusExt ::
  "('e, 't, 'c) platform \<Rightarrow> ('r, 'i, 'v) snmp_api \<Rightarrow> agent_mode \<Rightarrow> ('e, 'v) agent \<Rightarrow> 'r \<Rightarrow>
   snmp_err \<times> ('e, 'v) agent \<times> 'r" where
  "handle_adminStatusExt L S mode st request =
     (let env = backend STORAGE_MODE_adminStatusExt; key = ''adminStatusExt'' in
      case mode of
        MODE_GET \<Rightarrow> (SNMP_ERR_NOERROR, scalar_get_int L S env key st request)
      | MODE_SET_RESERVE1 \<Rightarrow> (SNMP_ERR_NOERROR, st, reserve1_enum S [1, 2, 3] request)
      | MODE_SET_RESERVE2 \<Rightarrow> (SNMP_ERR_NOERROR, scalar_reserve2_int L S env key st request)
      | MODE_SET_FREE \<Rightarrow> (SNMP_ERR_NOERROR, st, remove_list_data S request (''undo_'' @ key))
      | MODE_SET_ACTION \<Rightarrow> (SNMP_ERR_NOERROR, scalar_action_int L S env key st request)
      | MODE_SET_COMMIT \<Rightarrow> (SNMP_ERR_NOERROR, st, remove_list_data S request (''undo_'' @ key))
      | MODE_SET_UNDO \<Rightarrow> (SNMP_ERR_NOERROR, scalar_undo L S env key st request)
      | _ \<Rightarrow> (SNMP_ERR_GENERR, st, request))"

definition handle_sampleIntervalSec ::
  "('e, 't, 'c) platform \<Rightarrow> ('r, 'i, 'v) snmp_api \<Rightarrow> agent_mode \<Rightarrow> ('e, 'v) agent \<Rightarrow> 'r \<Rightarrow>
   snmp_err \<times> ('e, 'v) agent \<times> 'r" where
  "handle_sampleIntervalSec L S mode st request =
     (let env = backend STORAGE_MODE_sampleIntervalSec; key = ''sampleIntervalSec'' in
      case mode of
        MODE_GET \<Rightarrow> (SNMP_ERR_NOERROR, scalar_get_uint L S env key ASN_UNSIGNED st request)
      | MODE_SET_RESERVE1 \<Rightarrow> (SNMP_ERR_NOERROR, st, reserve1_range S ASN_UNSIGNED 1 86400 request)
      | MODE_SET_RESERVE2 \<Rightarrow> (SNMP_ERR_NOERROR, scalar_reserve2_uint L S env key st request)
      | MODE_SET_FREE \<Rightarrow> (SNMP_ERR_NOERROR, st, remove_list_data S request (''undo_'' @ key))
      | MODE_SET_ACTION \<Rightarrow> (SNMP_ERR_NOERROR, scalar_action_uint L S env key st request)
      | MODE_SET_COMMIT \<Rightarrow> (SNMP_ERR_NOERROR, st, remove_list_data S request (''undo_'' @ key))
      | MODE_SET_UNDO \<Rightarrow> (SNMP_ERR_NOERROR, scalar_undo L S env key st request)
      | _ \<Rightarrow> (SNMP_ERR_GENERR, st, request))"

subsection \<open>The read-only handlers\<close>

definition handle_cpuTempMilliC ::
  "('e, 't, 'c) platform \<Rightarrow> ('r, 'i, 'v) snmp_api \<Rightarrow> agent_mode \<Rightarrow> ('e, 'v) agent \<Rightarrow> 'r \<Rightarrow>
   snmp_err \<times> ('e, 'v) agent \<times> 'r" where
  "handle_cpuTempMilliC L S mode st request =
     (case mode of
        MODE_GET \<Rightarrow> (SNMP_ERR_NOERROR, scalar_get_int L S Cache_Env ''cpuTempMilliC'' st request)
      | _ \<Rightarrow> (SNMP_ERR_GENERR, st, request))"

definition handle_sampleCount ::
  "('e, 't, 'c) platform \<Rightarrow> ('r, 'i, 'v) snmp_api \<Rightarrow> agent_mode \<Rightarrow> ('e, 'v) agent \<Rightarrow> 'r \<Rightarrow>
   snmp_err \<times> ('e, 'v) agent \<times> 'r" where
  "handle_sampleCount L S mode st request =
     (case mode of
        MODE_GET \<Rightarrow>
          (SNMP_ERR_NOERROR, scalar_get_uint L S Cache_Env ''sampleCount'' ASN_COUNTER st request)
      | _ \<Rightarrow> (SNMP_ERR_GENERR, st, request))"

definition handle_lastUpdateEpoch ::
  "('e, 't, 'c) platform \<Rightarrow> ('r, 'i, 'v) snmp_api \<Rightarrow> agent_mode \<Rightarrow> ('e, 'v) agent \<Rightarrow> 'r \<Rightarrow>
   snmp_err \<times> ('e, 'v) agent \<times> 'r" where
  "handle_lastUpdateEpoch L S mode st request =
     (case mode of
        MODE_GET \<Rightarrow>
          (SNMP_ERR_NOERROR, scalar_get_uint L S Cache_Env ''lastUpdateEpoch'' ASN_UNSIGNED st request)
      | _ \<Rightarrow> (SNMP_ERR_GENERR, st, request))"

definition handle_statusText ::
  "('e, 't, 'c) platform \<Rightarrow> ('r, 'i, 'v) snmp_api \<Rightarrow> agent_mode \<Rightarrow> ('e, 'v) agent \<Rightarrow> 'r \<Rightarrow>
   snmp_err \<times> ('e, 'v) agent \<times> 'r" where
  "handle_statusText L S mode st request =
     (case mode of
        MODE_GET \<Rightarrow> (SNMP_ERR_NOERROR, scalar_get_bytes L S Cache_Env ''statusText'' 128 st request)
      | _ \<Rightarrow> (SNMP_ERR_GENERR, st, request))"

lemmas phase_defs [handler_defs] =
  scalar_get_int_def scalar_get_uint_def scalar_get_bytes_def
  reserve1_size_def reserve1_range_def reserve1_enum_def
  scalar_reserve2_int_def scalar_reserve2_uint_def scalar_reserve2_bytes_def
  scalar_action_int_def scalar_action_uint_def scalar_action_bytes_def scalar_undo_def

lemmas config_handler_defs =
  handle_deviceName_def handle_tempThresholdMilliC_def handle_adminStatusExt_def
  handle_sampleIntervalSec_def

end
