(* ===== verification/Set_Phases.thy ===== *)
theory Set_Phases
  imports Scalar_Handlers
begin

text \<open>
  The SET state machine. net-snmp drives a handler through RESERVE1, RESERVE2, ACTION and
  COMMIT, and takes FREE or UNDO instead when this or another varbind of the same request
  failed. \<open>set_run\<close> is that protocol as a relation; the locale \<open>settable\<close> states what a handler
  has to promise phase by phase, and from it follows once and for all that a SET is all or
  nothing. The four read-write scalars are interpretations.
\<close>

datatype set_outcome = Freed | Undone | Committed

inductive set_run ::
  "(agent_mode \<Rightarrow> 's \<Rightarrow> 'r \<Rightarrow> snmp_err \<times> 's \<times> 'r) \<Rightarrow> ('r \<Rightarrow> snmp_err) \<Rightarrow>
   's \<Rightarrow> 'r \<Rightarrow> set_outcome \<Rightarrow> 's \<Rightarrow> 'r \<Rightarrow> bool"
  for h err where
  free_after_reserve1:
    "h MODE_SET_RESERVE1 st r = (c1, st1, r1) \<Longrightarrow> h MODE_SET_FREE st1 r1 = (c2, st2, r2) \<Longrightarrow>
     set_run h err st r Freed st2 r2"
| free_after_reserve2:
    "h MODE_SET_RESERVE1 st r = (c1, st1, r1) \<Longrightarrow> err r1 = SNMP_ERR_NOERROR \<Longrightarrow>
     h MODE_SET_RESERVE2 st1 r1 = (c2, st2, r2) \<Longrightarrow> h MODE_SET_FREE st2 r2 = (c3, st3, r3) \<Longrightarrow>
     set_run h err st r Freed st3 r3"
| undo_after_action:
    "h MODE_SET_RESERVE1 st r = (c1, st1, r1) \<Longrightarrow> err r1 = SNMP_ERR_NOERROR \<Longrightarrow>
     h MODE_SET_RESERVE2 st1 r1 = (c2, st2, r2) \<Longrightarrow> err r2 = SNMP_ERR_NOERROR \<Longrightarrow>
     h MODE_SET_ACTION st2 r2 = (c3, st3, r3) \<Longrightarrow> h MODE_SET_UNDO st3 r3 = (c4, st4, r4) \<Longrightarrow>
     set_run h err st r Undone st4 r4"
| commit_after_action:
    "h MODE_SET_RESERVE1 st r = (c1, st1, r1) \<Longrightarrow> err r1 = SNMP_ERR_NOERROR \<Longrightarrow>
     h MODE_SET_RESERVE2 st1 r1 = (c2, st2, r2) \<Longrightarrow> err r2 = SNMP_ERR_NOERROR \<Longrightarrow>
     h MODE_SET_ACTION st2 r2 = (c3, st3, r3) \<Longrightarrow> err r3 = SNMP_ERR_NOERROR \<Longrightarrow>
     h MODE_SET_COMMIT st3 r3 = (c4, st4, r4) \<Longrightarrow>
     set_run h err st r Committed st4 r4"

inductive_cases set_run_FreedE: "set_run h err st r Freed st' r'"
inductive_cases set_run_UndoneE: "set_run h err st r Undone st' r'"
inductive_cases set_run_CommittedE: "set_run h err st r Committed st' r'"

subsection \<open>Canonical values\<close>

definition encode_oid :: "uint32 list \<Rightarrow> bytes" where
  "encode_oid s = encode_header STORAGE_TYPE_OID @ concat (map put_u32le s)"

text \<open>The values the storage layer itself writes; decoding one and encoding it again is identity.\<close>

definition canonical_value :: "bytes \<Rightarrow> bool" where
  "canonical_value d \<longleftrightarrow> d \<in> range encode_int \<union> range encode_uint \<union> range encode_u64 \<union>
     range encode_bytes \<union> range encode_oid"

lemma canonical_encode [simp, intro]:
  "canonical_value (encode_int i)" "canonical_value (encode_uint u)" "canonical_value (encode_u64 w)"
  "canonical_value (encode_bytes b)" "canonical_value (encode_oid s)"
  by (auto simp: canonical_value_def)

lemmas encode_defs = encode_int_def encode_uint_def encode_u64_def encode_bytes_def encode_oid_def

lemma canonical_decode:
  assumes "canonical_value d"
  shows "decode_int d = (STORAGE_OK, Some i) \<Longrightarrow> encode_int i = d"
    and "decode_uint d = (STORAGE_OK, Some u) \<Longrightarrow> encode_uint u = d"
    and "decode_bytes cap d = (STORAGE_OK, Some b) \<Longrightarrow> encode_bytes b = d"
  using assms get_put_u32le [of _ "[]"] unfolding canonical_value_def
  by (auto simp: encode_defs decode_fixed_def decode_bytes_def split: if_splits)

text \<open>The bytes an undo writes back from a stash.\<close>

fun stash_value :: "stash \<Rightarrow> bytes" where
  "stash_value (Stash_Int v) = encode_int v"
| "stash_value (Stash_Uint v) = encode_uint v"
| "stash_value (Stash_Bytes data len) = encode_bytes (take len data)"
| "stash_value (Cell_Int k ex v) = encode_int v"
| "stash_value (Cell_Bytes k ex data len) = encode_bytes (take len data)"

subsection \<open>The contract of a settable object\<close>

locale settable =
  fixes emap :: "'e \<Rightarrow> store" and txns :: "'e \<Rightarrow> nat" and cursors :: "'e \<Rightarrow> nat"
    and err :: "'r \<Rightarrow> snmp_err"
    and stash :: "'r \<Rightarrow> stash option"
    and h :: "agent_mode \<Rightarrow> ('e, 'v) agent \<Rightarrow> 'r \<Rightarrow> snmp_err \<times> ('e, 'v) agent \<times> 'r"
    and env :: env_id and key :: string
    and legal :: "'r \<Rightarrow> bool"
    and new_value :: "'r \<Rightarrow> bytes"
    and kind :: "stash \<Rightarrow> bool"
  assumes reserve1: "h MODE_SET_RESERVE1 st r = (c, st', r') \<Longrightarrow>
      st' = st \<and> stash r' = stash r \<and> new_value r' = new_value r \<and>
      (err r' = SNMP_ERR_NOERROR \<longrightarrow> legal r)"
    and reserve2: "h MODE_SET_RESERVE2 st r = (c, st', r') \<Longrightarrow>
      envs_effect emap txns cursors keep (ag_envs st) (ag_envs st') \<and> new_value r' = new_value r \<and>
      (err r' = SNMP_ERR_NOERROR \<longrightarrow> stash r = None \<longrightarrow>
        (\<exists>u. stash r' = Some u \<and> kind u \<and>
          (\<forall>d. ag_map emap st env key = Some d \<longrightarrow> canonical_value d \<longrightarrow> stash_value u = d)))"
    and free: "h MODE_SET_FREE st r = (c, st', r') \<Longrightarrow> st' = st"
    and action: "h MODE_SET_ACTION st r = (c, st', r') \<Longrightarrow> stash r' = stash r \<and>
      (r' = r \<and> envs_effect emap txns cursors (upd env key (Some (new_value r))) (ag_envs st) (ag_envs st') \<or>
       err r' \<noteq> SNMP_ERR_NOERROR \<and> envs_effect emap txns cursors keep (ag_envs st) (ag_envs st'))"
    and commit: "h MODE_SET_COMMIT st r = (c, st', r') \<Longrightarrow> st' = st"
    and undo: "h MODE_SET_UNDO st r = (c, st', r') \<Longrightarrow> stash r = Some u \<Longrightarrow> kind u \<Longrightarrow>
      envs_effect emap txns cursors (upd env key (Some (stash_value u))) (ag_envs st) (ag_envs st') \<or>
      envs_effect emap txns cursors keep (ag_envs st) (ag_envs st') \<and>
        (err r = SNMP_ERR_NOERROR \<longrightarrow> err r' = SNMP_ERR_UNDOFAILED)"
begin

lemma freed_keeps: "set_run h err st r Freed st' r' \<Longrightarrow>
    envs_effect emap txns cursors keep (ag_envs st) (ag_envs st')"
  by (erule set_run_FreedE) (auto simp: envs_effect_keep dest!: reserve1 reserve2 free)

lemma committed_stores:
  assumes "set_run h err st r Committed st' r'"
  shows "legal r \<and> envs_effect emap txns cursors (upd env key (Some (new_value r))) (ag_envs st) (ag_envs st')"
proof -
  from assms obtain c1 st1 r1 c2 st2 r2 c3 st3 r3 c4 where 1: "h MODE_SET_RESERVE1 st r = (c1, st1, r1)"
    "err r1 = SNMP_ERR_NOERROR" "h MODE_SET_RESERVE2 st1 r1 = (c2, st2, r2)"
    "err r2 = SNMP_ERR_NOERROR" "h MODE_SET_ACTION st2 r2 = (c3, st3, r3)"
    "err r3 = SNMP_ERR_NOERROR" "h MODE_SET_COMMIT st3 r3 = (c4, st', r')"
    by (rule set_run_CommittedE)
  then have "r3 = r2" "envs_effect emap txns cursors (upd env key (Some (new_value r2))) (ag_envs st2) (ag_envs st3)"
    using action [OF 1(5)] by auto
  then show ?thesis
    using 1 reserve1 [OF 1(1)] reserve2 [OF 1(3)] commit [OF 1(7)] by (auto intro: envs_keep_trans)
qed

text \<open>Writing a cell and then its old value back changes nothing.\<close>

lemma upd_back:
  assumes "envs_effect emap txns cursors (upd env key x) (ag_envs a) (ag_envs b)"
    and "envs_effect emap txns cursors (upd env key (Some d)) (ag_envs b) (ag_envs c)"
    and "ag_map emap a env key = Some d"
  shows "envs_effect emap txns cursors keep (ag_envs a) (ag_envs c)"
  by (rule envs_effect_cong [OF envs_effect_trans [OF assms(1,2)]])
    (use assms(3) in \<open>auto simp: upd_def keep_def ag_map_def\<close>)

lemma upd_same:
  assumes "envs_effect emap txns cursors (upd env key (Some d)) (ag_envs a) (ag_envs b)"
    and "ag_map emap a env key = Some d"
  shows "envs_effect emap txns cursors keep (ag_envs a) (ag_envs b)"
  by (rule envs_effect_cong [OF assms(1)])
    (use assms(2) in \<open>auto simp: upd_def keep_def ag_map_def\<close>)

text \<open>A SET that is undone had a legal value and leaves the cell as it was, unless the undo failed.\<close>

lemma undone_cases:
  assumes "set_run h err st r Undone st' r'" and "stash r = None"
    and "ag_map emap st env key = Some d" and "canonical_value d"
  shows "legal r \<and> (envs_effect emap txns cursors keep (ag_envs st) (ag_envs st') \<or>
    envs_effect emap txns cursors (upd env key (Some (new_value r))) (ag_envs st) (ag_envs st') \<and>
      err r' = SNMP_ERR_UNDOFAILED)"
proof -
  from assms(1) obtain c1 st1 r1 c2 st2 r2 c3 st3 r3 c4 where
    1: "h MODE_SET_RESERVE1 st r = (c1, st1, r1)"
    "err r1 = SNMP_ERR_NOERROR" "h MODE_SET_RESERVE2 st1 r1 = (c2, st2, r2)"
    "err r2 = SNMP_ERR_NOERROR" "h MODE_SET_ACTION st2 r2 = (c3, st3, r3)"
    "h MODE_SET_UNDO st3 r3 = (c4, st', r')" by (rule set_run_UndoneE)
  have st1: "st1 = st" "stash r1 = None" "legal r" "new_value r1 = new_value r"
    using reserve1 [OF 1(1)] assms(2) 1(2) by auto
  have e2: "envs_effect emap txns cursors keep (ag_envs st) (ag_envs st2)" "new_value r2 = new_value r"
    and "\<exists>u. stash r2 = Some u \<and> kind u \<and> stash_value u = d"
    using reserve2 [OF 1(3)] 1(4) st1 assms(3,4) by auto
  then obtain u where u: "stash r2 = Some u" "kind u" "stash_value u = d" by blast
  have d2: "ag_map emap st2 env key = Some d" using envs_keep_map [OF e2(1)] assms(3) by simp
  note act = action [OF 1(5)]
  have st3: "stash r3 = Some u" using act u(1) by simp
  note un = undo [OF 1(6) st3 u(2), unfolded u(3)]
  from act consider "r3 = r2"
      "envs_effect emap txns cursors (upd env key (Some (new_value r))) (ag_envs st2) (ag_envs st3)"
    | "envs_effect emap txns cursors keep (ag_envs st2) (ag_envs st3)" using e2(2) by auto
  then have "envs_effect emap txns cursors keep (ag_envs st2) (ag_envs st') \<or>
    envs_effect emap txns cursors (upd env key (Some (new_value r))) (ag_envs st2) (ag_envs st') \<and>
      err r' = SNMP_ERR_UNDOFAILED"
  proof cases
    case 1
    then show ?thesis
      using un \<open>err r2 = SNMP_ERR_NOERROR\<close> upd_back [OF _ _ d2] envs_keep_trans(2) by auto
  next
    case 2
    then have "ag_map emap st3 env key = Some d" using envs_keep_map d2 by metis
    then show ?thesis using un upd_same envs_keep_trans(1) [OF 2] by blast
  qed
  then show ?thesis using envs_keep_trans(1) [OF e2(1)] st1(3) by blast
qed

lemma undone_restores:
  assumes "set_run h err st r Undone st' r'" and "stash r = None"
    and "ag_map emap st env key = Some d" and "canonical_value d"
  shows "envs_effect emap txns cursors keep (ag_envs st) (ag_envs st') \<or> err r' = SNMP_ERR_UNDOFAILED"
  using undone_cases [OF assms] by blast

end

subsection \<open>The scalar phases keep the contract\<close>

locale subagent =
  lmdb_laws L env_map live_txns live_cursors txn_map txn_ro cur_map cur_pos +
  snmp_laws S req_error req_result
  for L :: "('e, 't, 'c) platform" and env_map live_txns live_cursors txn_map txn_ro cur_map cur_pos
    and S :: "('r, 'i, 'v) snmp_api" and req_error req_result
begin

abbreviation "echanges \<equiv> envs_effect env_map live_txns live_cursors"

lemma effect_envs: "effect G st st' \<Longrightarrow> echanges G (ag_envs st) (ag_envs st')"
  by (simp add: ag_effect_def)

text \<open>A request after a phase that may have recorded an error.\<close>

lemma same_input_simps:
  "same_input S r r' \<Longrightarrow> vb_integer S r' = vb_integer S r"
  "same_input S r r' \<Longrightarrow> vb_string S r' = vb_string S r"
  "same_input S r r' \<Longrightarrow> vb_val_len S r' = vb_val_len S r"
  "same_input S r r' \<Longrightarrow> check_vb_type S r' = check_vb_type S r"
  by (simp_all add: same_input_def)

lemma reserve1_frame:
  "same_input S r (reserve1_size S hi r)" "same_input S r (reserve1_range S ty lo hi' r)"
  "same_input S r (reserve1_enum S vs r)"
  "get_list_data S (reserve1_size S hi r) = get_list_data S r"
  "get_list_data S (reserve1_range S ty lo hi' r) = get_list_data S r"
  "get_list_data S (reserve1_enum S vs r) = get_list_data S r"
  by (simp_all add: reserve1_size_def reserve1_range_def reserve1_enum_def Let_def error_input error_data)

lemma reserve1_legal:
  "req_error (reserve1_size S hi r) = SNMP_ERR_NOERROR \<Longrightarrow>
     check_vb_type S r ASN_OCTET_STR = SNMP_ERR_NOERROR \<and> vb_val_len S r \<le> hi"
  "req_error (reserve1_range S ty lo hi' r) = SNMP_ERR_NOERROR \<Longrightarrow>
     check_vb_type S r ty = SNMP_ERR_NOERROR \<and> lo \<le> sint (vb_integer S r) \<and> sint (vb_integer S r) \<le> hi'"
  "req_error (reserve1_enum S vs r) = SNMP_ERR_NOERROR \<Longrightarrow>
     check_vb_type S r ASN_INTEGER = SNMP_ERR_NOERROR \<and> sint (vb_integer S r) \<in> set vs"
  using error_set by (auto simp: reserve1_size_def reserve1_range_def reserve1_enum_def Let_def split: if_splits)

text \<open>RESERVE2 stashes what is needed to restore a canonical value.\<close>

definition stashed :: "bytes option \<Rightarrow> 'r \<Rightarrow> string \<Rightarrow> (stash \<Rightarrow> bool) \<Rightarrow> 'r \<Rightarrow> bool" where
  "stashed cell r name kind r' \<longleftrightarrow> same_input S r r' \<and>
     (req_error r' = SNMP_ERR_NOERROR \<longrightarrow> get_list_data S r name = None \<longrightarrow>
       (\<exists>u. get_list_data S r' name = Some u \<and> kind u \<and>
         (\<forall>d. cell = Some d \<longrightarrow> canonical_value d \<longrightarrow> stash_value u = d)))"

lemma stashed_error: "e \<noteq> SNMP_ERR_NOERROR \<Longrightarrow> stashed cell r name kind (set_request_error S r e)"
  by (simp add: stashed_def error_set error_input)

lemma stashed_add:
  "kind u \<Longrightarrow> (\<And>d. cell = Some d \<Longrightarrow> canonical_value d \<Longrightarrow> stash_value u = d) \<Longrightarrow>
     stashed cell r name kind (add_list_data S r name u)"
  by (simp add: stashed_def add_input add_fresh)

definition is_int :: "stash \<Rightarrow> bool" where "is_int u \<longleftrightarrow> (\<exists>v. u = Stash_Int v)"
definition is_uint :: "stash \<Rightarrow> bool" where "is_uint u \<longleftrightarrow> (\<exists>v. u = Stash_Uint v)"
definition is_bytes :: "stash \<Rightarrow> bool" where "is_bytes u \<longleftrightarrow> (\<exists>b n. u = Stash_Bytes b n)"

lemmas kinds = is_int_def is_uint_def is_bytes_def

lemma reserve2_int:
  assumes "scalar_reserve2_int L S env key st r = (st', r')"
  shows "effect keep st st' \<and> stashed (contents st env key) r (''undo_'' @ key) is_int r'"
proof -
  obtain rc prev st1 where g: "ag_get_int L st env key = (rc, prev, st1)"
    by (cases "ag_get_int L st env key")
  from assms g ag_get_int_reads [OF g] show ?thesis
    by (auto simp: scalar_reserve2_int_def cell_read_def kinds canonical_decode stashed_error
        split: if_splits intro!: stashed_add)
qed

lemma reserve2_uint:
  assumes "scalar_reserve2_uint L S env key st r = (st', r')"
  shows "effect keep st st' \<and> stashed (contents st env key) r (''undo_'' @ key) is_uint r'"
proof -
  obtain rc prev st1 where g: "ag_get_uint L st env key = (rc, prev, st1)"
    by (cases "ag_get_uint L st env key")
  from assms g ag_get_uint_reads [OF g] show ?thesis
    by (auto simp: scalar_reserve2_uint_def cell_read_def kinds canonical_decode stashed_error
        split: if_splits intro!: stashed_add)
qed

lemma reserve2_bytes:
  assumes "scalar_reserve2_bytes L S env key cap st r = (st', r')"
  shows "effect keep st st' \<and> stashed (contents st env key) r (''undo_'' @ key) is_bytes r'"
proof -
  obtain rc data len st1 where g: "ag_get_bytes L st env key cap = (rc, data, len, st1)"
    by (cases "ag_get_bytes L st env key cap")
  from assms g ag_get_bytes_reads [OF g] show ?thesis
    by (auto simp: scalar_reserve2_bytes_def cell_read_def kinds canonical_decode stashed_error
        split: if_splits intro!: stashed_add)
qed

text \<open>ACTION stores the new value or records an error; UNDO likewise with the stash.\<close>

definition acted :: "effect \<Rightarrow> ('e, 'v) agent \<Rightarrow> 'r \<Rightarrow> ('e, 'v) agent \<Rightarrow> 'r \<Rightarrow> bool" where
  "acted G st r st' r' \<longleftrightarrow> get_list_data S r' = get_list_data S r \<and>
     (r' = r \<and> echanges G (ag_envs st) (ag_envs st') \<or>
      req_error r' \<noteq> SNMP_ERR_NOERROR \<and> echanges keep (ag_envs st) (ag_envs st'))"

lemma action_acted:
  "scalar_action_int L S env key st r = (st', r') \<Longrightarrow>
     acted (upd env key (Some (encode_int (ucast (vb_integer S r))))) st r st' r'"
  "scalar_action_uint L S env key st r = (st', r') \<Longrightarrow>
     acted (upd env key (Some (encode_uint (ucast (vb_integer S r))))) st r st' r'"
  "scalar_action_bytes L S env key st r = (st', r') \<Longrightarrow>
     acted (upd env key (Some (encode_bytes (payload_of (vb_string S r) (vb_val_len S r))))) st r st' r'"
  by (auto simp: scalar_action_int_def scalar_action_uint_def scalar_action_bytes_def acted_def
      error_set error_data split: prod.splits if_splits
      dest!: ag_set_int_writes ag_set_uint_writes ag_set_bytes_writes effect_envs)

lemma tempThreshold_acted:
  assumes "tempThreshold_action L S st r = (st', r')"
  shows "acted (upd (backend STORAGE_MODE_tempThresholdMilliC) ''tempThresholdMilliC''
      (Some (encode_int (ucast (vb_integer S r))))) st r st' r'"
proof -
  let ?e = "backend STORAGE_MODE_tempThresholdMilliC"
  obtain rc st1 where s: "ag_set_int L st ?e ''tempThresholdMilliC'' (ucast (vb_integer S r)) = (rc, st1)"
    by fastforce
  obtain ret st2 where c: "demo_check_temp_alarm L S st1 = (ret, st2)" by fastforce
  have "echanges keep (ag_envs st1) (ag_envs st2)"
    using demo_check_spec [of st1 S] c by (simp add: check_result_def envs_effect_keep)
  with assms s c effect_envs [OF ag_set_int_writes [OF s]] show ?thesis
    by (auto simp: tempThreshold_action_def acted_def error_set error_data
        split: if_splits intro: envs_keep_trans)
qed

lemma scalar_restore_writes:
  assumes "scalar_restore L env key u st = (rc, st')" and "is_int u \<or> is_uint u \<or> is_bytes u"
  shows "effect (if rc = STORAGE_OK then upd env key (Some (stash_value u)) else keep) st st'"
  using assms ag_set_int_writes ag_set_uint_writes ag_set_bytes_writes
  by (fastforce simp: scalar_restore_def kinds)

lemma undo_acted:
  assumes "scalar_undo L S env key st r = (st', r')"
    and "get_list_data S r (''undo_'' @ key) = Some u" and "is_int u \<or> is_uint u \<or> is_bytes u"
  shows "echanges (upd env key (Some (stash_value u))) (ag_envs st) (ag_envs st') \<or>
    echanges keep (ag_envs st) (ag_envs st') \<and>
      (req_error r = SNMP_ERR_NOERROR \<longrightarrow> req_error r' = SNMP_ERR_UNDOFAILED)"
proof -
  obtain rc st1 where s: "scalar_restore L env key u st = (rc, st1)" by fastforce
  from assms(1,2) s effect_envs [OF scalar_restore_writes [OF s assms(3)]] show ?thesis
    by (auto simp: scalar_undo_def remove_error error_first split: if_splits)
qed

end

subsection \<open>The read-write scalars\<close>

lemma undo_names:
  "''undo_'' @ ''deviceName'' = ''undo_deviceName''"
  "''undo_'' @ ''tempThresholdMilliC'' = ''undo_tempThresholdMilliC''"
  "''undo_'' @ ''adminStatusExt'' = ''undo_adminStatusExt''"
  "''undo_'' @ ''sampleIntervalSec'' = ''undo_sampleIntervalSec''"
  by simp_all

sublocale subagent \<subseteq> deviceName: settable env_map live_txns live_cursors req_error
    "\<lambda>r. get_list_data S r ''undo_deviceName''" "handle_deviceName L S" Config_Env "''deviceName''"
    "\<lambda>r. check_vb_type S r ASN_OCTET_STR = SNMP_ERR_NOERROR \<and> vb_val_len S r \<le> 63"
    "\<lambda>r. encode_bytes (payload_of (vb_string S r) (vb_val_len S r))" is_bytes
proof (unfold_locales, goal_cases)
  case (1 st r c st' r')
  then show ?case
    using reserve1_legal(1) [of 63 r]
    by (auto simp: handle_deviceName_def reserve1_frame same_input_simps [OF reserve1_frame(1)])
next
  case (2 st r c st' r')
  then have "scalar_reserve2_bytes L S Config_Env ''deviceName'' 64 st r = (st', r')"
    by (simp add: handle_deviceName_def)
  from reserve2_bytes [OF this] show ?case
    by (auto simp: stashed_def undo_names effect_envs same_input_simps)
next
  case (4 st r c st' r')
  then have "scalar_action_bytes L S Config_Env ''deviceName'' st r = (st', r')"
    by (simp add: handle_deviceName_def)
  from action_acted(3) [OF this] show ?case by (auto simp: acted_def)
next
  case (6 st r c st' r' u)
  then have "scalar_undo L S Config_Env ''deviceName'' st r = (st', r')"
    by (simp add: handle_deviceName_def)
  from undo_acted [OF this] 6 show ?case by (auto simp: undo_names)
qed (auto simp: handle_deviceName_def)

sublocale subagent \<subseteq> tempThreshold: settable env_map live_txns live_cursors req_error
    "\<lambda>r. get_list_data S r ''undo_tempThresholdMilliC''" "handle_tempThresholdMilliC L S"
    Cache_Env "''tempThresholdMilliC''"
    "\<lambda>r. check_vb_type S r ASN_INTEGER = SNMP_ERR_NOERROR \<and>
         - 40000 \<le> sint (vb_integer S r) \<and> sint (vb_integer S r) \<le> 125000"
    "\<lambda>r. encode_int (ucast (vb_integer S r))" is_int
proof (unfold_locales, goal_cases)
  case (1 st r c st' r')
  then show ?case
    using reserve1_legal(2) [of ASN_INTEGER "- 40000" 125000 r]
    by (auto simp: handle_tempThresholdMilliC_def reserve1_frame same_input_simps [OF reserve1_frame(2)])
next
  case (2 st r c st' r')
  then have "scalar_reserve2_int L S Cache_Env ''tempThresholdMilliC'' st r = (st', r')"
    by (simp add: handle_tempThresholdMilliC_def)
  from reserve2_int [OF this] show ?case
    by (auto simp: stashed_def undo_names effect_envs same_input_simps)
next
  case (4 st r c st' r')
  then have "tempThreshold_action L S st r = (st', r')"
    by (simp add: handle_tempThresholdMilliC_def)
  from tempThreshold_acted [OF this] show ?case by (auto simp: acted_def)
next
  case (6 st r c st' r' u)
  then have "scalar_undo L S Cache_Env ''tempThresholdMilliC'' st r = (st', r')"
    by (simp add: handle_tempThresholdMilliC_def)
  from undo_acted [OF this] 6 show ?case by (auto simp: undo_names)
qed (auto simp: handle_tempThresholdMilliC_def)

sublocale subagent \<subseteq> adminStatusExt: settable env_map live_txns live_cursors req_error
    "\<lambda>r. get_list_data S r ''undo_adminStatusExt''" "handle_adminStatusExt L S"
    Config_Env "''adminStatusExt''"
    "\<lambda>r. check_vb_type S r ASN_INTEGER = SNMP_ERR_NOERROR \<and> sint (vb_integer S r) \<in> {1, 2, 3}"
    "\<lambda>r. encode_int (ucast (vb_integer S r))" is_int
proof (unfold_locales, goal_cases)
  case (1 st r c st' r')
  then show ?case
    using reserve1_legal(3) [of "[1, 2, 3]" r]
    by (auto simp: handle_adminStatusExt_def reserve1_frame same_input_simps [OF reserve1_frame(3)])
next
  case (2 st r c st' r')
  then have "scalar_reserve2_int L S Config_Env ''adminStatusExt'' st r = (st', r')"
    by (simp add: handle_adminStatusExt_def)
  from reserve2_int [OF this] show ?case
    by (auto simp: stashed_def undo_names effect_envs same_input_simps)
next
  case (4 st r c st' r')
  then have "scalar_action_int L S Config_Env ''adminStatusExt'' st r = (st', r')"
    by (simp add: handle_adminStatusExt_def)
  from action_acted(1) [OF this] show ?case by (auto simp: acted_def)
next
  case (6 st r c st' r' u)
  then have "scalar_undo L S Config_Env ''adminStatusExt'' st r = (st', r')"
    by (simp add: handle_adminStatusExt_def)
  from undo_acted [OF this] 6 show ?case by (auto simp: undo_names)
qed (auto simp: handle_adminStatusExt_def)

sublocale subagent \<subseteq> sampleInterval: settable env_map live_txns live_cursors req_error
    "\<lambda>r. get_list_data S r ''undo_sampleIntervalSec''" "handle_sampleIntervalSec L S"
    Config_Env "''sampleIntervalSec''"
    "\<lambda>r. check_vb_type S r ASN_UNSIGNED = SNMP_ERR_NOERROR \<and>
         1 \<le> sint (vb_integer S r) \<and> sint (vb_integer S r) \<le> 86400"
    "\<lambda>r. encode_uint (ucast (vb_integer S r))" is_uint
proof (unfold_locales, goal_cases)
  case (1 st r c st' r')
  then show ?case
    using reserve1_legal(2) [of ASN_UNSIGNED 1 86400 r]
    by (auto simp: handle_sampleIntervalSec_def reserve1_frame same_input_simps [OF reserve1_frame(2)])
next
  case (2 st r c st' r')
  then have "scalar_reserve2_uint L S Config_Env ''sampleIntervalSec'' st r = (st', r')"
    by (simp add: handle_sampleIntervalSec_def)
  from reserve2_uint [OF this] show ?case
    by (auto simp: stashed_def undo_names effect_envs same_input_simps)
next
  case (4 st r c st' r')
  then have "scalar_action_uint L S Config_Env ''sampleIntervalSec'' st r = (st', r')"
    by (simp add: handle_sampleIntervalSec_def)
  from action_acted(2) [OF this] show ?case by (auto simp: acted_def)
next
  case (6 st r c st' r' u)
  then have "scalar_undo L S Config_Env ''sampleIntervalSec'' st r = (st', r')"
    by (simp add: handle_sampleIntervalSec_def)
  from undo_acted [OF this] 6 show ?case by (auto simp: undo_names)
qed (auto simp: handle_sampleIntervalSec_def)

interpretation demo: subagent "memdb lim" mem_map me_txns me_cursors mem_txn_map mt_ro
    mem_cur_map mc_pos snmp_demo dr_error dr_result
  for lim
  by unfold_locales

end
