(* ===== verification/Table_Handlers.thy ===== *)
theory Table_Handlers
  imports Set_Phases
begin

text \<open>
  The table MIB handlers, \<open>src/generated/demo_config_table.c\<close> (\<open>portConfigTable\<close>, read-write)
  and \<open>src/generated/demo_status_table.c\<close> (\<open>sensorTable\<close>, read-only): the iterator callbacks
  that enumerate the rows and the handlers that serve a list of requests cell by cell. The
  phases of a cell are definitions over the column and its environment, the way the template
  has them.
\<close>

subsection \<open>Walking the rows\<close>

record table_loop =
  lp_rows :: "table_rowset option"
  lp_next :: nat

text \<open>
  The \<open>while\<close> loop of \<open>get_next_data_point\<close>: skip the rows whose instance is not an index of
  the table. The result is the next position, the index varbinds and whether a row was found.
\<close>

function next_row ::
  "('r, 'i, 'v) snmp_api \<Rightarrow> table_rowset option \<Rightarrow> nat \<Rightarrow> 'i option \<Rightarrow> nat \<times> 'i option \<times> bool" where
  "next_row S rows n idx =
     (if n < table_rowset_count rows then
        (case table_instance_to_indexes S (table_rowset_at rows n) idx of (ret, idx) \<Rightarrow>
           if ret \<noteq> 0 then next_row S rows (Suc n) idx else (Suc n, idx, True))
      else (n, idx, False))"
  by pat_completeness auto
termination
  by (relation "measure (\<lambda>(S, rows, n, idx). table_rowset_count rows - n)") auto

declare next_row.simps [simp del]

text \<open>
  The callback. \<open>data_context\<close> is \<open>True\<close> once it points at the sentinel; the last component
  says whether \<open>put_index_data\<close> was returned.
\<close>

definition get_next_data_point ::
  "('r, 'i, 'v) snmp_api \<Rightarrow> table_loop option \<Rightarrow> bool \<Rightarrow> 'i option \<Rightarrow>
   table_loop option \<times> bool \<times> 'i option \<times> bool" where
  "get_next_data_point S loop_context data_context put_index_data =
     (case loop_context of
        None \<Rightarrow> (None, data_context, put_index_data, False)
      | Some loop \<Rightarrow>
          (case next_row S (lp_rows loop) (lp_next loop) put_index_data of (n, idx, found) \<Rightarrow>
             (Some (loop\<lparr>lp_next := n\<rparr>), (if found then True else data_context), idx, found)))"

text \<open>Both tables have the same callback, generated from the same template.\<close>

definition portConfigTable_get_next_data_point ::
  "('r, 'i, 'v) snmp_api \<Rightarrow> table_loop option \<Rightarrow> bool \<Rightarrow> 'i option \<Rightarrow>
   table_loop option \<times> bool \<times> 'i option \<times> bool" where
  "portConfigTable_get_next_data_point S loop_context data_context put_index_data =
     get_next_data_point S loop_context data_context put_index_data"

definition sensorTable_get_next_data_point ::
  "('r, 'i, 'v) snmp_api \<Rightarrow> table_loop option \<Rightarrow> bool \<Rightarrow> 'i option \<Rightarrow>
   table_loop option \<times> bool \<times> 'i option \<times> bool" where
  "sensorTable_get_next_data_point S loop_context data_context put_index_data =
     get_next_data_point S loop_context data_context put_index_data"

definition portConfigTable_column_refs :: "table_column_ref list" where
  "portConfigTable_column_refs =
     [\<lparr>tc_env = backend STORAGE_MODE_portDescr, tc_column = Some ''portDescr''\<rparr>,
      \<lparr>tc_env = backend STORAGE_MODE_portAdminStatus, tc_column = Some ''portAdminStatus''\<rparr>,
      \<lparr>tc_env = backend STORAGE_MODE_portAlarmThresholdMilliC,
       tc_column = Some ''portAlarmThresholdMilliC''\<rparr>]"

definition sensorTable_column_refs :: "table_column_ref list" where
  "sensorTable_column_refs =
     [\<lparr>tc_env = Cache_Env, tc_column = Some ''sensorName''\<rparr>,
      \<lparr>tc_env = Cache_Env, tc_column = Some ''sensorTempMilliC''\<rparr>,
      \<lparr>tc_env = Cache_Env, tc_column = Some ''sensorSampleCount''\<rparr>]"

text \<open>\<open>None\<close>: the row enumeration did not return.\<close>

definition portConfigTable_get_first_data_point ::
  "('e, 't, 'c) platform \<Rightarrow> ('r, 'i, 'v) snmp_api \<Rightarrow> ('e, 'v) agent \<Rightarrow> bool \<Rightarrow> 'i option \<Rightarrow>
   (('e, 'v) agent \<times> table_loop option \<times> bool \<times> 'i option \<times> bool) option" where
  "portConfigTable_get_first_data_point L S st data_context put_index_data =
     (case table_rowset_load L (ag_envs st) (Some portConfigTable_column_refs) (Some None) of
        None \<Rightarrow> None
      | Some (rc, out, envs) \<Rightarrow>
          let st = st\<lparr>ag_envs := envs\<rparr> in
          if rc \<noteq> STORAGE_OK then Some (st, None, data_context, put_index_data, False)
          else let rows = the out;
                   st = (if table_rowset_skipped rows \<noteq> ag_port_skipped st
                         then st\<lparr>ag_port_skipped := table_rowset_skipped rows\<rparr> else st) in
            if \<not> malloc_ok L 16 then Some (st, None, data_context, put_index_data, False)
            else Some (st, portConfigTable_get_next_data_point S (Some \<lparr>lp_rows = rows, lp_next = 0\<rparr>)
                             data_context put_index_data))"

definition sensorTable_get_first_data_point ::
  "('e, 't, 'c) platform \<Rightarrow> ('r, 'i, 'v) snmp_api \<Rightarrow> ('e, 'v) agent \<Rightarrow> bool \<Rightarrow> 'i option \<Rightarrow>
   (('e, 'v) agent \<times> table_loop option \<times> bool \<times> 'i option \<times> bool) option" where
  "sensorTable_get_first_data_point L S st data_context put_index_data =
     (case table_rowset_load L (ag_envs st) (Some sensorTable_column_refs) (Some None) of
        None \<Rightarrow> None
      | Some (rc, out, envs) \<Rightarrow>
          let st = st\<lparr>ag_envs := envs\<rparr> in
          if rc \<noteq> STORAGE_OK then Some (st, None, data_context, put_index_data, False)
          else let rows = the out;
                   st = (if table_rowset_skipped rows \<noteq> ag_sensor_skipped st
                         then st\<lparr>ag_sensor_skipped := table_rowset_skipped rows\<rparr> else st) in
            if \<not> malloc_ok L 16 then Some (st, None, data_context, put_index_data, False)
            else Some (st, sensorTable_get_next_data_point S (Some \<lparr>lp_rows = rows, lp_next = 0\<rparr>)
                             data_context put_index_data))"

subsection \<open>Cells\<close>

text \<open>\<open>for (request = requests; request != NULL; request = request->next)\<close>.\<close>

fun each_request :: "('s \<Rightarrow> 'r \<Rightarrow> 's \<times> 'r) \<Rightarrow> 's \<Rightarrow> 'r list \<Rightarrow> 's \<times> 'r list" where
  "each_request f st [] = (st, [])"
| "each_request f st (r # rs) =
     (case f st r of (st, r) \<Rightarrow> case each_request f st rs of (st, rs) \<Rightarrow> (st, r # rs))"

text \<open>\<open>table_cell_key(column, inst, key, sizeof(key))\<close> with the code's 256 byte buffers.\<close>

definition key_of :: "string \<Rightarrow> table_instance \<Rightarrow> storage_rc \<times> string" where
  "key_of column inst =
     (case table_cell_key (Some column) (Some inst) (Some '''') (STORAGE_KEY_MAX + 1) of
        (rc, key) \<Rightarrow> (rc, the key))"

definition cell_get_int ::
  "('e, 't, 'c) platform \<Rightarrow> ('r, 'i, 'v) snmp_api \<Rightarrow> env_id \<Rightarrow> string \<Rightarrow> table_instance \<Rightarrow>
   ('e, 'v) agent \<Rightarrow> 'r \<Rightarrow> ('e, 'v) agent \<times> 'r" where
  "cell_get_int L S env column inst st request =
     (case key_of column inst of (rc, key) \<Rightarrow>
        if rc \<noteq> STORAGE_OK then (st, set_request_error S request SNMP_ERR_GENERR)
        else scalar_get_int L S env key st request)"

definition cell_get_uint ::
  "('e, 't, 'c) platform \<Rightarrow> ('r, 'i, 'v) snmp_api \<Rightarrow> env_id \<Rightarrow> string \<Rightarrow> asn_type \<Rightarrow> table_instance \<Rightarrow>
   ('e, 'v) agent \<Rightarrow> 'r \<Rightarrow> ('e, 'v) agent \<times> 'r" where
  "cell_get_uint L S env column ty inst st request =
     (case key_of column inst of (rc, key) \<Rightarrow>
        if rc \<noteq> STORAGE_OK then (st, set_request_error S request SNMP_ERR_GENERR)
        else scalar_get_uint L S env key ty st request)"

definition cell_get_bytes ::
  "('e, 't, 'c) platform \<Rightarrow> ('r, 'i, 'v) snmp_api \<Rightarrow> env_id \<Rightarrow> string \<Rightarrow> nat \<Rightarrow> table_instance \<Rightarrow>
   ('e, 'v) agent \<Rightarrow> 'r \<Rightarrow> ('e, 'v) agent \<times> 'r" where
  "cell_get_bytes L S env column cap inst st request =
     (case key_of column inst of (rc, key) \<Rightarrow>
        if rc \<noteq> STORAGE_OK then (st, set_request_error S request SNMP_ERR_GENERR)
        else scalar_get_bytes L S env key cap st request)"

text \<open>\<open>calloc\<close> zeroes the struct, so \<open>value\<close> is 0 and the key buffer empty when not written.\<close>

definition cell_reserve2_int ::
  "('e, 't, 'c) platform \<Rightarrow> ('r, 'i, 'v) snmp_api \<Rightarrow> env_id \<Rightarrow> string \<Rightarrow> table_instance \<Rightarrow>
   ('e, 'v) agent \<Rightarrow> 'r \<Rightarrow> ('e, 'v) agent \<times> 'r" where
  "cell_reserve2_int L S env column inst st request =
     (if \<not> malloc_ok L 264 then (st, set_request_error S request SNMP_ERR_RESOURCEUNAVAILABLE)
      else (case key_of column inst of (rc, key) \<Rightarrow>
        if rc \<noteq> STORAGE_OK then (st, set_request_error S request SNMP_ERR_GENERR)
        else (case ag_get_int L st env key of (rc, val, st) \<Rightarrow>
          if rc = STORAGE_ERR_NOTFOUND
          then (st, add_list_data S request (''undo_'' @ column) (Cell_Int key False 0))
          else if rc \<noteq> STORAGE_OK
          then (st, set_request_error S request SNMP_ERR_RESOURCEUNAVAILABLE)
          else (st, add_list_data S request (''undo_'' @ column) (Cell_Int key True val)))))"

definition cell_reserve2_bytes ::
  "('e, 't, 'c) platform \<Rightarrow> ('r, 'i, 'v) snmp_api \<Rightarrow> env_id \<Rightarrow> string \<Rightarrow> nat \<Rightarrow> table_instance \<Rightarrow>
   ('e, 'v) agent \<Rightarrow> 'r \<Rightarrow> ('e, 'v) agent \<times> 'r" where
  "cell_reserve2_bytes L S env column cap inst st request =
     (if \<not> malloc_ok L (272 + cap) then (st, set_request_error S request SNMP_ERR_RESOURCEUNAVAILABLE)
      else (case key_of column inst of (rc, key) \<Rightarrow>
        if rc \<noteq> STORAGE_OK then (st, set_request_error S request SNMP_ERR_GENERR)
        else (case ag_get_bytes L st env key cap of (rc, data, len, st) \<Rightarrow>
          if rc = STORAGE_ERR_NOTFOUND
          then (st, add_list_data S request (''undo_'' @ column) (Cell_Bytes key False data 0))
          else if rc \<noteq> STORAGE_OK
          then (st, set_request_error S request SNMP_ERR_RESOURCEUNAVAILABLE)
          else (st, add_list_data S request (''undo_'' @ column) (Cell_Bytes key True data len)))))"

definition cell_action_int ::
  "('e, 't, 'c) platform \<Rightarrow> ('r, 'i, 'v) snmp_api \<Rightarrow> env_id \<Rightarrow> string \<Rightarrow> table_instance \<Rightarrow>
   ('e, 'v) agent \<Rightarrow> 'r \<Rightarrow> ('e, 'v) agent \<times> 'r" where
  "cell_action_int L S env column inst st request =
     (case key_of column inst of (rc, key) \<Rightarrow>
        if rc \<noteq> STORAGE_OK then (st, set_request_error S request SNMP_ERR_GENERR)
        else scalar_action_int L S env key st request)"

definition cell_action_bytes ::
  "('e, 't, 'c) platform \<Rightarrow> ('r, 'i, 'v) snmp_api \<Rightarrow> env_id \<Rightarrow> string \<Rightarrow> table_instance \<Rightarrow>
   ('e, 'v) agent \<Rightarrow> 'r \<Rightarrow> ('e, 'v) agent \<times> 'r" where
  "cell_action_bytes L S env column inst st request =
     (case key_of column inst of (rc, key) \<Rightarrow>
        if rc \<noteq> STORAGE_OK then (st, set_request_error S request SNMP_ERR_GENERR)
        else scalar_action_bytes L S env key st request)"

text \<open>
  Restoring a cell: write the previous value back, or delete the cell if there was none;
  a cell that is already gone counts as restored.
\<close>

definition cell_delete ::
  "('e, 't, 'c) platform \<Rightarrow> env_id \<Rightarrow> string \<Rightarrow> ('e, 'v) agent \<Rightarrow> storage_rc \<times> ('e, 'v) agent" where
  "cell_delete L env key st =
     (case ag_delete L st env key of (rc, st) \<Rightarrow>
        (if rc = STORAGE_ERR_NOTFOUND then STORAGE_OK else rc, st))"

definition cell_restore ::
  "('e, 't, 'c) platform \<Rightarrow> env_id \<Rightarrow> stash \<Rightarrow> ('e, 'v) agent \<Rightarrow> storage_rc \<times> ('e, 'v) agent" where
  "cell_restore L env prev st =
     (case prev of
        Cell_Int key existed v \<Rightarrow>
          if existed then ag_set_int L st env key v else cell_delete L env key st
      | Cell_Bytes key existed data len \<Rightarrow>
          if existed then ag_set_bytes L st env key (Some data) len else cell_delete L env key st
      | _ \<Rightarrow> (STORAGE_OK, st))"

definition cell_undo ::
  "('e, 't, 'c) platform \<Rightarrow> ('r, 'i, 'v) snmp_api \<Rightarrow> env_id \<Rightarrow> string \<Rightarrow>
   ('e, 'v) agent \<Rightarrow> 'r \<Rightarrow> ('e, 'v) agent \<times> 'r" where
  "cell_undo L S env column st request =
     (case get_list_data S request (''undo_'' @ column) of
        None \<Rightarrow> (st, request)
      | Some prev \<Rightarrow>
          (case cell_restore L env prev st of (rc, st) \<Rightarrow>
             let request = (if rc \<noteq> STORAGE_OK then set_request_error S request SNMP_ERR_UNDOFAILED
                            else request)
             in (st, remove_list_data S request (''undo_'' @ column))))"

subsection \<open>portConfigTable\<close>

abbreviation (input) COLUMN_PORTDESCR :: nat where "COLUMN_PORTDESCR \<equiv> 2"
abbreviation (input) COLUMN_PORTADMINSTATUS :: nat where "COLUMN_PORTADMINSTATUS \<equiv> 3"
abbreviation (input) COLUMN_PORTALARMTHRESHOLDMILLIC :: nat where "COLUMN_PORTALARMTHRESHOLDMILLIC \<equiv> 4"

definition TABLE_ENV_portDescr :: env_id where
  "TABLE_ENV_portDescr = backend STORAGE_MODE_portDescr"
definition TABLE_ENV_portAdminStatus :: env_id where
  "TABLE_ENV_portAdminStatus = backend STORAGE_MODE_portAdminStatus"
definition TABLE_ENV_portAlarmThresholdMilliC :: env_id where
  "TABLE_ENV_portAlarmThresholdMilliC = backend STORAGE_MODE_portAlarmThresholdMilliC"

lemmas table_env_defs [simp] = TABLE_ENV_portDescr_def TABLE_ENV_portAdminStatus_def
  TABLE_ENV_portAlarmThresholdMilliC_def

definition uninit_row :: table_instance where
  "uninit_row = \<lparr>ti_subid = replicate TABLE_ROW_SUBID_MAX 0, ti_len = 0\<rparr>"

definition portConfigTable_get ::
  "('e, 't, 'c) platform \<Rightarrow> ('r, 'i, 'v) snmp_api \<Rightarrow> ('e, 'v) agent \<Rightarrow> 'r \<Rightarrow> ('e, 'v) agent \<times> 'r" where
  "portConfigTable_get L S st request =
     (case extract_table_info S request of
        None \<Rightarrow> (st, set_request_error S request SNMP_ERR_GENERR)
      | Some info \<Rightarrow>
          if \<not> extract_iterator_context S request
          then (st, set_request_error S request SNMP_NOSUCHINSTANCE)
          else (case table_instance_from_indexes S (Some info) (Some uninit_row) of (ret, row) \<Rightarrow>
            if ret \<noteq> 0 then (st, set_request_error S request SNMP_ERR_GENERR)
            else if tri_colnum info = COLUMN_PORTDESCR
            then cell_get_bytes L S TABLE_ENV_portDescr ''portDescr'' 64 (the row) st request
            else if tri_colnum info = COLUMN_PORTADMINSTATUS
            then cell_get_int L S TABLE_ENV_portAdminStatus ''portAdminStatus'' (the row) st request
            else if tri_colnum info = COLUMN_PORTALARMTHRESHOLDMILLIC
            then cell_get_int L S TABLE_ENV_portAlarmThresholdMilliC ''portAlarmThresholdMilliC''
                   (the row) st request
            else (st, set_request_error S request SNMP_NOSUCHOBJECT)))"

definition portConfigTable_reserve1 ::
  "('r, 'i, 'v) snmp_api \<Rightarrow> ('e, 'v) agent \<Rightarrow> 'r \<Rightarrow> ('e, 'v) agent \<times> 'r" where
  "portConfigTable_reserve1 S st request =
     (case extract_table_info S request of
        None \<Rightarrow> (st, set_request_error S request SNMP_ERR_GENERR)
      | Some info \<Rightarrow>
          if \<not> extract_iterator_context S request
          then (st, set_request_error S request SNMP_ERR_NOCREATION)
          else if tri_colnum info = COLUMN_PORTDESCR then (st, reserve1_size S 63 request)
          else if tri_colnum info = COLUMN_PORTADMINSTATUS
          then (st, reserve1_enum S [1, 2, 3] request)
          else if tri_colnum info = COLUMN_PORTALARMTHRESHOLDMILLIC
          then (st, reserve1_range S ASN_INTEGER (- 40000) 125000 request)
          else (st, set_request_error S request SNMP_ERR_NOTWRITABLE))"

text \<open>The three guards RESERVE2 and ACTION share, and the row they leave in \<open>row\<close>.\<close>

definition request_row ::
  "('r, 'i, 'v) snmp_api \<Rightarrow> 'r \<Rightarrow> ('i table_request_info \<times> table_instance) option" where
  "request_row S request =
     (case extract_table_info S request of
        None \<Rightarrow> None
      | Some info \<Rightarrow>
          if \<not> extract_iterator_context S request then None
          else (case table_instance_from_indexes S (Some info) (Some uninit_row) of (ret, row) \<Rightarrow>
            if ret \<noteq> 0 then None else Some (info, the row)))"

definition portConfigTable_reserve2 ::
  "('e, 't, 'c) platform \<Rightarrow> ('r, 'i, 'v) snmp_api \<Rightarrow> ('e, 'v) agent \<Rightarrow> 'r \<Rightarrow> ('e, 'v) agent \<times> 'r" where
  "portConfigTable_reserve2 L S st request =
     (case request_row S request of
        None \<Rightarrow> (st, set_request_error S request SNMP_ERR_GENERR)
      | Some (info, row) \<Rightarrow>
          if tri_colnum info = COLUMN_PORTDESCR
          then cell_reserve2_bytes L S TABLE_ENV_portDescr ''portDescr'' 64 row st request
          else if tri_colnum info = COLUMN_PORTADMINSTATUS
          then cell_reserve2_int L S TABLE_ENV_portAdminStatus ''portAdminStatus'' row st request
          else if tri_colnum info = COLUMN_PORTALARMTHRESHOLDMILLIC
          then cell_reserve2_int L S TABLE_ENV_portAlarmThresholdMilliC ''portAlarmThresholdMilliC''
                 row st request
          else (st, request))"

text \<open>The bodies of MODE_SET_FREE and MODE_SET_COMMIT.\<close>

definition portConfigTable_release :: "('r, 'i, 'v) snmp_api \<Rightarrow> ('e, 'v) agent \<Rightarrow> 'r \<Rightarrow> ('e, 'v) agent \<times> 'r" where
  "portConfigTable_release S st request =
     (st, remove_list_data S (remove_list_data S (remove_list_data S request ''undo_portDescr'')
            ''undo_portAdminStatus'') ''undo_portAlarmThresholdMilliC'')"

definition portConfigTable_action ::
  "('e, 't, 'c) platform \<Rightarrow> ('r, 'i, 'v) snmp_api \<Rightarrow> ('e, 'v) agent \<Rightarrow> 'r \<Rightarrow> ('e, 'v) agent \<times> 'r" where
  "portConfigTable_action L S st request =
     (case request_row S request of
        None \<Rightarrow> (st, set_request_error S request SNMP_ERR_GENERR)
      | Some (info, row) \<Rightarrow>
          if tri_colnum info = COLUMN_PORTDESCR
          then cell_action_bytes L S TABLE_ENV_portDescr ''portDescr'' row st request
          else if tri_colnum info = COLUMN_PORTADMINSTATUS
          then cell_action_int L S TABLE_ENV_portAdminStatus ''portAdminStatus'' row st request
          else if tri_colnum info = COLUMN_PORTALARMTHRESHOLDMILLIC
          then cell_action_int L S TABLE_ENV_portAlarmThresholdMilliC ''portAlarmThresholdMilliC''
                 row st request
          else (st, request))"

definition portConfigTable_undo ::
  "('e, 't, 'c) platform \<Rightarrow> ('r, 'i, 'v) snmp_api \<Rightarrow> ('e, 'v) agent \<Rightarrow> 'r \<Rightarrow> ('e, 'v) agent \<times> 'r" where
  "portConfigTable_undo L S st request =
     (case cell_undo L S TABLE_ENV_portDescr ''portDescr'' st request of (st, request) \<Rightarrow>
      case cell_undo L S TABLE_ENV_portAdminStatus ''portAdminStatus'' st request of (st, request) \<Rightarrow>
        cell_undo L S TABLE_ENV_portAlarmThresholdMilliC ''portAlarmThresholdMilliC'' st request)"

definition handle_portConfigTable ::
  "('e, 't, 'c) platform \<Rightarrow> ('r, 'i, 'v) snmp_api \<Rightarrow> agent_mode \<Rightarrow> ('e, 'v) agent \<Rightarrow> 'r list \<Rightarrow>
   snmp_err \<times> ('e, 'v) agent \<times> 'r list" where
  "handle_portConfigTable L S mode st requests =
     (case mode of
        MODE_GET \<Rightarrow> (SNMP_ERR_NOERROR, each_request (portConfigTable_get L S) st requests)
      | MODE_SET_RESERVE1 \<Rightarrow> (SNMP_ERR_NOERROR, each_request (portConfigTable_reserve1 S) st requests)
      | MODE_SET_RESERVE2 \<Rightarrow> (SNMP_ERR_NOERROR, each_request (portConfigTable_reserve2 L S) st requests)
      | MODE_SET_FREE \<Rightarrow> (SNMP_ERR_NOERROR, each_request (portConfigTable_release S) st requests)
      | MODE_SET_ACTION \<Rightarrow> (SNMP_ERR_NOERROR, each_request (portConfigTable_action L S) st requests)
      | MODE_SET_COMMIT \<Rightarrow> (SNMP_ERR_NOERROR, each_request (portConfigTable_release S) st requests)
      | MODE_SET_UNDO \<Rightarrow> (SNMP_ERR_NOERROR, each_request (portConfigTable_undo L S) st requests)
      | _ \<Rightarrow> (SNMP_ERR_GENERR, st, requests))"

subsection \<open>sensorTable\<close>

abbreviation (input) COLUMN_SENSORNAME :: nat where "COLUMN_SENSORNAME \<equiv> 2"
abbreviation (input) COLUMN_SENSORTEMPMILLIC :: nat where "COLUMN_SENSORTEMPMILLIC \<equiv> 3"
abbreviation (input) COLUMN_SENSORSAMPLECOUNT :: nat where "COLUMN_SENSORSAMPLECOUNT \<equiv> 4"

definition sensorTable_get ::
  "('e, 't, 'c) platform \<Rightarrow> ('r, 'i, 'v) snmp_api \<Rightarrow> ('e, 'v) agent \<Rightarrow> 'r \<Rightarrow> ('e, 'v) agent \<times> 'r" where
  "sensorTable_get L S st request =
     (case extract_table_info S request of
        None \<Rightarrow> (st, set_request_error S request SNMP_ERR_GENERR)
      | Some info \<Rightarrow>
          if \<not> extract_iterator_context S request
          then (st, set_request_error S request SNMP_NOSUCHINSTANCE)
          else (case table_instance_from_indexes S (Some info) (Some uninit_row) of (ret, row) \<Rightarrow>
            if ret \<noteq> 0 then (st, set_request_error S request SNMP_ERR_GENERR)
            else if tri_colnum info = COLUMN_SENSORNAME
            then cell_get_bytes L S Cache_Env ''sensorName'' 32 (the row) st request
            else if tri_colnum info = COLUMN_SENSORTEMPMILLIC
            then cell_get_int L S Cache_Env ''sensorTempMilliC'' (the row) st request
            else if tri_colnum info = COLUMN_SENSORSAMPLECOUNT
            then cell_get_uint L S Cache_Env ''sensorSampleCount'' ASN_COUNTER (the row) st request
            else (st, set_request_error S request SNMP_NOSUCHOBJECT)))"

definition handle_sensorTable ::
  "('e, 't, 'c) platform \<Rightarrow> ('r, 'i, 'v) snmp_api \<Rightarrow> agent_mode \<Rightarrow> ('e, 'v) agent \<Rightarrow> 'r list \<Rightarrow>
   snmp_err \<times> ('e, 'v) agent \<times> 'r list" where
  "handle_sensorTable L S mode st requests =
     (case mode of
        MODE_GET \<Rightarrow> (SNMP_ERR_NOERROR, each_request (sensorTable_get L S) st requests)
      | _ \<Rightarrow> (SNMP_ERR_GENERR, st, requests))"

end
