(* ===== verification/Table_Set.thy ===== *)
theory Table_Set
  imports Table_Handlers
begin

text \<open>
  A SET on \<open>portConfigTable\<close> that is undone leaves both environments as they were, however many
  cells the request touched, which of them existed before and which writes failed.
\<close>

subsection \<open>The cell a request is about\<close>

definition port_column :: "nat \<Rightarrow> (env_id \<times> string) option" where
  "port_column n =
     (if n = 2 then Some (Config_Env, ''portDescr'')
      else if n = 3 then Some (Config_Env, ''portAdminStatus'')
      else if n = 4 then Some (Cache_Env, ''portAlarmThresholdMilliC'') else None)"

definition port_cell ::
  "('r, 'i, 'v) snmp_api \<Rightarrow> 'r \<Rightarrow> (env_id \<times> string \<times> string) option" where
  "port_cell S r =
     (case request_row S r of
        None \<Rightarrow> None
      | Some (info, row) \<Rightarrow>
          (case port_column (tri_colnum info) of
             None \<Rightarrow> None
           | Some (env, col) \<Rightarrow>
               (case key_of col row of (rc, key) \<Rightarrow>
                  if rc = STORAGE_OK then Some (env, col, key) else None)))"

definition port_stash_names :: "string list" where
  "port_stash_names = [''undo_portDescr'', ''undo_portAdminStatus'', ''undo_portAlarmThresholdMilliC'']"

text \<open>A stash that brings the cell \<open>key\<close> back to \<open>c\<close>.\<close>

definition cell_stash :: "string \<Rightarrow> bytes option \<Rightarrow> stash \<Rightarrow> bool" where
  "cell_stash key c u \<longleftrightarrow>
     (\<exists>ex. ((\<exists>v. u = Cell_Int key ex v) \<or> (\<exists>data n. u = Cell_Bytes key ex data n)) \<and>
        c = (if ex then Some (stash_value u) else None))"

text \<open>Every stored value was written by the storage layer.\<close>

definition store_canonical :: "store \<Rightarrow> bool" where
  "store_canonical m \<longleftrightarrow> (\<forall>k d. m k = Some d \<longrightarrow> canonical_value d)"

definition covered ::
  "('r, 'i, 'v) snmp_api \<Rightarrow> (env_id \<Rightarrow> store) \<Rightarrow> 'r \<Rightarrow> bool" where
  "covered S m0 r \<longleftrightarrow>
     (case port_cell S r of
        None \<Rightarrow> \<forall>n \<in> set port_stash_names. get_list_data S r n = None
      | Some (env, col, key) \<Rightarrow>
          (\<exists>u. get_list_data S r (''undo_'' @ col) = Some u \<and> cell_stash key (m0 env key) u) \<and>
          (\<forall>n \<in> set port_stash_names. n \<noteq> ''undo_'' @ col \<longrightarrow> get_list_data S r n = None))"

subsection \<open>Agents that agree up to some cells\<close>

definition agree_but ::
  "('e \<Rightarrow> store) \<Rightarrow> ('e \<Rightarrow> nat) \<Rightarrow> ('e \<Rightarrow> nat) \<Rightarrow> (env_id \<times> string) set \<Rightarrow> 'e envs \<Rightarrow> 'e envs \<Rightarrow> bool" where
  "agree_but emap txns cursors K a b \<longleftrightarrow>
     (\<forall>i. rel_option (\<lambda>x y. same_handle txns cursors x y \<and>
        (\<forall>k. (i, k) \<notin> K \<longrightarrow> emap (se_env y) k = emap (se_env x) k)) (a i) (b i))"

lemma agree_but_nothing: "agree_but emap txns cursors {} = envs_same emap txns cursors"
  by (intro ext) (simp add: agree_but_def envs_same_def fun_eq_iff)

lemma agree_but_mono: "agree_but emap txns cursors K a b \<Longrightarrow> K \<subseteq> K' \<Longrightarrow> agree_but emap txns cursors K' a b"
  unfolding agree_but_def by (rule allI, drule spec) (erule option.rel_mono_strong, blast)

lemma agree_but_Un: "agree_but emap txns cursors K a b \<Longrightarrow> agree_but emap txns cursors (X \<union> K) a b"
  by (rule agree_but_mono) auto

lemma agree_but_step:
  assumes "agree_but emap txns cursors K a b" and "envs_effect emap txns cursors G b c"
    and "\<And>i k m e. a i = Some e \<Longrightarrow> (i, k) \<notin> K' \<Longrightarrow>
      G i m k = emap (se_env e) k \<or> (i, k) \<notin> K \<and> G i m k = m k"
  shows "agree_but emap txns cursors K' a c"
  unfolding agree_but_def
proof
  fix i
  show "rel_option (\<lambda>x y. same_handle txns cursors x y \<and>
      (\<forall>k. (i, k) \<notin> K' \<longrightarrow> emap (se_env y) k = emap (se_env x) k)) (a i) (c i)"
  proof (cases "a i")
    case None
    with assms(1,2) show ?thesis
      unfolding agree_but_def envs_effect_def by (auto dest!: spec [of _ i] elim: option.rel_cases)
  next
    case (Some x)
    with assms(1,2) obtain y z where y: "b i = Some y" "same_handle txns cursors x y"
      "\<And>k. (i, k) \<notin> K \<Longrightarrow> emap (se_env y) k = emap (se_env x) k"
      and z: "c i = Some z" "same_handle txns cursors y z" "emap (se_env z) = G i (emap (se_env y))"
      unfolding agree_but_def envs_effect_def by (auto simp: option_rel_Some1 dest!: spec [of _ i])
    have "emap (se_env z) k = emap (se_env x) k" if "(i, k) \<notin> K'" for k
      using assms(3) [OF Some that, of "emap (se_env y)"] y(3) z(3) by auto
    with Some z y same_handle_trans show ?thesis by (auto intro: same_handle_trans)
  qed
qed

text \<open>Writing a cell in \<open>K\<close>, and writing the old contents of a cell back.\<close>

lemma agree_but_upd:
  "agree_but emap txns cursors K a b \<Longrightarrow> envs_effect emap txns cursors (upd i k d) b c \<Longrightarrow>
     agree_but emap txns cursors (insert (i, k) K) a c"
  by (erule (1) agree_but_step) (auto simp: upd_def)

lemma agree_but_keep:
  "agree_but emap txns cursors K a b \<Longrightarrow> envs_effect emap txns cursors keep b c \<Longrightarrow>
     agree_but emap txns cursors K a c"
  by (erule (1) agree_but_step) (auto simp: keep_def)

lemma agree_but_restore:
  assumes "agree_but emap txns cursors K (ag_envs a) b"
    and "envs_effect emap txns cursors (upd i k (ag_map emap a i k)) b c"
  shows "agree_but emap txns cursors (K - {(i, k)}) (ag_envs a) c"
  using assms(1,2)
proof (rule agree_but_step)
  fix j x m e
  assume e: "ag_envs a j = Some e" and "(j, x) \<notin> K - {(i, k)}"
  then show "upd i k (ag_map emap a i k) j m x = emap (se_env e) x \<or>
      (j, x) \<notin> K \<and> upd i k (ag_map emap a i k) j m x = m x"
    by (cases "(j, x) = (i, k)") (auto simp: upd_def ag_map_def)
qed

subsection \<open>One request\<close>

lemma port_cell_same: "same_input S r r' \<Longrightarrow> port_cell S r' = port_cell S r"
  by (simp add: port_cell_def request_row_def same_input_def cong: option.case_cong)

lemma covered_same:
  "same_input S r r' \<Longrightarrow> get_list_data S r' = get_list_data S r \<Longrightarrow> covered S m0 r' = covered S m0 r"
  by (auto simp: covered_def port_cell_same split: option.splits)

context subagent
begin

lemma cell_reserve2_stashes:
  assumes "cell_reserve2_int L S env col row st r = (st', r') \<or>
      cell_reserve2_bytes L S env col cap row st r = (st', r')"
    and "store_canonical (contents st env)"
  shows "effect keep st st'"
    and "req_error r' \<noteq> SNMP_ERR_NOERROR \<and> same_input S r r' \<or>
      (\<exists>u. r' = add_list_data S r (''undo_'' @ col) u \<and> fst (key_of col row) = STORAGE_OK \<and>
         cell_stash (snd (key_of col row)) (contents st env (snd (key_of col row))) u)"
proof -
  obtain krc key where k: "key_of col row = (krc, key)" by fastforce
  obtain rc v st1 where g: "ag_get_int L st env key = (rc, v, st1)" by (cases "ag_get_int L st env key")
  obtain rc' b n st2 where g': "ag_get_bytes L st env key cap = (rc', b, n, st2)"
    by (cases "ag_get_bytes L st env key cap")
  note reads = ag_get_int_reads [OF g] ag_get_bytes_reads [OF g']
  show "effect keep st st'"
    using assms(1) k g g' reads(1,3)
    by (auto simp: cell_reserve2_int_def cell_reserve2_bytes_def split: if_splits)
  have canon: "canonical_value d" if "contents st env key = Some d" for d
    using assms(2) that by (auto simp: store_canonical_def)
  have int: "cell_stash key (contents st env key) (Cell_Int key True v)" if "rc = STORAGE_OK"
    using that reads(2) canonical_decode(1) [OF canon] by (auto simp: cell_read_def cell_stash_def)
  have bytes: "cell_stash key (contents st env key) (Cell_Bytes key True b n)" if "rc' = STORAGE_OK"
    using that reads(4) canonical_decode(3) [OF canon] by (auto simp: cell_read_def cell_stash_def)
  have none: "cell_stash key None (Cell_Int key False x)" "cell_stash key None (Cell_Bytes key False b n')"
    for x n' by (auto simp: cell_stash_def)
  show "req_error r' \<noteq> SNMP_ERR_NOERROR \<and> same_input S r r' \<or>
      (\<exists>u. r' = add_list_data S r (''undo_'' @ col) u \<and> fst (key_of col row) = STORAGE_OK \<and>
         cell_stash (snd (key_of col row)) (contents st env (snd (key_of col row))) u)"
    using assms(1) k g g' reads(2,4) int bytes none
    by (auto simp: cell_reserve2_int_def cell_reserve2_bytes_def cell_read_def error_set error_input
        split: if_splits)
qed

lemma stash_name_in: "port_column n = Some (env, col) \<Longrightarrow> ''undo_'' @ col \<in> set port_stash_names"
  by (auto simp: port_column_def port_stash_names_def split: if_splits)

text \<open>RESERVE2 changes no store; without an error the request is covered.\<close>

lemma reserve2_covers:
  assumes "portConfigTable_reserve2 L S st r = (st', r')"
    and "\<And>i. store_canonical (contents st i)"
    and "\<forall>n \<in> set port_stash_names. get_list_data S r n = None"
  shows "effect keep st st'" and "req_error r' = SNMP_ERR_NOERROR \<Longrightarrow> covered S (contents st) r'"
proof -
  consider "request_row S r = None" | info row where "request_row S r = Some (info, row)"
      "port_column (tri_colnum info) = None"
    | info row env col where "request_row S r = Some (info, row)"
      "port_column (tri_colnum info) = Some (env, col)" by fastforce
  then have "effect keep st st' \<and> (req_error r' = SNMP_ERR_NOERROR \<longrightarrow> covered S (contents st) r')"
  proof cases
    case 1
    with assms(1) show ?thesis by (auto simp: portConfigTable_reserve2_def error_set)
  next
    case 2
    then have "r' = r" "st' = st" "port_cell S r = None"
      using assms(1)
      by (auto simp: portConfigTable_reserve2_def port_cell_def port_column_def split: if_splits)
    with assms(3) show ?thesis by (simp add: covered_def)
  next
    case 3
    then have "cell_reserve2_int L S env col row st r = (st', r') \<or>
        cell_reserve2_bytes L S env col 64 row st r = (st', r')"
      using assms(1) by (auto simp: portConfigTable_reserve2_def port_column_def split: if_splits)
    note res = cell_reserve2_stashes [OF this assms(2)]
    have "covered S (contents st) r'" if "req_error r' = SNMP_ERR_NOERROR"
    proof -
      from res(2) that obtain u where u: "r' = add_list_data S r (''undo_'' @ col) u"
        "fst (key_of col row) = STORAGE_OK"
        "cell_stash (snd (key_of col row)) (contents st env (snd (key_of col row))) u" by auto
      have cell: "port_cell S r' = Some (env, col, snd (key_of col row))"
        unfolding u(1) port_cell_same [OF add_input]
        using 3 u(2) by (cases "key_of col row") (simp add: port_cell_def)
      have "get_list_data S r' (''undo_'' @ col) = Some u"
        using u(1) assms(3) stash_name_in [OF 3(2)] by (simp add: add_fresh)
      moreover have "get_list_data S r' n = None" if "n \<in> set port_stash_names" "n \<noteq> ''undo_'' @ col" for n
        using that u(1) assms(3) by (simp add: add_other)
      ultimately show ?thesis using u(3) cell by (simp add: covered_def)
    qed
    with res(1) show ?thesis by blast
  qed
  then show "effect keep st st'" "req_error r' = SNMP_ERR_NOERROR \<Longrightarrow> covered S (contents st) r'" by auto
qed

text \<open>ACTION writes the cell of the request, or records an error and writes nothing.\<close>

definition cells :: "'r list \<Rightarrow> (env_id \<times> string) set" where
  "cells rs = {(env, key). \<exists>r \<in> set rs. \<exists>col. req_error r = SNMP_ERR_NOERROR \<and>
     port_cell S r = Some (env, col, key)}"

lemma cells_Nil [simp]: "cells [] = {}" and cells_Cons: "cells (r # rs) = cells [r] \<union> cells rs"
  by (auto simp: cells_def)

lemma written_agrees:
  assumes "scalar_action_int L S env key st r = (st', r') \<or> scalar_action_bytes L S env key st r = (st', r')"
    and "(env, key) \<in> cells [r]" and "agree_but env_map live_txns live_cursors K a (ag_envs st)"
  shows "same_input S r r' \<and> get_list_data S r' = get_list_data S r \<and>
    agree_but env_map live_txns live_cursors (cells [r'] \<union> K) a (ag_envs st')"
proof -
  from assms(1) have in': "same_input S r r'" and "\<exists>d. acted (upd env key d) st r st' r'"
    using action_acted(1,3) [of env key st r st' r']
    by (auto simp: scalar_action_int_def scalar_action_bytes_def error_input split: prod.splits if_splits)
  then obtain d where act: "acted (upd env key d) st r st' r'" by blast
  then consider "r' = r" "echanges (upd env key d) (ag_envs st) (ag_envs st')"
    | "echanges keep (ag_envs st) (ag_envs st')" by (auto simp: acted_def)
  then have "agree_but env_map live_txns live_cursors (cells [r'] \<union> K) a (ag_envs st')"
  proof cases
    case 1
    have "insert (env, key) K \<subseteq> cells [r] \<union> K" using assms(2) by blast
    with agree_but_mono [OF agree_but_upd [OF assms(3) 1(2)]] 1(1) show ?thesis by simp
  next
    case 2
    show ?thesis by (rule agree_but_mono [OF agree_but_keep [OF assms(3) 2]]) blast
  qed
  with act in' show ?thesis by (simp add: acted_def)
qed

lemma action_writes_cell:
  assumes "portConfigTable_action L S st r = (st', r')" and "req_error r = SNMP_ERR_NOERROR"
    and "agree_but env_map live_txns live_cursors K a (ag_envs st)"
  shows "same_input S r r' \<and> get_list_data S r' = get_list_data S r \<and>
    agree_but env_map live_txns live_cursors (cells [r'] \<union> K) a (ag_envs st')"
proof -
  consider "request_row S r = None" | info row where "request_row S r = Some (info, row)"
      "port_column (tri_colnum info) = None"
    | info row env col where "request_row S r = Some (info, row)"
      "port_column (tri_colnum info) = Some (env, col)" by fastforce
  then show ?thesis
  proof cases
    case 1
    with assms(1,3) show ?thesis
      by (auto simp: portConfigTable_action_def error_input error_data
          intro: agree_but_Un)
  next
    case 2
    with assms(1,3) show ?thesis
      by (auto simp: portConfigTable_action_def port_column_def split: if_splits
          intro: agree_but_Un)
  next
    case 3
    obtain krc key where k: "key_of col row = (krc, key)" by fastforce
    show ?thesis
    proof (cases "krc = STORAGE_OK")
      case False
      with 3 k assms(1,3) show ?thesis
        by (auto simp: portConfigTable_action_def port_column_def cell_action_int_def
            cell_action_bytes_def error_input error_data split: if_splits
            intro: agree_but_Un)
    next
      case True
      with 3 k assms(1) have "scalar_action_int L S env key st r = (st', r') \<or>
          scalar_action_bytes L S env key st r = (st', r')"
        by (auto simp: portConfigTable_action_def port_column_def cell_action_int_def
            cell_action_bytes_def split: if_splits)
      moreover have "(env, key) \<in> cells [r]"
        using 3 k True assms(2) by (auto simp: cells_def port_cell_def)
      ultimately show ?thesis by (rule written_agrees [OF _ _ assms(3)])
    qed
  qed
qed

end

context subagent
begin

text \<open>UNDO brings the cell of a covered request back, or records that it could not.\<close>

lemma cell_delete_effect:
  assumes "cell_delete L env key st = (rc, st')"
  shows "echanges (if rc = STORAGE_OK then upd env key None else keep) (ag_envs st) (ag_envs st')"
proof -
  obtain drc where d: "ag_delete L st env key = (drc, st')"
    and rc: "rc = (if drc = STORAGE_ERR_NOTFOUND then STORAGE_OK else drc)"
    using assms by (auto simp: cell_delete_def split: prod.splits)
  note del = effect_envs [OF ag_delete_writes(1) [OF d]]
  show ?thesis
  proof (cases "drc = STORAGE_ERR_NOTFOUND")
    case True
    then have "contents st env key = None" using ag_delete_writes(2) [OF d] by simp
    moreover have "echanges keep (ag_envs st) (ag_envs st')" using del True by simp
    ultimately have "echanges (upd env key None) (ag_envs st) (ag_envs st')"
      by (elim envs_effect_cong) (auto simp: keep_def upd_def ag_map_def fun_upd_idem)
    with True rc show ?thesis by simp
  next
    case False
    with del rc show ?thesis by simp
  qed
qed

lemma cell_restore_effect:
  assumes "cell_restore L env u st = (rc, st')" and "cell_stash key c u"
  shows "echanges (if rc = STORAGE_OK then upd env key c else keep) (ag_envs st) (ag_envs st')"
proof -
  from assms(2) consider v where "u = Cell_Int key True v" "c = Some (encode_int v)"
    | b n where "u = Cell_Bytes key True b n" "c = Some (encode_bytes (take n b))"
    | v where "u = Cell_Int key False v" "c = None" | b n where "u = Cell_Bytes key False b n" "c = None"
    by (auto simp: cell_stash_def split: if_splits)
  then show ?thesis
    using assms(1)
    by cases (auto simp: cell_restore_def split: if_splits
        dest!: ag_set_int_writes ag_set_bytes_writes cell_delete_effect effect_envs)
qed

lemma cell_undo_effect:
  assumes "cell_undo L S env col st r = (st', r')"
    and "get_list_data S r (''undo_'' @ col) = Some u" and "cell_stash key (contents a env key) u"
    and "agree_but env_map live_txns live_cursors K (ag_envs a) (ag_envs st)"
  shows "agree_but env_map live_txns live_cursors (K - {(env, key)}) (ag_envs a) (ag_envs st') \<or>
    agree_but env_map live_txns live_cursors K (ag_envs a) (ag_envs st') \<and>
      (req_error r = SNMP_ERR_NOERROR \<longrightarrow> req_error r' = SNMP_ERR_UNDOFAILED)"
proof -
  obtain rc st1 where s: "cell_restore L env u st = (rc, st1)" by fastforce
  have st': "st' = st1" and r': "rc \<noteq> STORAGE_OK \<Longrightarrow> req_error r = SNMP_ERR_NOERROR \<Longrightarrow>
      req_error r' = SNMP_ERR_UNDOFAILED"
    using assms(1,2) s by (auto simp: cell_undo_def remove_error error_first split: if_splits)
  note eff = cell_restore_effect [OF s assms(3)]
  show ?thesis
  proof (cases "rc = STORAGE_OK")
    case True
    with eff agree_but_restore [OF assms(4)] st' show ?thesis by simp
  next
    case False
    with eff agree_but_keep [OF assms(4)] st' r' show ?thesis by simp
  qed
qed

lemma cell_undo_nothing:
  "get_list_data S r (''undo_'' @ col) = None \<Longrightarrow> cell_undo L S env col st r = (st, r)"
  by (simp add: cell_undo_def)

lemma cell_undo_others:
  assumes "cell_undo L S env col st r = (st', r')" and "n \<noteq> ''undo_'' @ col"
  shows "get_list_data S r' n = get_list_data S r n"
  using assms by (auto simp: cell_undo_def remove_other error_data split: option.splits prod.splits if_splits)

text \<open>Of the three blocks of UNDO only the one of the request's column does anything.\<close>

lemma port_undo_one:
  assumes "covered S m0 r" and "portConfigTable_undo L S st r = (st', r')"
  shows "port_cell S r = None \<Longrightarrow> st' = st \<and> r' = r"
    and "port_cell S r = Some (env, col, key) \<Longrightarrow> cell_undo L S env col st r = (st', r')"
proof -
  show "st' = st \<and> r' = r" if "port_cell S r = None"
    using that assms
    by (simp add: covered_def port_stash_names_def portConfigTable_undo_def cell_undo_def)
  assume cell: "port_cell S r = Some (env, col, key)"
  then consider "env = Config_Env" "col = ''portDescr''" | "env = Config_Env" "col = ''portAdminStatus''"
    | "env = Cache_Env" "col = ''portAlarmThresholdMilliC''"
    by (auto simp: port_cell_def port_column_def split: option.splits prod.splits if_splits)
  then show "cell_undo L S env col st r = (st', r')"
  proof cases
    case 1
    with assms cell show ?thesis
      using cell_undo_others [of Config_Env "''portDescr''" st r]
      by (cases "cell_undo L S Config_Env ''portDescr'' st r")
        (auto simp: covered_def port_stash_names_def portConfigTable_undo_def cell_undo_nothing)
  next
    case 2
    with assms cell show ?thesis
      using cell_undo_others [of Config_Env "''portAdminStatus''" st r]
      by (cases "cell_undo L S Config_Env ''portAdminStatus'' st r")
        (auto simp: covered_def port_stash_names_def portConfigTable_undo_def cell_undo_nothing)
  next
    case 3
    with assms cell show ?thesis
      by (auto simp: covered_def port_stash_names_def portConfigTable_undo_def cell_undo_nothing)
  qed
qed

lemma port_undo_restores:
  assumes "covered S (contents a) r" and "portConfigTable_undo L S st r = (st', r')"
    and "agree_but env_map live_txns live_cursors (cells [r] \<union> K) (ag_envs a) (ag_envs st)"
    and "req_error r' \<noteq> SNMP_ERR_UNDOFAILED"
  shows "agree_but env_map live_txns live_cursors K (ag_envs a) (ag_envs st')"
proof (cases "port_cell S r")
  case None
  then have "cells [r] = {}" by (auto simp: cells_def)
  with port_undo_one(1) [OF assms(1,2) None] assms(3) show ?thesis by simp
next
  case (Some cell)
  then obtain env col key where cell: "port_cell S r = Some (env, col, key)" by (cases cell) auto
  with assms(1) obtain u where u: "get_list_data S r (''undo_'' @ col) = Some u"
    "cell_stash key (contents a env key) u" by (auto simp: covered_def)
  have cs: "cells [r] = (if req_error r = SNMP_ERR_NOERROR then {(env, key)} else {})"
    using cell by (auto simp: cells_def)
  have sub: "cells [r] \<union> K - {(env, key)} \<subseteq> K" by (auto simp: cs)
  from cell_undo_effect [OF port_undo_one(2) [OF assms(1,2) cell] u assms(3)] show ?thesis
  proof
    assume "agree_but env_map live_txns live_cursors (cells [r] \<union> K - {(env, key)}) (ag_envs a) (ag_envs st')"
    then show ?thesis using sub by (rule agree_but_mono)
  next
    assume *: "agree_but env_map live_txns live_cursors (cells [r] \<union> K) (ag_envs a) (ag_envs st') \<and>
      (req_error r = SNMP_ERR_NOERROR \<longrightarrow> req_error r' = SNMP_ERR_UNDOFAILED)"
    then have "cells [r] = {}" using assms(4) cs by auto
    with * show ?thesis by simp
  qed
qed

end

subsection \<open>All requests of a SET\<close>

context subagent
begin

lemma reserve2_list:
  assumes "each_request (portConfigTable_reserve2 L S) st rs = (st', rs')"
    and "\<And>i. store_canonical (contents st i)"
    and "\<forall>r \<in> set rs. \<forall>n \<in> set port_stash_names. get_list_data S r n = None"
  shows "effect keep st st' \<and>
    (\<forall>r \<in> set rs'. req_error r = SNMP_ERR_NOERROR \<longrightarrow> covered S (contents st) r)"
  using assms
proof (induction rs arbitrary: st rs')
  case (Cons r rs)
  obtain st1 r1 where s: "portConfigTable_reserve2 L S st r = (st1, r1)" by fastforce
  obtain rs1 where t: "each_request (portConfigTable_reserve2 L S) st1 rs = (st', rs1)" "rs' = r1 # rs1"
    using Cons.prems(1) s by (auto split: prod.splits)
  have "\<forall>n \<in> set port_stash_names. get_list_data S r n = None" using Cons.prems(3) by simp
  note head = reserve2_covers [OF s Cons.prems(2) this]
  have map: "contents st1 = contents st" using ag_keep_map [OF head(1)] by blast
  with Cons.IH [OF t(1)] Cons.prems(2,3) head t(2) show ?case by (auto intro: ag_keep_trans)
qed simp

lemma action_list:
  assumes "each_request (portConfigTable_action L S) st rs = (st', rs')"
    and "\<forall>r \<in> set rs. req_error r = SNMP_ERR_NOERROR \<and> covered S m0 r"
    and "agree_but env_map live_txns live_cursors K a (ag_envs st)"
  shows "agree_but env_map live_txns live_cursors (cells rs' \<union> K) a (ag_envs st') \<and>
    (\<forall>r \<in> set rs'. covered S m0 r)"
  using assms
proof (induction rs arbitrary: st rs' K)
  case (Cons r rs)
  obtain st1 r1 where s: "portConfigTable_action L S st r = (st1, r1)" by fastforce
  obtain rs1 where t: "each_request (portConfigTable_action L S) st1 rs = (st', rs1)" "rs' = r1 # rs1"
    using Cons.prems(1) s by (auto split: prod.splits)
  have "req_error r = SNMP_ERR_NOERROR" using Cons.prems(2) by simp
  note head = action_writes_cell [OF s this Cons.prems(3)]
  have "covered S m0 r1" using head covered_same [of S r r1 m0] Cons.prems(2) by simp
  moreover have "agree_but env_map live_txns live_cursors (cells rs1 \<union> (cells [r1] \<union> K)) a (ag_envs st') \<and>
      (\<forall>r \<in> set rs1. covered S m0 r)"
    by (rule Cons.IH [OF t(1)]) (use Cons.prems(2) head in auto)
  ultimately show ?case using t(2) cells_Cons [of r1 rs1] by (simp add: Un_ac)
qed simp

lemma undo_list:
  assumes "each_request (portConfigTable_undo L S) st rs = (st', rs')"
    and "\<forall>r \<in> set rs. covered S (contents a) r"
    and "agree_but env_map live_txns live_cursors (cells rs \<union> K) (ag_envs a) (ag_envs st)"
    and "\<forall>r \<in> set rs'. req_error r \<noteq> SNMP_ERR_UNDOFAILED"
  shows "agree_but env_map live_txns live_cursors K (ag_envs a) (ag_envs st')"
  using assms
proof (induction rs arbitrary: st rs')
  case (Cons r rs)
  obtain st1 r1 where s: "portConfigTable_undo L S st r = (st1, r1)" by fastforce
  obtain rs1 where t: "each_request (portConfigTable_undo L S) st1 rs = (st', rs1)" "rs' = r1 # rs1"
    using Cons.prems(1) s by (auto split: prod.splits)
  have "covered S (contents a) r" "req_error r1 \<noteq> SNMP_ERR_UNDOFAILED"
    "agree_but env_map live_txns live_cursors (cells [r] \<union> (cells rs \<union> K)) (ag_envs a) (ag_envs st)"
    using Cons.prems(2-4) t(2) cells_Cons [of r rs] by (simp_all add: Un_assoc)
  then have "agree_but env_map live_txns live_cursors (cells rs \<union> K) (ag_envs a) (ag_envs st1)"
    by (intro port_undo_restores [OF _ s])
  with Cons.IH [OF t(1)] Cons.prems(2,4) t(2) show ?case by simp
qed simp

lemma port_set_undone:
  assumes "handle_portConfigTable L S MODE_SET_RESERVE2 st rs = (c2, st2, rs2)"
    and "\<forall>r \<in> set rs2. req_error r = SNMP_ERR_NOERROR"
    and "handle_portConfigTable L S MODE_SET_ACTION st2 rs2 = (c3, st3, rs3)"
    and "handle_portConfigTable L S MODE_SET_UNDO st3 rs3 = (c4, st4, rs4)"
    and "\<forall>r \<in> set rs4. req_error r \<noteq> SNMP_ERR_UNDOFAILED"
    and "\<And>i. store_canonical (contents st i)"
    and "\<forall>r \<in> set rs. \<forall>n \<in> set port_stash_names. get_list_data S r n = None"
  shows "envs_same env_map live_txns live_cursors (ag_envs st) (ag_envs st4)"
proof -
  have steps: "each_request (portConfigTable_reserve2 L S) st rs = (st2, rs2)"
    "each_request (portConfigTable_action L S) st2 rs2 = (st3, rs3)"
    "each_request (portConfigTable_undo L S) st3 rs3 = (st4, rs4)"
    using assms(1,3,4) by (simp_all add: handle_portConfigTable_def)
  note r2 = reserve2_list [OF steps(1) assms(6,7)]
  have "agree_but env_map live_txns live_cursors {} (ag_envs st) (ag_envs st2)"
    using r2 by (auto simp: agree_but_nothing dest: ag_effect_keep_envs)
  note r3 = action_list [OF steps(2) _ this, of "contents st"]
  have "agree_but env_map live_txns live_cursors {} (ag_envs st) (ag_envs st4)"
    by (rule undo_list [OF steps(3)]) (use r2 r3 assms(2,5) in auto)
  then show ?thesis by (simp add: agree_but_nothing)
qed

end

end
