(* ===== verification/Scalar_Objects.thy ===== *)
theory Scalar_Objects
  imports Table_Set
begin

text \<open>
  The eight scalar objects of \<open>src/generated/demo_config.c\<close> and \<open>src/generated/demo_status.c\<close> as
  one family: the handler, the environment and the key of each, the values it takes and what a GET
  of a stored value answers. The lemmas say once for the family what the four phases of a SET and
  a GET do. The SET driver calls the phases in the order of the agent.
\<close>

datatype scalar =
    DeviceName | TempThresholdMilliC | AdminStatusExt | SampleIntervalSec
  | CpuTempMilliC | SampleCount | LastUpdateEpoch | StatusText

definition config_scalars :: "scalar set" where
  "config_scalars = {DeviceName, TempThresholdMilliC, AdminStatusExt, SampleIntervalSec}"

fun scalar_handler ::
  "('e, 't, 'c) platform \<Rightarrow> ('r, 'i, 'v) snmp_api \<Rightarrow> scalar \<Rightarrow> agent_mode \<Rightarrow> ('e, 'v) agent \<Rightarrow> 'r \<Rightarrow>
   snmp_err \<times> ('e, 'v) agent \<times> 'r" where
  "scalar_handler L S DeviceName = handle_deviceName L S"
| "scalar_handler L S TempThresholdMilliC = handle_tempThresholdMilliC L S"
| "scalar_handler L S AdminStatusExt = handle_adminStatusExt L S"
| "scalar_handler L S SampleIntervalSec = handle_sampleIntervalSec L S"
| "scalar_handler L S CpuTempMilliC = handle_cpuTempMilliC L S"
| "scalar_handler L S SampleCount = handle_sampleCount L S"
| "scalar_handler L S LastUpdateEpoch = handle_lastUpdateEpoch L S"
| "scalar_handler L S StatusText = handle_statusText L S"

fun scalar_key :: "scalar \<Rightarrow> string" where
  "scalar_key DeviceName = ''deviceName''"
| "scalar_key TempThresholdMilliC = ''tempThresholdMilliC''"
| "scalar_key AdminStatusExt = ''adminStatusExt''"
| "scalar_key SampleIntervalSec = ''sampleIntervalSec''"
| "scalar_key CpuTempMilliC = ''cpuTempMilliC''"
| "scalar_key SampleCount = ''sampleCount''"
| "scalar_key LastUpdateEpoch = ''lastUpdateEpoch''"
| "scalar_key StatusText = ''statusText''"

definition scalar_env :: "scalar \<Rightarrow> env_id" where
  "scalar_env ob = (if ob \<in> {DeviceName, AdminStatusExt, SampleIntervalSec} then Config_Env else Cache_Env)"

definition scalar_asn :: "scalar \<Rightarrow> asn_type" where
  "scalar_asn ob = (if ob \<in> {DeviceName, StatusText} then ASN_OCTET_STR
     else if ob = SampleCount then ASN_COUNTER
     else if ob \<in> {SampleIntervalSec, LastUpdateEpoch} then ASN_UNSIGNED else ASN_INTEGER)"

text \<open>The values of the MIB, and the cell that holds the value of a request.\<close>

fun scalar_legal :: "('r, 'i, 'v) snmp_api \<Rightarrow> scalar \<Rightarrow> 'r \<Rightarrow> bool" where
  "scalar_legal S DeviceName r = (vb_val_len S r \<le> 63)"
| "scalar_legal S TempThresholdMilliC r = (sint (vb_integer S r) \<in> {- 40000 .. 125000})"
| "scalar_legal S AdminStatusExt r = (sint (vb_integer S r) \<in> {1, 2, 3})"
| "scalar_legal S SampleIntervalSec r = (sint (vb_integer S r) \<in> {1 .. 86400})"
| "scalar_legal S _ r = False"

fun scalar_cell :: "('r, 'i, 'v) snmp_api \<Rightarrow> scalar \<Rightarrow> 'r \<Rightarrow> bytes" where
  "scalar_cell S DeviceName r = encode_bytes (payload_of (vb_string S r) (vb_val_len S r))"
| "scalar_cell S SampleIntervalSec r = encode_uint (word_of_int (sint (vb_integer S r)))"
| "scalar_cell S _ r = encode_int (word_of_int (sint (vb_integer S r)))"

text \<open>What a GET answers for a stored value; \<open>None\<close> if the value is not of the object's type.\<close>

definition answered :: "storage_rc \<times> 'v option \<Rightarrow> ('v \<Rightarrow> 'a) \<Rightarrow> 'a option" where
  "answered r f = (if fst r = STORAGE_OK then map_option f (snd r) else None)"

fun scalar_answer :: "scalar \<Rightarrow> bytes \<Rightarrow> (asn_type \<times> (clong + bytes)) option" where
  "scalar_answer DeviceName d = answered (decode_bytes 64 d) (\<lambda>b. (ASN_OCTET_STR, Inr b))"
| "scalar_answer StatusText d = answered (decode_bytes 128 d) (\<lambda>b. (ASN_OCTET_STR, Inr b))"
| "scalar_answer SampleIntervalSec d = answered (decode_uint d) (\<lambda>v. (ASN_UNSIGNED, Inl (word_of_int (uint v))))"
| "scalar_answer SampleCount d = answered (decode_uint d) (\<lambda>v. (ASN_COUNTER, Inl (word_of_int (uint v))))"
| "scalar_answer LastUpdateEpoch d = answered (decode_uint d) (\<lambda>v. (ASN_UNSIGNED, Inl (word_of_int (uint v))))"
| "scalar_answer _ d = answered (decode_int d) (\<lambda>v. (ASN_INTEGER, Inl (word_of_int (sint v))))"

subsection \<open>SET\<close>

lemma scast_ucast_64_32: "(scast (w :: clong) :: uint32) = ucast w"
  by (rule bit_word_eqI) (auto simp: bit_simps)

text \<open>The whole exchange, the way the agent drives it when no other variable of the PDU fails.\<close>

definition drive_set ::
  "(agent_mode \<Rightarrow> 's \<Rightarrow> 'r \<Rightarrow> snmp_err \<times> 's \<times> 'r) \<Rightarrow> ('r \<Rightarrow> snmp_err) \<Rightarrow> bool \<Rightarrow> 's \<Rightarrow> 'r \<Rightarrow>
   set_outcome \<times> 's \<times> 'r" where
  "drive_set h err others_fail st r =
     (case h MODE_SET_RESERVE1 st r of (_, st, r) \<Rightarrow>
        if err r \<noteq> SNMP_ERR_NOERROR then (Freed, snd (h MODE_SET_FREE st r))
        else (case h MODE_SET_RESERVE2 st r of (_, st, r) \<Rightarrow>
          if err r \<noteq> SNMP_ERR_NOERROR then (Freed, snd (h MODE_SET_FREE st r))
          else (case h MODE_SET_ACTION st r of (_, st, r) \<Rightarrow>
            if err r \<noteq> SNMP_ERR_NOERROR \<or> others_fail then (Undone, snd (h MODE_SET_UNDO st r))
            else (Committed, snd (h MODE_SET_COMMIT st r)))))"

lemma drive_set_run:
  assumes "drive_set h err f st r = (oc, st', r')"
  shows "set_run h err st r oc st' r'"
proof -
  obtain c1 st1 r1 where 1: "h MODE_SET_RESERVE1 st r = (c1, st1, r1)" by (cases "h MODE_SET_RESERVE1 st r")
  obtain c2 st2 r2 where 2: "h MODE_SET_RESERVE2 st1 r1 = (c2, st2, r2)" by (cases "h MODE_SET_RESERVE2 st1 r1")
  obtain c3 st3 r3 where 3: "h MODE_SET_ACTION st2 r2 = (c3, st3, r3)" by (cases "h MODE_SET_ACTION st2 r2")
  note set_run.intros [of h, intro]
  show ?thesis
    using assms unfolding drive_set_def 1 2 3 prod.case
    by (cases "h MODE_SET_FREE st1 r1"; cases "h MODE_SET_FREE st2 r2"; cases "h MODE_SET_UNDO st3 r3";
        cases "h MODE_SET_COMMIT st3 r3")
      (auto intro: 1 2 3 split: if_splits)
qed

text \<open>The stashed value of an object, before RESERVE2 there is none.\<close>

definition scalar_stash :: "('r, 'i, 'v) snmp_api \<Rightarrow> scalar \<Rightarrow> 'r \<Rightarrow> stash option" where
  "scalar_stash S ob r = get_list_data S r (''undo_'' @ scalar_key ob)"

context subagent
begin

lemma scalar_freed:
  assumes "ob \<in> config_scalars" and "set_run (scalar_handler L S ob) req_error st r Freed st' r'"
  shows "echanges keep (ag_envs st) (ag_envs st')"
  using assms deviceName.freed_keeps tempThreshold.freed_keeps adminStatusExt.freed_keeps
    sampleInterval.freed_keeps
  by (auto simp: config_scalars_def)

lemma scalar_committed:
  assumes "ob \<in> config_scalars" and "set_run (scalar_handler L S ob) req_error st r Committed st' r'"
  shows "check_vb_type S r (scalar_asn ob) = SNMP_ERR_NOERROR \<and> scalar_legal S ob r \<and>
    echanges (upd (scalar_env ob) (scalar_key ob) (Some (scalar_cell S ob r))) (ag_envs st) (ag_envs st')"
  using assms
  by (auto simp: config_scalars_def scalar_env_def scalar_asn_def scast_ucast_64_32
      dest!: deviceName.committed_stores tempThreshold.committed_stores adminStatusExt.committed_stores
        sampleInterval.committed_stores)

lemma scalar_undone:
  assumes "ob \<in> config_scalars" and "set_run (scalar_handler L S ob) req_error st r Undone st' r'"
    and "scalar_stash S ob r = None" and "contents st (scalar_env ob) (scalar_key ob) = Some d"
    and "canonical_value d"
  shows "echanges keep (ag_envs st) (ag_envs st') \<or> req_error r' = SNMP_ERR_UNDOFAILED"
  using assms deviceName.undone_restores [of st r st' r' d] tempThreshold.undone_restores [of st r st' r' d]
    adminStatusExt.undone_restores [of st r st' r' d] sampleInterval.undone_restores [of st r st' r' d]
  by (auto simp: config_scalars_def scalar_env_def scalar_stash_def)

text \<open>Whatever the outcome of its undo, a SET leaves the old value or the legal new one.\<close>

lemma scalar_undone_cases:
  assumes "ob \<in> config_scalars" and "set_run (scalar_handler L S ob) req_error st r Undone st' r'"
    and "scalar_stash S ob r = None" and "contents st (scalar_env ob) (scalar_key ob) = Some d"
    and "canonical_value d"
  shows "scalar_legal S ob r \<and> (echanges keep (ag_envs st) (ag_envs st') \<or>
    echanges (upd (scalar_env ob) (scalar_key ob) (Some (scalar_cell S ob r))) (ag_envs st) (ag_envs st'))"
  using assms deviceName.undone_cases [of st r st' r' d] tempThreshold.undone_cases [of st r st' r' d]
    adminStatusExt.undone_cases [of st r st' r' d] sampleInterval.undone_cases [of st r st' r' d]
  by (auto simp: config_scalars_def scalar_env_def scalar_stash_def scast_ucast_64_32)

text \<open>A GET reads only, whatever the platform does.\<close>

lemma scalar_get_keeps:
  assumes "scalar_handler L S ob MODE_GET st r = (c, st', r')"
  shows "effect keep st st'"
proof -
  have "effect keep st st'" if "scalar_get_int L S i k st r = (st', r')" for i k
    using that ag_get_int_reads [of st i k]
    by (auto simp: scalar_get_int_def split: prod.splits if_splits)
  moreover have "effect keep st st'" if "scalar_get_uint L S i k ty st r = (st', r')" for i k ty
    using that ag_get_uint_reads [of st i k]
    by (auto simp: scalar_get_uint_def split: prod.splits if_splits)
  moreover have "effect keep st st'" if "scalar_get_bytes L S i k cap st r = (st', r')" for i k cap
    using that ag_get_bytes_reads [of st i k cap]
    by (auto simp: scalar_get_bytes_def split: prod.splits if_splits)
  ultimately show ?thesis
    using assms by (cases ob) (auto simp: config_handler_defs handle_cpuTempMilliC_def handle_sampleCount_def
      handle_lastUpdateEpoch_def handle_statusText_def)
qed

text \<open>The verdict of RESERVE1 on a fresh request.\<close>

lemma scalar_reserve1:
  assumes "ob \<in> config_scalars" and "req_error r = SNMP_ERR_NOERROR"
  shows "\<exists>r'. scalar_handler L S ob MODE_SET_RESERVE1 st r = (SNMP_ERR_NOERROR, st, r') \<and>
    req_error r' = (if check_vb_type S r (scalar_asn ob) \<noteq> SNMP_ERR_NOERROR then SNMP_ERR_WRONGTYPE
      else if scalar_legal S ob r then SNMP_ERR_NOERROR
      else if ob = DeviceName then SNMP_ERR_WRONGLENGTH else SNMP_ERR_WRONGVALUE)"
  using assms error_first [OF assms(2)]
  by (auto simp: config_scalars_def config_handler_defs scalar_asn_def reserve1_size_def
      reserve1_range_def reserve1_enum_def Let_def)

end

subsection \<open>GET\<close>

lemma scalar_answer_eq:
  "scalar_answer DeviceName = (\<lambda>d. answered (decode_bytes 64 d) (\<lambda>b. (ASN_OCTET_STR, Inr b)))"
  "scalar_answer StatusText = (\<lambda>d. answered (decode_bytes 128 d) (\<lambda>b. (ASN_OCTET_STR, Inr b)))"
  "scalar_answer SampleIntervalSec = (\<lambda>d. answered (decode_uint d) (\<lambda>v. (ASN_UNSIGNED, Inl (ucast v))))"
  "scalar_answer SampleCount = (\<lambda>d. answered (decode_uint d) (\<lambda>v. (ASN_COUNTER, Inl (ucast v))))"
  "scalar_answer LastUpdateEpoch = (\<lambda>d. answered (decode_uint d) (\<lambda>v. (ASN_UNSIGNED, Inl (ucast v))))"
  "ob \<in> {TempThresholdMilliC, AdminStatusExt, CpuTempMilliC} \<Longrightarrow>
     scalar_answer ob = (\<lambda>d. answered (decode_int d) (\<lambda>v. (ASN_INTEGER, Inl (scast v))))"
  by (auto simp: fun_eq_iff)

lemmas status_handler_defs = handle_cpuTempMilliC_def handle_sampleCount_def handle_lastUpdateEpoch_def
  handle_statusText_def

lemma scalar_key_ok [simp]: "key_ok (scalar_key ob)"
  by (cases ob) (simp_all add: key_ok_def)

text \<open>What a GET leaves in the request, from the cell and its answer.\<close>

definition get_outcome :: "('r \<Rightarrow> snmp_err) \<Rightarrow> ('r \<Rightarrow> (asn_type \<times> (clong + bytes)) option) \<Rightarrow>
    bytes option \<Rightarrow> (bytes \<Rightarrow> (asn_type \<times> (clong + bytes)) option) \<Rightarrow> 'r \<Rightarrow> bool" where
  "get_outcome err result cell ans r' \<longleftrightarrow>
     (case cell of
        None \<Rightarrow> err r' = SNMP_NOSUCHINSTANCE
      | Some d \<Rightarrow> (case ans d of
            None \<Rightarrow> err r' = SNMP_ERR_GENERR
          | Some a \<Rightarrow> err r' = SNMP_ERR_NOERROR \<and> result r' = Some a))"

locale subagent_reliable =
  lmdb_reliable L env_map live_txns live_cursors txn_map txn_ro cur_map cur_pos +
  subagent L env_map live_txns live_cursors txn_map txn_ro cur_map cur_pos S req_error req_result
  for L :: "('e, 't, 'c) platform" and env_map live_txns live_cursors txn_map txn_ro cur_map cur_pos
    and S :: "('r, 'i, 'v) snmp_api" and req_error req_result
begin

lemma get_int_outcome:
  assumes "scalar_get_int L S i k st r = (st', r')" and "key_ok k" and "ag_envs st i \<noteq> None"
    and "req_error r = SNMP_ERR_NOERROR"
  shows "effect keep st st' \<and> get_outcome req_error req_result (contents st i k)
    (\<lambda>d. answered (decode_int d) (\<lambda>v. (ASN_INTEGER, Inl (scast v)))) r'"
proof -
  obtain rc v st1 where g: "ag_get_int L st i k = (rc, v, st1)" by (cases "ag_get_int L st i k")
  from ag_get_total(1) [OF assms(2,3)] g have rc: "rc =
    (case contents st i k of None \<Rightarrow> STORAGE_ERR_NOTFOUND | Some d \<Rightarrow> fst (decode_int d))" by simp
  from assms(1,4) g rc ag_get_int_reads [OF g] decode_fixed_rc show ?thesis
    by (auto simp: scalar_get_int_def get_outcome_def answered_def cell_read_def error_first
        integer_error integer_result decode_not_notfound split: if_splits option.splits)
qed

lemma get_uint_outcome:
  assumes "scalar_get_uint L S i k ty st r = (st', r')" and "key_ok k" and "ag_envs st i \<noteq> None"
    and "req_error r = SNMP_ERR_NOERROR"
  shows "effect keep st st' \<and> get_outcome req_error req_result (contents st i k)
    (\<lambda>d. answered (decode_uint d) (\<lambda>v. (ty, Inl (ucast v)))) r'"
proof -
  obtain rc v st1 where g: "ag_get_uint L st i k = (rc, v, st1)" by (cases "ag_get_uint L st i k")
  from ag_get_total(2) [OF assms(2,3)] g have rc: "rc =
    (case contents st i k of None \<Rightarrow> STORAGE_ERR_NOTFOUND | Some d \<Rightarrow> fst (decode_uint d))" by simp
  from assms(1,4) g rc ag_get_uint_reads [OF g] decode_fixed_rc show ?thesis
    by (auto simp: scalar_get_uint_def get_outcome_def answered_def cell_read_def error_first
        integer_error integer_result decode_not_notfound split: if_splits option.splits)
qed

lemma get_bytes_outcome:
  assumes "scalar_get_bytes L S i k cap st r = (st', r')" and "key_ok k" and "ag_envs st i \<noteq> None"
    and "req_error r = SNMP_ERR_NOERROR"
  shows "effect keep st st' \<and> get_outcome req_error req_result (contents st i k)
    (\<lambda>d. answered (decode_bytes cap d) (\<lambda>b. (ASN_OCTET_STR, Inr b))) r'"
proof -
  obtain rc buf len st1 where g: "ag_get_bytes L st i k cap = (rc, buf, len, st1)"
    by (cases "ag_get_bytes L st i k cap")
  from ag_get_total(3) [OF assms(2,3), of cap] g have rc: "rc =
    (case contents st i k of None \<Rightarrow> STORAGE_ERR_NOTFOUND | Some d \<Rightarrow> fst (decode_bytes cap d))" by simp
  from assms(1,4) g rc ag_get_bytes_reads [OF g] decode_bytes_rc show ?thesis
    by (auto simp: scalar_get_bytes_def get_outcome_def answered_def cell_read_def error_first
        value_error value_result decode_not_notfound split: if_splits option.splits)
qed

lemma scalar_get:
  assumes "ag_envs st (scalar_env ob) \<noteq> None" and "req_error r = SNMP_ERR_NOERROR"
  shows "\<exists>st' r'. scalar_handler L S ob MODE_GET st r = (SNMP_ERR_NOERROR, st', r') \<and> effect keep st st' \<and>
    get_outcome req_error req_result (contents st (scalar_env ob) (scalar_key ob)) (scalar_answer ob) r'"
proof -
  obtain st' r' where g: "scalar_handler L S ob MODE_GET st r = (SNMP_ERR_NOERROR, st', r')"
    by (cases ob) (auto simp: config_handler_defs status_handler_defs intro: prod.exhaust)
  have k: "key_ok (scalar_key ob)" by simp
  note outcomes = get_int_outcome [OF _ k assms] get_uint_outcome [OF _ k assms] get_bytes_outcome [OF _ k assms]
  from g have "effect keep st st' \<and> get_outcome req_error req_result (contents st (scalar_env ob) (scalar_key ob)) (scalar_answer ob) r'"
    by (cases ob) (use outcomes in \<open>auto simp: config_handler_defs status_handler_defs scalar_env_def
      scalar_answer_eq\<close>)
  with g show ?thesis by blast
qed

end

interpretation demo_reliable: subagent_reliable "memdb no_limits" mem_map me_txns me_cursors mem_txn_map
    mt_ro mem_cur_map mc_pos snmp_demo dr_error dr_result
  by unfold_locales

end
