(* ===== verification/Table_Walk.thy ===== *)
theory Table_Walk
  imports Table_Set
begin

text \<open>
  A walk over a table, the way net-snmp's iterator drives the callbacks of
  \<open>src/generated/demo_config_table.c\<close> and \<open>src/generated/demo_status_table.c\<close>: first data point,
  then next data point until there is none. It visits the stored rows that fit the table's index
  syntax, once each and in ascending OID order.
\<close>

subsection \<open>The iteration\<close>

fun walk_rows :: "('r, 'i, 'v) snmp_api \<Rightarrow> nat \<Rightarrow> table_loop option \<Rightarrow> 'i option \<Rightarrow> 'i list" where
  "walk_rows S 0 lp idx = []"
| "walk_rows S (Suc n) lp idx =
     (case get_next_data_point S lp False idx of (lp, _, idx, found) \<Rightarrow>
        if found then the idx # walk_rows S n lp idx else [])"

text \<open>The rows a list of index varbinds names.\<close>

definition row_of :: "('r, 'i, 'v) snmp_api \<Rightarrow> 'i \<Rightarrow> int \<times> table_instance option" where
  "row_of S idx = table_instance_from_indexes S (Some \<lparr>tri_colnum = 0, tri_indexes = Some idx\<rparr>) (Some uninit_row)"

definition table_walk ::
  "('r, 'i, 'v) snmp_api \<Rightarrow> nat \<Rightarrow> (('e, 'v) agent \<times> table_loop option \<times> bool \<times> 'i option \<times> bool) option \<Rightarrow>
   (('e, 'v) agent \<times> 'i list) option" where
  "table_walk S n first =
     (case first of
        None \<Rightarrow> None
      | Some (st, lp, _, idx, found) \<Rightarrow> Some (st, if found then the idx # walk_rows S n lp idx else []))"

context snmp_index_syntax
begin

abbreviation fits_syntax :: "uint32 list \<Rightarrow> bool" where
  "fits_syntax xs \<equiv> accepts (map ucast xs)"

lemma to_indexes_row:
  assumes "valid_oid xs"
  shows "\<exists>idx'. table_instance_to_indexes S (Some (inst_of xs)) (Some idx) =
      ((if fits_syntax xs then 0 else - 1), Some idx') \<and>
    (fits_syntax xs \<longrightarrow> row_of S idx' = (0, Some (inst_of xs)))"
proof -
  obtain ok idx' where p: "parse_oid_indexes S (map ucast xs) idx = (ok, idx')" by fastforce
  then have t: "table_instance_to_indexes S (Some (inst_of xs)) (Some idx) = (if ok then 0 else - 1, Some idx')"
    using assms by (simp add: table_instance_to_indexes_def inst_of_def inst_oid_def valid_oid_def)
  moreover have "ok = fits_syntax xs" using parse_accepts [of "map ucast xs" idx] p by simp
  moreover have "row_of S idx' = (0, Some (inst_of xs))" if ok
    using from_to_indexes [OF assms, of idx idx'] t that by (simp add: row_of_def)
  ultimately show ?thesis by auto
qed

text \<open>One call: it skips to the first row left that fits.\<close>

lemma next_row_skips:
  "rs_rows r = map inst_of (pre @ os) \<Longrightarrow> \<forall>xs \<in> set os. valid_oid xs \<Longrightarrow>
     \<exists>idx'. case dropWhile (\<lambda>xs. \<not> fits_syntax xs) os of
       [] \<Rightarrow> next_row S (Some r) (length pre) (Some idx) = (length (rs_rows r), Some idx', False)
     | xs # os' \<Rightarrow> next_row S (Some r) (length pre) (Some idx) =
         (length (rs_rows r) - length os', Some idx', True) \<and> row_of S idx' = (0, Some (inst_of xs))"
proof (induction os arbitrary: pre idx)
  case Nil
  then show ?case by (simp add: next_row.simps table_rowset_count_def)
next
  case (Cons xs os)
  from Cons.prems(2) to_indexes_row [of xs idx] obtain idx1 where
    t: "table_instance_to_indexes S (Some (inst_of xs)) (Some idx) =
      ((if fits_syntax xs then 0 else - 1), Some idx1)"
      "fits_syntax xs \<Longrightarrow> row_of S idx1 = (0, Some (inst_of xs))" by auto
  have at: "table_rowset_at (Some r) (length pre) = Some (inst_of xs)"
    using Cons.prems(1) by (simp add: table_rowset_at_def nth_append)
  have more: "length pre < table_rowset_count (Some r)"
    using Cons.prems(1) by (simp add: table_rowset_count_def)
  show ?case
  proof (cases "fits_syntax xs")
    case True
    with t at more Cons.prems(1) show ?thesis by (simp add: next_row.simps [of S _ "length pre"])
  next
    case False
    have step: "next_row S (Some r) (length pre) (Some idx) = next_row S (Some r) (length (pre @ [xs])) (Some idx1)"
      using t at more False by (simp add: next_row.simps [of S _ "length pre"])
    from Cons.IH [of "pre @ [xs]" idx1] Cons.prems False show ?thesis unfolding step by simp
  qed
qed

lemma walk_rows_filter:
  "rs_rows r = map inst_of (pre @ os) \<Longrightarrow> \<forall>xs \<in> set os. valid_oid xs \<Longrightarrow> length os < n \<Longrightarrow>
     map (row_of S) (walk_rows S n (Some \<lparr>lp_rows = Some r, lp_next = length pre\<rparr>) (Some idx)) =
     map (\<lambda>xs. (0, Some (inst_of xs))) (filter fits_syntax os)"
proof (induction n arbitrary: pre os idx)
  case (Suc n)
  define T where "T = takeWhile (\<lambda>xs. \<not> fits_syntax xs) os"
  define D where "D = dropWhile (\<lambda>xs. \<not> fits_syntax xs) os"
  have os: "os = T @ D" by (simp add: T_def D_def)
  have "filter fits_syntax T = []" by (auto simp: T_def filter_empty_conv dest: set_takeWhileD)
  then have filt: "filter fits_syntax os = filter fits_syntax D" by (simp add: os)
  obtain idx' where nx: "case D of
       [] \<Rightarrow> next_row S (Some r) (length pre) (Some idx) = (length (rs_rows r), Some idx', False)
     | xs # os' \<Rightarrow> next_row S (Some r) (length pre) (Some idx) =
         (length (rs_rows r) - length os', Some idx', True) \<and> row_of S idx' = (0, Some (inst_of xs))"
    unfolding D_def using next_row_skips [OF Suc.prems(1,2), of idx] by blast
  show ?case
  proof (cases D)
    case Nil
    with nx filt show ?thesis by (simp add: get_next_data_point_def)
  next
    case (Cons xs os')
    have fits: "fits_syntax xs"
      using hd_dropWhile [of "\<lambda>xs. \<not> fits_syntax xs" os] Cons by (simp flip: D_def)
    define pre' where "pre' = pre @ T @ [xs]"
    have rows: "rs_rows r = map inst_of (pre' @ os')" using Suc.prems(1) by (simp add: pre'_def os Cons)
    have "map (row_of S) (walk_rows S n (Some \<lparr>lp_rows = Some r, lp_next = length pre'\<rparr>) (Some idx')) =
        map (\<lambda>xs. (0, Some (inst_of xs))) (filter fits_syntax os')"
      by (rule Suc.IH [OF rows]) (use Suc.prems os Cons in auto)
    moreover have "length (rs_rows r) - length os' = length pre'" by (simp add: rows)
    ultimately show ?thesis
      using nx Cons filt fits by (simp add: get_next_data_point_def)
  qed
qed simp

end

subsection \<open>The two tables\<close>

text \<open>The walk of a table whose rowset is loaded: the first row, if any, comes from the same loop.\<close>

lemma table_walk_first:
  "table_walk S n (Some (st, get_next_data_point S lp dc idx)) = Some (st, walk_rows S (Suc n) lp idx)"
  by (cases lp) (auto simp: table_walk_def get_next_data_point_def split: prod.splits)

definition table_ready :: "'e envs \<Rightarrow> bool" where
  "table_ready envs \<longleftrightarrow> (\<forall>i. envs i \<noteq> None)"

lemma columns_usable:
  assumes "table_ready envs"
  shows "\<forall>c \<in> set portConfigTable_column_refs. column_usable envs c"
    and "\<forall>c \<in> set sensorTable_column_refs. column_usable envs c"
  using assms
  by (simp_all add: table_ready_def portConfigTable_column_refs_def sensorTable_column_refs_def column_usable_def)

locale table_walks =
  lmdb_reliable L env_map live_txns live_cursors txn_map txn_ro cur_map cur_pos +
  snmp_index_syntax S accepts
  for L :: "('e, 't, 'c) platform" and env_map live_txns live_cursors txn_map txn_ro cur_map cur_pos
    and S :: "('r, 'i, 'v) snmp_api" and accepts
begin

lemma walk_loaded:
  assumes "rowset_holds rs (table_rows env_map envs cols) j" and "card (table_rows env_map envs cols) \<le> n"
  shows "map (row_of S) (walk_rows S (Suc n) (Some \<lparr>lp_rows = Some rs, lp_next = 0\<rparr>) (Some idx)) =
    map (\<lambda>xs. (0, Some (inst_of xs))) (filter fits_syntax (sorted_list_of_set (table_rows env_map envs cols)))"
proof -
  let ?os = "sorted_list_of_set (table_rows env_map envs cols)"
  have "\<forall>xs \<in> set ?os. valid_oid xs"
  proof (cases "finite (table_rows env_map envs cols)")
    case True
    then show ?thesis using table_rows_valid by (fastforce simp: valid_oid_def)
  qed simp
  moreover have "length ?os < Suc n" using assms(2) by simp
  ultimately show ?thesis
    using walk_rows_filter [of rs "[]" ?os "Suc n" idx] assms(1) by (simp add: rowset_holds_def)
qed

lemma port_walk:
  assumes "table_ready (ag_envs st)"
    and "card (table_rows env_map (ag_envs st) portConfigTable_column_refs) \<le> n"
  shows "\<exists>st' is. table_walk S n (portConfigTable_get_first_data_point L S st dc (Some idx)) = Some (st', is) \<and>
    envs_same env_map live_txns live_cursors (ag_envs st) (ag_envs st') \<and>
    map (row_of S) is = map (\<lambda>xs. (0, Some (inst_of xs)))
      (filter fits_syntax (sorted_list_of_set (table_rows env_map (ag_envs st) portConfigTable_column_refs)))"
proof -
  have "portConfigTable_column_refs \<noteq> []" by (simp add: portConfigTable_column_refs_def)
  from table_rowset_load_total [OF this columns_usable(1) [OF assms(1)], of None] obtain rs envs' where
    l: "table_rowset_load L (ag_envs st) (Some portConfigTable_column_refs) (Some None) =
      Some (STORAGE_OK, Some (Some rs), envs')"
      "envs_same env_map live_txns live_cursors (ag_envs st) envs'"
      "rowset_holds rs (table_rows env_map (ag_envs st) portConfigTable_column_refs)
        (table_junk env_map (ag_envs st) portConfigTable_column_refs)" by blast
  with walk_loaded [OF l(3) assms(2), of idx] malloc_total show ?thesis
    by (simp add: portConfigTable_get_first_data_point_def portConfigTable_get_next_data_point_def
        table_walk_first Let_def)
qed

lemma sensor_walk:
  assumes "table_ready (ag_envs st)"
    and "card (table_rows env_map (ag_envs st) sensorTable_column_refs) \<le> n"
  shows "\<exists>st' is. table_walk S n (sensorTable_get_first_data_point L S st dc (Some idx)) = Some (st', is) \<and>
    envs_same env_map live_txns live_cursors (ag_envs st) (ag_envs st') \<and>
    map (row_of S) is = map (\<lambda>xs. (0, Some (inst_of xs)))
      (filter fits_syntax (sorted_list_of_set (table_rows env_map (ag_envs st) sensorTable_column_refs)))"
proof -
  have "sensorTable_column_refs \<noteq> []" by (simp add: sensorTable_column_refs_def)
  from table_rowset_load_total [OF this columns_usable(2) [OF assms(1)], of None] obtain rs envs' where
    l: "table_rowset_load L (ag_envs st) (Some sensorTable_column_refs) (Some None) =
      Some (STORAGE_OK, Some (Some rs), envs')"
      "envs_same env_map live_txns live_cursors (ag_envs st) envs'"
      "rowset_holds rs (table_rows env_map (ag_envs st) sensorTable_column_refs)
        (table_junk env_map (ag_envs st) sensorTable_column_refs)" by blast
  with walk_loaded [OF l(3) assms(2), of idx] malloc_total show ?thesis
    by (simp add: sensorTable_get_first_data_point_def sensorTable_get_next_data_point_def
        table_walk_first Let_def)
qed

end

interpretation demo_walks: table_walks "memdb no_limits" mem_map me_txns me_cursors mem_txn_map mt_ro
    mem_cur_map mc_pos snmp_demo "\<lambda>ids. length ids = 1"
  ..

end
