(* ===== verification/Table_Properties.thy ===== *)
theory Table_Properties
  imports Table_Walk
begin

text \<open>
  The properties of the dynamic table layer (\<open>src/table_rows.c\<close>, \<open>src/table_oid.c\<close> and the
  iterator callbacks of the two table modules), stated on the code's own operations.
\<close>

text \<open>
  C2. \<open>table_rowset_load\<close> always returns. On success the rowset holds, in strictly ascending OID
  order and once each, exactly the instances that have a cell under a canonical key in at least
  one column, and it counts the keys that name no instance; on failure the out parameter is
  untouched. Either way no stored value changes and every transaction and cursor it opened is
  released.
\<close>

theorem table_rowset_load_correct:
  assumes "lmdb_laws L env_map live_txns live_cursors txn_map txn_ro cur_map cur_pos"
    and "cols \<noteq> []"
  shows "\<exists>rc out envs'. table_rowset_load L envs (Some cols) (Some old) = Some (rc, out, envs') \<and>
    envs_same env_map live_txns live_cursors envs envs' \<and>
    (if rc = STORAGE_OK
     then \<exists>rs. out = Some (Some rs) \<and>
            rowset_holds rs (table_rows env_map envs cols) (table_junk env_map envs cols)
     else out = Some old)"
  using lmdb_laws.table_rowset_load_spec [OF assms, of envs old] by blast

definition demo_env :: "mem_env storage_env" where
  "demo_env = \<lparr>se_env = \<lparr>me_data = [(''portDescr.10'', []), (''portDescr.2'', []), (''portDescr.02'', []),
       (''portAdminStatus.2'', []), (''deviceName'', [])],
     me_txns = 0, me_cursors = 0\<rparr>, se_flags = 0, se_readonly = False\<rparr>"

definition demo_cols :: "table_column_ref list" where
  "demo_cols = [\<lparr>tc_env = Config_Env, tc_column = Some ''portDescr''\<rparr>,
                \<lparr>tc_env = Config_Env, tc_column = Some ''portAdminStatus''\<rparr>]"

theorem table_rowset_load_correct_witness:
  "demo_cols \<noteq> [] \<and>
   (\<exists>rc out envs'. table_rowset_load (memdb no_limits) (\<lambda>_. Some demo_env) (Some demo_cols) (Some None) =
      Some (rc, out, envs') \<and>
    envs_same mem_map me_txns me_cursors (\<lambda>_. Some demo_env) envs' \<and>
    (if rc = STORAGE_OK
     then \<exists>rs. out = Some (Some rs) \<and>
            rowset_holds rs (table_rows mem_map (\<lambda>_. Some demo_env) demo_cols)
              (table_junk mem_map (\<lambda>_. Some demo_env) demo_cols)
     else out = Some None))"
proof -
  have "demo_cols \<noteq> []" by (simp add: demo_cols_def)
  with table_rowset_load_correct [OF mem.lmdb_laws_axioms this] show ?thesis by blast
qed

text \<open>
  C39. While the platform has resources, loading a table whose columns have a name of at most 254
  bytes and an open environment ends with success and the complete rowset.
\<close>

theorem table_rowset_load_succeeds:
  assumes "lmdb_reliable L env_map live_txns live_cursors txn_map txn_ro cur_map cur_pos"
    and "cols \<noteq> []" and "\<forall>c \<in> set cols. column_usable envs c"
  shows "\<exists>rs envs'. table_rowset_load L envs (Some cols) (Some old) =
      Some (STORAGE_OK, Some (Some rs), envs') \<and>
    rowset_holds rs (table_rows env_map envs cols) (table_junk env_map envs cols)"
  using lmdb_reliable.table_rowset_load_total [OF assms] by blast

theorem table_rowset_load_succeeds_witness:
  "\<exists>rs envs'. table_rowset_load (memdb no_limits) (\<lambda>_. Some demo_env) (Some demo_cols) (Some None) =
      Some (STORAGE_OK, Some (Some rs), envs') \<and>
    rowset_holds rs (table_rows mem_map (\<lambda>_. Some demo_env) demo_cols)
      (table_junk mem_map (\<lambda>_. Some demo_env) demo_cols)"
proof -
  have "demo_cols \<noteq> []" "\<forall>c \<in> set demo_cols. column_usable (\<lambda>_. Some demo_env) c"
    by (simp_all add: demo_cols_def column_usable_def)
  from table_rowset_load_succeeds [OF mem_free.lmdb_reliable_axioms this] show ?thesis .
qed

text \<open>
  C17. A walk over either table is exact: driving the first and next callbacks until they stop visits,
  in ascending OID order and once each, the rows that have a cell in at least one column of the
  table and whose instance fits the index syntax; the index varbinds of each visit name that row.
  Nothing stored changes and no handle stays open.
\<close>

theorem table_walks_exact:
  assumes "lmdb_reliable L env_map live_txns live_cursors txn_map txn_ro cur_map cur_pos"
    and "snmp_index_syntax S accepts"
    and "\<forall>i. ag_envs st i \<noteq> None"
    and "card (table_rows env_map (ag_envs st) portConfigTable_column_refs) \<le> n"
    and "card (table_rows env_map (ag_envs st) sensorTable_column_refs) \<le> n"
  shows "(\<exists>st' is. table_walk S n (portConfigTable_get_first_data_point L S st dc (Some idx)) = Some (st', is) \<and>
      envs_same env_map live_txns live_cursors (ag_envs st) (ag_envs st') \<and>
      map (row_of S) is = map (\<lambda>xs. (0, Some (inst_of xs)))
        (filter (\<lambda>xs. accepts (map ucast xs))
          (sorted_list_of_set (table_rows env_map (ag_envs st) portConfigTable_column_refs)))) \<and>
    (\<exists>st' is. table_walk S n (sensorTable_get_first_data_point L S st dc (Some idx)) = Some (st', is) \<and>
      envs_same env_map live_txns live_cursors (ag_envs st) (ag_envs st') \<and>
      map (row_of S) is = map (\<lambda>xs. (0, Some (inst_of xs)))
        (filter (\<lambda>xs. accepts (map ucast xs))
          (sorted_list_of_set (table_rows env_map (ag_envs st) sensorTable_column_refs))))"
proof -
  note walks = table_walks.intro [OF assms(1,2)]
  have "table_ready (ag_envs st)" using assms(3) by (simp add: table_ready_def)
  from table_walks.port_walk [OF walks this assms(4)] table_walks.sensor_walk [OF walks this assms(5)]
  show ?thesis by blast
qed

definition walk_agent :: "(mem_env, (oid \<times> asn_type \<times> vb_value) list) agent" where
  "walk_agent = \<lparr>ag_envs = (\<lambda>_. Some demo_env), ag_temp_state = TEMP_STATE_CLEAR, ag_traps = [],
     ag_port_skipped = 0, ag_sensor_skipped = 0\<rparr>"

theorem table_walks_exact_witness:
  "\<exists>n st' is. table_walk snmp_demo n
      (portConfigTable_get_first_data_point (memdb no_limits) snmp_demo walk_agent False (Some 0)) = Some (st', is) \<and>
    map (row_of snmp_demo) is = map (\<lambda>xs. (0, Some (inst_of xs))) (filter (\<lambda>xs. length (map ucast xs :: oid) = 1)
      (sorted_list_of_set (table_rows mem_map (ag_envs walk_agent) portConfigTable_column_refs)))"
proof -
  have "\<forall>i. ag_envs walk_agent i \<noteq> None" by (simp add: walk_agent_def)
  from table_walks_exact [OF mem_free.lmdb_reliable_axioms snmp_demo.snmp_index_syntax_axioms this
      max.cobounded1 max.cobounded2]
  show ?thesis by blast
qed

text \<open>
  C33. Parsing and formatting a row instance are inverse: a text parses to an instance exactly if the
  instance has 1 to 128 sub-identifiers and formats to that very text. So only canonical dotted
  decimal parses, and two texts never name the same row.
\<close>

theorem table_instance_parse_format:
  "table_instance_parse (Some s) (Some old) = (STORAGE_OK, Some i) \<longleftrightarrow>
     (\<exists>xs. valid_oid xs \<and> i = inst_of xs \<and>
        table_instance_format (Some i) (Some buf) (Suc (length s)) = (STORAGE_OK, Some s))"
proof -
  have "table_instance_format (Some (inst_of xs)) (Some buf) (Suc (length s)) = (STORAGE_OK, Some s) \<longleftrightarrow>
      s = dotted xs" if "valid_oid xs" for xs
    using that format_spec [of "Suc (length s)" "inst_of xs" buf]
    by (auto simp: valid_oid_def)
  then show ?thesis by (auto simp: parse_iff valid_oid_def)
qed

text \<open>
  C38. Formatting stays inside the caller's buffer and is cut off cleanly: for every instance and
  buffer size the text and its terminating NUL fit, success means the whole dotted text is there
  and \<open>STORAGE_ERR_TOOBIG\<close> means it does not fit.
\<close>

theorem table_instance_format_bounds:
  assumes "inst_wf i" and "0 < ti_len i" and "0 < buflen"
  shows "\<exists>rc s. table_instance_format (Some i) (Some buf) buflen = (rc, Some s) \<and> length s < buflen \<and>
    prefix s (dotted (inst_oid i)) \<and>
    rc = (if length (dotted (inst_oid i)) < buflen then STORAGE_OK else STORAGE_ERR_TOOBIG) \<and>
    (rc = STORAGE_OK \<longleftrightarrow> s = dotted (inst_oid i))"
  using format_spec [OF assms(3,1,2), of buf] assms(3) by (auto simp: take_is_prefix)

theorem table_instance_format_bounds_witness:
  "\<exists>rc s. table_instance_format (Some (inst_of [10, 200])) (Some '''') 5 = (rc, Some s) \<and> length s < 5"
proof -
  have "inst_wf (inst_of [10, 200])" "0 < ti_len (inst_of [10, 200])" "0 < (5 :: nat)"
    by simp_all
  from table_instance_format_bounds [OF this] show ?thesis by blast
qed

text \<open>
  C35. Cells never share a key: if two calls of \<open>table_cell_key\<close> succeed with the same key, for
  columns whose names have no dot, then column and row instance are the same; and a key it produces
  is never longer than the storage layer accepts.
\<close>

theorem table_cell_key_injective:
  assumes "inst_wf i" "0 < ti_len i" "inst_wf j" "0 < ti_len j"
    and "CHR ''.'' \<notin> set c" "CHR ''.'' \<notin> set d"
    and "table_cell_key (Some c) (Some i) (Some b) n = (STORAGE_OK, Some key)"
    and "table_cell_key (Some d) (Some j) (Some b') m = (STORAGE_OK, Some key)"
  shows "c = d \<and> inst_oid i = inst_oid j \<and> key_ok key"
proof -
  have len: "length (inst_oid i) \<le> 128" "length (inst_oid j) \<le> 128"
    using assms(1,3) by (auto simp: inst_wf_def inst_oid_def)
  from assms(7) [unfolded table_cell_key_spec [OF assms(1,2)]]
    assms(8) [unfolded table_cell_key_spec [OF assms(3,4)]]
  have k: "key = cell_key c (inst_oid i)" "key = cell_key d (inst_oid j)" "length key \<le> 255" by auto
  with cell_key_inject [OF _ assms(5,6) len] show ?thesis by (auto simp: cell_key_def key_ok_def)
qed

theorem table_cell_key_injective_witness:
  "\<exists>key. table_cell_key (Some ''portDescr'') (Some (inst_of [7])) (Some '''') 256 = (STORAGE_OK, Some key) \<and>
     inst_oid (inst_of [7]) = inst_oid (inst_of [7]) \<and> key_ok key"
proof -
  have i: "inst_wf (inst_of [7])" "0 < ti_len (inst_of [7])" by simp_all
  have d: "CHR ''.'' \<notin> set ''portDescr''" by simp
  have "length (cell_key ''portDescr'' [7]) \<le> 255" by code_simp
  then have k: "table_cell_key (Some ''portDescr'') (Some (inst_of [7])) (Some '''') 256 =
      (STORAGE_OK, Some (cell_key ''portDescr'' [7]))"
    unfolding table_cell_key_spec [OF i] by simp
  from table_cell_key_injective [OF i i d d k k] k show ?thesis by blast
qed

text \<open>
  The row comparison is the SNMP order: on well-formed instances \<open>table_instance_compare\<close> is -1,
  0 or 1 as the sub-identifiers of the first are lexicographically below, equal to or above those
  of the second, read as unsigned numbers and a prefix first.
\<close>

lemma table_instance_compare_lexicographic:
  assumes "inst_wf a" and "inst_wf b"
  shows "table_instance_compare a b =
    (if inst_oid a < inst_oid b then - 1 else if inst_oid a = inst_oid b then 0 else 1)"
  using table_instance_compare_oid [OF assms] oid_compare_values [of "inst_oid a" "inst_oid b"]
    oid_compare_sign [of "inst_oid a" "inst_oid b"] by auto

text \<open>
  Sorting with that comparison and squeezing the duplicates out in place is the mathematical
  thing: the first \<open>unique\<close> entries of the array are the set of the instances, ascending.
\<close>

lemma rowset_sort_squeeze:
  assumes "\<forall>xs \<in> set os. length xs \<le> 128" and "os \<noteq> []"
  shows "case dedup_loop (qsort table_instance_compare (map inst_of os)) 1 1 of
    (rows, unique) \<Rightarrow> take unique rows = map inst_of (sorted_list_of_set (set os))"
  using sort_dedup [OF assms] by (auto split: prod.splits)

end
