(* ===== verification/Table_Commit.thy ===== *)
theory Table_Commit
  imports Table_Set
begin

text \<open>
  A SET on \<open>portConfigTable\<close> (\<open>src/generated/demo_config_table.c\<close>) that is committed: every request named an
  existing row and a writable column with a value the column admits, and the cells hold exactly the
  encodings of the values, written in the order of the requests.
\<close>

subsection \<open>What a request writes\<close>

definition port_legal :: "('r, 'i, 'v) snmp_api \<Rightarrow> 'r \<Rightarrow> bool" where
  "port_legal S r \<longleftrightarrow>
     (case extract_table_info S r of
        None \<Rightarrow> False
      | Some info \<Rightarrow> extract_iterator_context S r \<and>
          (if tri_colnum info = 2 then check_vb_type S r ASN_OCTET_STR = SNMP_ERR_NOERROR \<and> vb_val_len S r \<le> 63
           else if tri_colnum info = 3
           then check_vb_type S r ASN_INTEGER = SNMP_ERR_NOERROR \<and> sint (vb_integer S r) \<in> {1, 2, 3}
           else if tri_colnum info = 4
           then check_vb_type S r ASN_INTEGER = SNMP_ERR_NOERROR \<and> sint (vb_integer S r) \<in> {- 40000 .. 125000}
           else False))"

definition port_value :: "('r, 'i, 'v) snmp_api \<Rightarrow> 'r \<Rightarrow> bytes" where
  "port_value S r =
     (if map_option tri_colnum (extract_table_info S r) = Some 2
      then encode_bytes (payload_of (vb_string S r) (vb_val_len S r))
      else encode_int (ucast (vb_integer S r)))"

definition port_effect :: "('r, 'i, 'v) snmp_api \<Rightarrow> 'r \<Rightarrow> effect" where
  "port_effect S r = (case port_cell S r of None \<Rightarrow> keep
     | Some (env, col, key) \<Rightarrow> upd env key (Some (port_value S r)))"

fun port_effects :: "('r, 'i, 'v) snmp_api \<Rightarrow> 'r list \<Rightarrow> effect" where
  "port_effects S [] = keep"
| "port_effects S (r # rs) = (\<lambda>i m. port_effects S rs i (port_effect S r i m))"

lemma port_same:
  assumes "same_input S r r'"
  shows "port_legal S r' = port_legal S r" "port_effect S r' = port_effect S r" "port_cell S r' = port_cell S r"
proof -
  have in': "vb_integer S r' = vb_integer S r" "vb_string S r' = vb_string S r" "vb_val_len S r' = vb_val_len S r"
    "check_vb_type S r' = check_vb_type S r" "extract_table_info S r' = extract_table_info S r"
    "extract_iterator_context S r' = extract_iterator_context S r"
    using assms by (simp_all add: same_input_def)
  show "port_legal S r' = port_legal S r" "port_effect S r' = port_effect S r" "port_cell S r' = port_cell S r"
    unfolding port_legal_def port_effect_def port_value_def in' port_cell_same [OF assms] by (rule refl)+
qed

lemma port_effects_same: "list_all2 (same_input S) rs rs' \<Longrightarrow> port_effects S rs' = port_effects S rs"
  by (induction rule: list_all2_induct) (simp_all add: port_same)

text \<open>A phase on a list of requests is the phase on each.\<close>

lemma each_request_Cons:
  assumes "each_request f st (r # rs) = (st', rs')"
  obtains st1 r1 rs1 where "f st r = (st1, r1)" "each_request f st1 rs = (st', rs1)" "rs' = r1 # rs1"
  using assms by (auto split: prod.splits)

subsection \<open>The phases\<close>

context subagent
begin

lemma reserve1_port:
  assumes "portConfigTable_reserve1 S st r = (st', r')"
  shows "st' = st \<and> same_input S r r' \<and> (req_error r' = SNMP_ERR_NOERROR \<longrightarrow> port_legal S r)"
  using assms reserve1_legal(1) [of 63 r] reserve1_legal(2) [of ASN_INTEGER "- 40000" 125000 r]
    reserve1_legal(3) [of "[1, 2, 3]" r] error_set
  by (auto simp: portConfigTable_reserve1_def port_legal_def reserve1_frame error_input
      split: option.splits if_splits)

lemma reserve2_int_frame:
  assumes "cell_reserve2_int L S env col row st r = (st', r')"
  shows "effect keep st st' \<and> same_input S r r' \<and>
    (req_error r' = SNMP_ERR_NOERROR \<longrightarrow> fst (key_of col row) = STORAGE_OK)"
proof -
  obtain krc key where k: "key_of col row = (krc, key)" by fastforce
  obtain rc v st1 where g: "ag_get_int L st env key = (rc, v, st1)" by (cases "ag_get_int L st env key")
  show ?thesis
    using assms [unfolded cell_reserve2_int_def k prod.case g] ag_get_int_reads(1) [OF g]
      error_set [of SNMP_ERR_GENERR r] error_set [of SNMP_ERR_RESOURCEUNAVAILABLE r]
    by (auto simp: k error_input add_input split: if_splits)
qed

lemma reserve2_bytes_frame:
  assumes "cell_reserve2_bytes L S env col cap row st r = (st', r')"
  shows "effect keep st st' \<and> same_input S r r' \<and>
    (req_error r' = SNMP_ERR_NOERROR \<longrightarrow> fst (key_of col row) = STORAGE_OK)"
proof -
  obtain krc key where k: "key_of col row = (krc, key)" by fastforce
  obtain rc b n st1 where g: "ag_get_bytes L st env key cap = (rc, b, n, st1)"
    by (cases "ag_get_bytes L st env key cap")
  show ?thesis
    using assms [unfolded cell_reserve2_bytes_def k prod.case g] ag_get_bytes_reads(1) [OF g]
      error_set [of SNMP_ERR_GENERR r] error_set [of SNMP_ERR_RESOURCEUNAVAILABLE r]
    by (auto simp: k error_input add_input split: if_splits)
qed

lemma legal_cell:
  assumes "port_legal S r" and "request_row S r = Some (info, row)"
  obtains env col where "port_column (tri_colnum info) = Some (env, col)" "tri_colnum info \<in> {2, 3, 4}"
    "extract_table_info S r = Some info"
  using assms by (auto simp: port_legal_def request_row_def port_column_def split: option.splits prod.splits if_splits)

lemma reserve2_port:
  assumes "portConfigTable_reserve2 L S st r = (st', r')" and "port_legal S r"
  shows "effect keep st st' \<and> same_input S r r' \<and> (req_error r' = SNMP_ERR_NOERROR \<longrightarrow> port_cell S r \<noteq> None)"
proof (cases "request_row S r")
  case None
  with assms(1) error_set [of SNMP_ERR_GENERR r] show ?thesis
    by (auto simp: portConfigTable_reserve2_def error_input)
next
  case (Some x)
  obtain info row where x: "x = (info, row)" by fastforce
  with Some assms(2) obtain env col where c: "port_column (tri_colnum info) = Some (env, col)"
    "tri_colnum info \<in> {2, 3, 4}" by (blast elim: legal_cell)
  then have "cell_reserve2_int L S env col row st r = (st', r') \<or> cell_reserve2_bytes L S env col 64 row st r = (st', r')"
    using assms(1) Some x by (auto simp: portConfigTable_reserve2_def port_column_def)
  with reserve2_int_frame [of env col row st r st' r'] reserve2_bytes_frame [of env col 64 row st r st' r']
  have "effect keep st st' \<and> same_input S r r' \<and>
    (req_error r' = SNMP_ERR_NOERROR \<longrightarrow> fst (key_of col row) = STORAGE_OK)" by blast
  then show ?thesis using Some x c by (auto simp: port_cell_def split: prod.splits)
qed

text \<open>An ACTION without an error has written the cell.\<close>

lemma action_port:
  assumes "portConfigTable_action L S st r = (st', r')" and "port_legal S r" and "req_error r' = SNMP_ERR_NOERROR"
  shows "r' = r \<and> port_cell S r \<noteq> None \<and> echanges (port_effect S r) (ag_envs st) (ag_envs st')"
proof (cases "request_row S r")
  case None
  with assms(1,3) error_set [of SNMP_ERR_GENERR r] show ?thesis by (auto simp: portConfigTable_action_def)
next
  case (Some x)
  obtain info row where x: "x = (info, row)" by fastforce
  with Some assms(2) obtain env col where c: "port_column (tri_colnum info) = Some (env, col)"
    "tri_colnum info \<in> {2, 3, 4}" "extract_table_info S r = Some info" by (blast elim: legal_cell)
  obtain krc key where k: "key_of col row = (krc, key)" by fastforce
  have a: "(if tri_colnum info = 2 then cell_action_bytes L S env col row st r
      else cell_action_int L S env col row st r) = (st', r')"
    using assms(1) Some x c by (auto simp: portConfigTable_action_def port_column_def split: if_splits)
  have ok: "krc = STORAGE_OK"
    using a assms(3) k error_set [of SNMP_ERR_GENERR r]
    by (auto simp: cell_action_int_def cell_action_bytes_def split: if_splits)
  then have cell: "port_cell S r = Some (env, col, key)" using Some x c k by (simp add: port_cell_def)
  have "acted (upd env key (Some (port_value S r))) st r st' r'"
    using a ok k c(3) action_acted(1,3) [of env key st r st' r']
    by (auto simp: cell_action_int_def cell_action_bytes_def port_value_def split: if_splits)
  with assms(3) cell show ?thesis by (auto simp: acted_def port_effect_def)
qed

subsection \<open>A committed SET\<close>

lemma reserve1_port_list:
  assumes "each_request (portConfigTable_reserve1 S) st rs = (st', rs')"
    and "\<forall>r \<in> set rs'. req_error r = SNMP_ERR_NOERROR"
  shows "st' = st \<and> list_all2 (same_input S) rs rs' \<and> (\<forall>r \<in> set rs. port_legal S r)"
  using assms
proof (induction rs arbitrary: rs')
  case (Cons r rs)
  from Cons.prems(1) obtain st1 r1 rs1 where e: "portConfigTable_reserve1 S st r = (st1, r1)"
    "each_request (portConfigTable_reserve1 S) st1 rs = (st', rs1)" "rs' = r1 # rs1" by (rule each_request_Cons)
  with reserve1_port [OF e(1)] Cons.IH [of rs1] Cons.prems(2) show ?case by auto
qed simp

lemma reserve2_port_list:
  assumes "each_request (portConfigTable_reserve2 L S) st rs = (st', rs')" and "\<forall>r \<in> set rs. port_legal S r"
  shows "effect keep st st' \<and> list_all2 (same_input S) rs rs'"
  using assms
proof (induction rs arbitrary: st rs')
  case (Cons r rs)
  from Cons.prems(1) obtain st1 r1 rs1 where e: "portConfigTable_reserve2 L S st r = (st1, r1)"
    "each_request (portConfigTable_reserve2 L S) st1 rs = (st', rs1)" "rs' = r1 # rs1" by (rule each_request_Cons)
  with reserve2_port [OF e(1)] Cons.IH [OF e(2)] Cons.prems(2) show ?case by (auto intro: ag_keep_trans)
qed simp

lemma action_port_list:
  assumes "each_request (portConfigTable_action L S) st rs = (st', rs')" and "\<forall>r \<in> set rs. port_legal S r"
    and "\<forall>r \<in> set rs'. req_error r = SNMP_ERR_NOERROR"
  shows "(\<forall>r \<in> set rs. port_cell S r \<noteq> None) \<and> echanges (port_effects S rs) (ag_envs st) (ag_envs st')"
  using assms
proof (induction rs arbitrary: st rs')
  case Nil
  then show ?case by (simp add: envs_effect_keep)
next
  case (Cons r rs)
  from Cons.prems(1) obtain st1 r1 rs1 where e: "portConfigTable_action L S st r = (st1, r1)"
    "each_request (portConfigTable_action L S) st1 rs = (st', rs1)" "rs' = r1 # rs1" by (rule each_request_Cons)
  have 1: "port_cell S r \<noteq> None" "echanges (port_effect S r) (ag_envs st) (ag_envs st1)"
    using action_port [OF e(1)] Cons.prems(2,3) e(3) by auto
  have 2: "\<forall>r \<in> set rs. port_cell S r \<noteq> None" "echanges (port_effects S rs) (ag_envs st1) (ag_envs st')"
    using Cons.IH [OF e(2)] Cons.prems(2,3) e(3) by auto
  from 1 2 envs_effect_trans [OF 1(2) 2(2)] show ?case by simp
qed

lemma release_list: "each_request (portConfigTable_release S) st rs = (st', rs') \<Longrightarrow> st' = st"
  by (induction rs arbitrary: rs') (auto simp: portConfigTable_release_def split: prod.splits)

lemma port_set_committed:
  assumes "handle_portConfigTable L S MODE_SET_RESERVE1 st rs = (c1, st1, rs1)"
    and "\<forall>r \<in> set rs1. req_error r = SNMP_ERR_NOERROR"
    and "handle_portConfigTable L S MODE_SET_RESERVE2 st1 rs1 = (c2, st2, rs2)"
    and "handle_portConfigTable L S MODE_SET_ACTION st2 rs2 = (c3, st3, rs3)"
    and "\<forall>r \<in> set rs3. req_error r = SNMP_ERR_NOERROR"
    and "handle_portConfigTable L S MODE_SET_COMMIT st3 rs3 = (c4, st4, rs4)"
  shows "(\<forall>r \<in> set rs. port_legal S r \<and> port_cell S r \<noteq> None) \<and>
    echanges (port_effects S rs) (ag_envs st) (ag_envs st4)"
proof -
  have 1: "st1 = st" "list_all2 (same_input S) rs rs1" "\<forall>r \<in> set rs. port_legal S r"
    using reserve1_port_list [of st rs st1 rs1] assms(1,2) by (auto simp: handle_portConfigTable_def)
  have legal: "\<forall>r' \<in> set rs'. port_legal S r'" if "list_all2 (same_input S) rs rs'" for rs'
    using that 1(3) port_same(1) by (metis in_set_conv_nth list_all2_conv_all_nth)
  have 2: "effect keep st1 st2" "list_all2 (same_input S) rs1 rs2"
    using reserve2_port_list [of st1 rs1 st2 rs2] legal [OF 1(2)] assms(3) by (auto simp: handle_portConfigTable_def)
  have in2: "list_all2 (same_input S) rs rs2"
    using 1(2) 2(2) by (rule list_all2_trans [rotated]) (blast intro: same_input_trans)
  have 3: "\<forall>r \<in> set rs2. port_cell S r \<noteq> None" "echanges (port_effects S rs2) (ag_envs st2) (ag_envs st3)"
    using action_port_list [of st2 rs2 st3 rs3] legal [OF in2] assms(4,5) by (auto simp: handle_portConfigTable_def)
  have "st4 = st3" using release_list assms(6) by (auto simp: handle_portConfigTable_def)
  moreover have "\<forall>r \<in> set rs. port_cell S r \<noteq> None"
    using 3(1) in2 port_same(3) by (metis in_set_conv_nth list_all2_conv_all_nth)
  ultimately show ?thesis
    using 1 3(2) effect_envs [OF 2(1)] port_effects_same [OF in2] envs_keep_trans(1) by simp blast
qed

end

end
