(* ===== verification/Handler_Properties.thy ===== *)
theory Handler_Properties
  imports Scalar_Objects Table_Properties Table_Commit
begin

text \<open>
  The properties of the MIB handlers (\<open>src/generated/demo_config.c\<close>, \<open>demo_status.c\<close>,
  \<open>demo_config_table.c\<close>, \<open>demo_status_table.c\<close>) and of the trap edge (\<open>src/demo_trap.c\<close>).
\<close>

definition demo_agent :: "(string \<times> bytes) list \<Rightarrow> (mem_env, (oid \<times> asn_type \<times> vb_value) list) agent" where
  "demo_agent data = \<lparr>ag_envs = (\<lambda>_. Some \<lparr>se_env = \<lparr>me_data = data, me_txns = 0, me_cursors = 0\<rparr>,
     se_flags = 0, se_readonly = False\<rparr>), ag_temp_state = TEMP_STATE_CLEAR, ag_traps = [],
     ag_port_skipped = 0, ag_sensor_skipped = 0\<rparr>"

definition demo_req :: "asn_type \<Rightarrow> clong \<Rightarrow> bytes \<Rightarrow> (nat \<times> clong) option \<Rightarrow> demo_request" where
  "demo_req ty i s cell = \<lparr>dr_type = ty, dr_integer = i, dr_string = Some s, dr_error = SNMP_ERR_NOERROR,
     dr_result = None, dr_data = [],
     dr_info = map_option (\<lambda>(col, row). \<lparr>tri_colnum = col, tri_indexes = Some row\<rparr>) cell, dr_context = True\<rparr>"

text \<open>
  C3. A committed SET stores a legal value: if the four phases of a SET of one of the read-write
  scalars end with COMMIT, the value in the request had the object's type and was in the object's
  range, exactly the object's key in the object's environment now holds the encoding of that value
  and everything else in both environments is as before; no handle stays open.
\<close>

theorem scalar_set_committed:
  assumes "subagent L env_map live_txns live_cursors txn_map txn_ro cur_map cur_pos S req_error req_result"
    and "ob \<in> config_scalars"
    and "set_run (scalar_handler L S ob) req_error st r Committed st' r'"
  shows "check_vb_type S r (scalar_asn ob) = SNMP_ERR_NOERROR \<and> scalar_legal S ob r \<and>
    envs_effect env_map live_txns live_cursors
      (upd (scalar_env ob) (scalar_key ob) (Some (scalar_cell S ob r))) (ag_envs st) (ag_envs st')"
  using subagent.scalar_committed [OF assms] .

theorem scalar_set_committed_witness:
  "\<exists>st' r'. set_run (scalar_handler (memdb no_limits) snmp_demo SampleIntervalSec) dr_error (demo_agent [])
      (demo_req ASN_UNSIGNED 30 [] None) Committed st' r' \<and>
    envs_effect mem_map me_txns me_cursors (upd Config_Env ''sampleIntervalSec'' (Some (encode_uint 30)))
      (ag_envs (demo_agent [])) (ag_envs st')"
proof -
  let ?h = "scalar_handler (memdb no_limits) snmp_demo SampleIntervalSec"
  let ?r = "demo_req ASN_UNSIGNED 30 [] None"
  have ob: "SampleIntervalSec \<in> config_scalars" by (simp add: config_scalars_def)
  have "fst (drive_set ?h dr_error False (demo_agent []) ?r) = Committed" by code_simp
  then obtain st' r' where "drive_set ?h dr_error False (demo_agent []) ?r = (Committed, st', r')"
    by (cases "drive_set ?h dr_error False (demo_agent []) ?r") auto
  note run = drive_set_run [OF this]
  from scalar_set_committed [OF demo.subagent_axioms ob run] run show ?thesis
    by (auto simp: scalar_env_def snmp_demo_def demo_req_def)
qed

text \<open>
  C10. UNDO restores: if the phases of a SET of a read-write scalar that was present end with UNDO,
  because its own ACTION or another variable of the PDU failed, then both environments hold what
  they held before, or the request reports \<open>SNMP_ERR_UNDOFAILED\<close>.
\<close>

theorem scalar_set_undone:
  assumes "subagent L env_map live_txns live_cursors txn_map txn_ro cur_map cur_pos S req_error req_result"
    and "ob \<in> config_scalars"
    and "set_run (scalar_handler L S ob) req_error st r Undone st' r'"
    and "scalar_stash S ob r = None"
    and "ag_map env_map st (scalar_env ob) (scalar_key ob) = Some d" and "canonical_value d"
  shows "envs_effect env_map live_txns live_cursors keep (ag_envs st) (ag_envs st') \<or>
    req_error r' = SNMP_ERR_UNDOFAILED"
  using subagent.scalar_undone [OF assms] .

theorem scalar_set_undone_witness:
  "\<exists>st' r'. set_run (scalar_handler (memdb no_limits) snmp_demo AdminStatusExt) dr_error
      (demo_agent [(''adminStatusExt'', encode_int 3)]) (demo_req ASN_INTEGER 2 [] None) Undone st' r' \<and>
    (envs_effect mem_map me_txns me_cursors keep
       (ag_envs (demo_agent [(''adminStatusExt'', encode_int 3)])) (ag_envs st') \<or>
     dr_error r' = SNMP_ERR_UNDOFAILED)"
proof -
  let ?h = "scalar_handler (memdb no_limits) snmp_demo AdminStatusExt"
  let ?st = "demo_agent [(''adminStatusExt'', encode_int 3)]" and ?r = "demo_req ASN_INTEGER 2 [] None"
  have ob: "AdminStatusExt \<in> config_scalars" by (simp add: config_scalars_def)
  have "fst (drive_set ?h dr_error True ?st ?r) = Undone" by code_simp
  then obtain st' r' where "drive_set ?h dr_error True ?st ?r = (Undone, st', r')"
    by (cases "drive_set ?h dr_error True ?st ?r") auto
  note run = drive_set_run [OF this]
  have "scalar_stash snmp_demo AdminStatusExt ?r = None" by code_simp
  moreover have "ag_map mem_map ?st (scalar_env AdminStatusExt) (scalar_key AdminStatusExt) = Some (encode_int 3)"
    by (simp add: ag_map_def demo_agent_def)
  ultimately show ?thesis
    using scalar_set_undone [OF demo.subagent_axioms ob run _ _ canonical_encode(1)] run by blast
qed

text \<open>
  A freed SET changes nothing: if the phases end with FREE, after RESERVE1 or RESERVE2 of the
  object itself or of another variable failed, both environments are what they were.
\<close>

lemma scalar_set_freed:
  assumes "subagent L env_map live_txns live_cursors txn_map txn_ro cur_map cur_pos S req_error req_result"
    and "ob \<in> config_scalars"
    and "set_run (scalar_handler L S ob) req_error st r Freed st' r'"
  shows "envs_effect env_map live_txns live_cursors keep (ag_envs st) (ag_envs st')"
  using subagent.scalar_freed [OF assms] .

text \<open>
  RESERVE1 gives the verdict RFC 3416 asks for: \<open>wrongType\<close> for a value of another ASN.1 type,
  \<open>wrongLength\<close> for a device name of more than 63 bytes, \<open>wrongValue\<close> for a number outside the
  object's range or enumeration, and no error exactly for a legal value; nothing is stored.
\<close>

lemma scalar_reserve1_verdict:
  assumes "subagent L env_map live_txns live_cursors txn_map txn_ro cur_map cur_pos S req_error req_result"
    and "ob \<in> config_scalars" and "req_error r = SNMP_ERR_NOERROR"
  shows "\<exists>r'. scalar_handler L S ob MODE_SET_RESERVE1 st r = (SNMP_ERR_NOERROR, st, r') \<and>
    req_error r' = (if check_vb_type S r (scalar_asn ob) \<noteq> SNMP_ERR_NOERROR then SNMP_ERR_WRONGTYPE
      else if scalar_legal S ob r then SNMP_ERR_NOERROR
      else if ob = DeviceName then SNMP_ERR_WRONGLENGTH else SNMP_ERR_WRONGVALUE)"
  using subagent.scalar_reserve1 [OF assms] .

text \<open>
  C25. A GET answers what is stored: for each of the eight scalars, on an open environment and while
  the platform has resources, a stored value of the object's type is answered with the object's
  ASN.1 type and that very number or string, an absent one with \<open>noSuchInstance\<close> and a value of
  another type with \<open>genErr\<close>; nothing stored changes.
\<close>

theorem scalar_get_answers:
  assumes "subagent_reliable L env_map live_txns live_cursors txn_map txn_ro cur_map cur_pos S req_error req_result"
    and "ag_envs st (scalar_env ob) \<noteq> None" and "req_error r = SNMP_ERR_NOERROR"
  shows "\<exists>st' r'. scalar_handler L S ob MODE_GET st r = (SNMP_ERR_NOERROR, st', r') \<and>
    ag_effect env_map live_txns live_cursors keep st st' \<and>
    get_outcome req_error req_result (ag_map env_map st (scalar_env ob) (scalar_key ob)) (scalar_answer ob) r'"
  using subagent_reliable.scalar_get [OF assms] .

theorem scalar_get_answers_witness:
  "\<exists>st' r'. handle_cpuTempMilliC (memdb no_limits) snmp_demo MODE_GET
      (demo_agent [(''cpuTempMilliC'', encode_int (- 5))]) (demo_req ASN_INTEGER 0 [] None) =
      (SNMP_ERR_NOERROR, st', r') \<and> dr_result r' = Some (ASN_INTEGER, Inl (- 5))"
proof -
  let ?st = "demo_agent [(''cpuTempMilliC'', encode_int (- 5))]"
  have "ag_envs ?st (scalar_env CpuTempMilliC) \<noteq> None" by (simp add: demo_agent_def)
  moreover have "dr_error (demo_req ASN_INTEGER 0 [] None) = SNMP_ERR_NOERROR" by (simp add: demo_req_def)
  ultimately show ?thesis
    using scalar_get_answers [OF demo_reliable.subagent_reliable_axioms, of ?st CpuTempMilliC
        "demo_req ASN_INTEGER 0 [] None"]
    by (auto simp: get_outcome_def ag_map_def demo_agent_def scalar_env_def answered_def)
qed



text \<open>
  C14. A committed SET on \<open>portConfigTable\<close> stores what was asked for: if every phase of a SET of any number
  of cells succeeds, each request named an existing row and one of the three columns with a value of
  its type and range, and the two environments changed by exactly these writes, in the order of the
  requests; no handle stays open.
\<close>

theorem portConfigTable_set_committed:
  assumes "subagent L env_map live_txns live_cursors txn_map txn_ro cur_map cur_pos S req_error req_result"
    and "handle_portConfigTable L S MODE_SET_RESERVE1 st rs = (c1, st1, rs1)"
    and "\<forall>r \<in> set rs1. req_error r = SNMP_ERR_NOERROR"
    and "handle_portConfigTable L S MODE_SET_RESERVE2 st1 rs1 = (c2, st2, rs2)"
    and "handle_portConfigTable L S MODE_SET_ACTION st2 rs2 = (c3, st3, rs3)"
    and "\<forall>r \<in> set rs3. req_error r = SNMP_ERR_NOERROR"
    and "handle_portConfigTable L S MODE_SET_COMMIT st3 rs3 = (c4, st4, rs4)"
  shows "(\<forall>r \<in> set rs. port_legal S r \<and> port_cell S r \<noteq> None) \<and>
    envs_effect env_map live_txns live_cursors (port_effects S rs) (ag_envs st) (ag_envs st4)"
  using subagent.port_set_committed [OF assms] .

text \<open>Two cells of row 9 in one PDU.\<close>

definition two_cells :: "demo_request list" where
  "two_cells = [demo_req ASN_INTEGER 2 [] (Some (3, 9)), demo_req ASN_OCTET_STR 0 [104, 105] (Some (2, 9))]"

theorem portConfigTable_set_committed_witness:
  "\<exists>c1 st1 rs1 c2 st2 rs2 c3 st3 rs3 c4 st4 rs4.
     handle_portConfigTable (memdb no_limits) snmp_demo MODE_SET_RESERVE1 (demo_agent []) two_cells = (c1, st1, rs1) \<and>
     handle_portConfigTable (memdb no_limits) snmp_demo MODE_SET_RESERVE2 st1 rs1 = (c2, st2, rs2) \<and>
     handle_portConfigTable (memdb no_limits) snmp_demo MODE_SET_ACTION st2 rs2 = (c3, st3, rs3) \<and>
     handle_portConfigTable (memdb no_limits) snmp_demo MODE_SET_COMMIT st3 rs3 = (c4, st4, rs4) \<and>
     envs_effect mem_map me_txns me_cursors
      (\<lambda>i m. if i = Config_Env then m(''portAdminStatus.9'' \<mapsto> encode_int 2, ''portDescr.9'' \<mapsto> encode_bytes [104, 105])
        else m) (ag_envs (demo_agent [])) (ag_envs st4)"
proof -
  let ?h = "handle_portConfigTable (memdb no_limits) snmp_demo"
  let ?p1 = "?h MODE_SET_RESERVE1 (demo_agent []) two_cells"
  let ?p2 = "?h MODE_SET_RESERVE2 (fst (snd ?p1)) (snd (snd ?p1))"
  let ?p3 = "?h MODE_SET_ACTION (fst (snd ?p2)) (snd (snd ?p2))"
  have "list_all (\<lambda>r. dr_error r = SNMP_ERR_NOERROR) (snd (snd ?p1))"
    "list_all (\<lambda>r. dr_error r = SNMP_ERR_NOERROR) (snd (snd ?p3))" by code_simp+
  moreover obtain c1 st1 rs1 where 1: "?p1 = (c1, st1, rs1)" by (cases ?p1)
  moreover obtain c2 st2 rs2 where 2: "?h MODE_SET_RESERVE2 st1 rs1 = (c2, st2, rs2)"
    by (cases "?h MODE_SET_RESERVE2 st1 rs1")
  moreover obtain c3 st3 rs3 where 3: "?h MODE_SET_ACTION st2 rs2 = (c3, st3, rs3)"
    by (cases "?h MODE_SET_ACTION st2 rs2")
  moreover obtain c4 st4 rs4 where 4: "?h MODE_SET_COMMIT st3 rs3 = (c4, st4, rs4)"
    by (cases "?h MODE_SET_COMMIT st3 rs3")
  ultimately have e: "\<forall>r \<in> set rs1. dr_error r = SNMP_ERR_NOERROR" "\<forall>r \<in> set rs3. dr_error r = SNMP_ERR_NOERROR"
    by (simp_all add: list_all_iff)
  have cells: "map (port_cell snmp_demo) two_cells =
      [Some (Config_Env, ''portAdminStatus'', ''portAdminStatus.9''), Some (Config_Env, ''portDescr'', ''portDescr.9'')]"
    "map (port_value snmp_demo) two_cells = [encode_int 2, encode_bytes [104, 105]]" by code_simp+
  have "port_effects snmp_demo two_cells = (\<lambda>i m. if i = Config_Env
      then m(''portAdminStatus.9'' \<mapsto> encode_int 2, ''portDescr.9'' \<mapsto> encode_bytes [104, 105]) else m)"
    using cells by (auto simp: two_cells_def port_effect_def upd_def keep_def fun_eq_iff)
  with portConfigTable_set_committed [OF demo.subagent_axioms 1 e(1) 2 3 e(2) 4] 1 2 3 4 show ?thesis by auto
qed






text \<open>
  No alarm storm: in any sequence of calls of the check, whatever is stored between them, two
  calls that emit a trap have a call between them that saw the temperature at least 500 milli
  degrees below the threshold.
\<close>

lemma temp_alarm_rearms:
  assumes "lmdb_laws L env_map live_txns live_cursors txn_map txn_ro cur_map cur_pos"
    and "check_calls L S cs" and "i < j" and "j < length cs"
    and "ag_traps (snd (cs ! i)) \<noteq> ag_traps (fst (cs ! i))"
    and "ag_traps (snd (cs ! j)) \<noteq> ag_traps (fst (cs ! j))"
  shows "\<exists>k cpu th. i < k \<and> k < j \<and> temps_hold env_map (fst (cs ! k)) cpu th \<and> sint cpu \<le> sint (th - 500)"
  using lmdb_laws.check_calls_rearm [OF assms(1,2,3,4)] assms(5,6) by (auto simp: emits_def cooled_def)

definition alarm_agent :: "int32 \<Rightarrow> temp_state \<Rightarrow> (mem_env, (oid \<times> asn_type \<times> vb_value) list) agent" where
  "alarm_agent cpu s = (demo_agent [(''cpuTempMilliC'', encode_int cpu), (''tempThresholdMilliC'', encode_int 70000)])
     \<lparr>ag_temp_state := s\<rparr>"

definition alarm_call :: "int32 \<Rightarrow> temp_state \<Rightarrow> (mem_env, (oid \<times> asn_type \<times> vb_value) list) agent \<times>
    (mem_env, (oid \<times> asn_type \<times> vb_value) list) agent" where
  "alarm_call cpu s = (alarm_agent cpu s, snd (demo_check_temp_alarm (memdb no_limits) snmp_demo (alarm_agent cpu s)))"

end
