(* ===== verification/Ipc_Config.thy ===== *)
theory Ipc_Config
  imports Demo_Trap
begin

text \<open>
  The request handlers of \<open>src/ipc_server.c\<close>: the messages of \<open>agentx_ipc.pb.h\<close>, the allowlist of
  config objects, and the handlers of the write, read and trap requests. A \<open>char[n]\<close> field is the
  string before its NUL; \<open>bytes_val\<close> is the first \<open>size\<close> bytes of its 256 byte array.
\<close>

subsection \<open>Messages\<close>

datatype ValueType =
    VALUE_TYPE_UNSPECIFIED | VALUE_TYPE_INT32 | VALUE_TYPE_UINT32 | VALUE_TYPE_UINT64
  | VALUE_TYPE_BYTES
  | VALUE_TYPE_OTHER int  \<comment> \<open>enums are open on the wire\<close>

fun value_type_code :: "ValueType \<Rightarrow> int" where
  "value_type_code VALUE_TYPE_UNSPECIFIED = 0"
| "value_type_code VALUE_TYPE_INT32 = 1"
| "value_type_code VALUE_TYPE_UINT32 = 2"
| "value_type_code VALUE_TYPE_UINT64 = 3"
| "value_type_code VALUE_TYPE_BYTES = 4"
| "value_type_code (VALUE_TYPE_OTHER i) = i"

datatype ipc_status =
    STATUS_UNSPECIFIED | STATUS_OK | STATUS_NOT_FOUND | STATUS_TYPE_MISMATCH | STATUS_INVALID
  | STATUS_READ_ONLY | STATUS_STORAGE_ERROR
  | STATUS_OTHER int

record ipc_value =
  v_type :: ValueType
  v_int32 :: int32
  v_uint32 :: uint32
  v_uint64 :: uint64
  v_bytes :: bytes

definition value_init_zero :: ipc_value where
  "value_init_zero = \<lparr>v_type = VALUE_TYPE_UNSPECIFIED, v_int32 = 0, v_uint32 = 0, v_uint64 = 0,
     v_bytes = []\<rparr>"

record WriteConfigRequest =
  wreq_key :: string
  wreq_has_value :: bool
  wreq_value :: ipc_value

record WriteConfigResponse =
  wresp_status :: ipc_status
  wresp_message :: string

record ReadConfigRequest =
  rreq_key :: string

record ReadConfigResponse =
  rresp_status :: ipc_status
  rresp_has_value :: bool
  rresp_value :: ipc_value
  rresp_message :: string

record SendTrapRequest =
  treq_trap_name :: string

record SendTrapResponse =
  tresp_status :: ipc_status
  tresp_message :: string

text \<open>\<open>snprintf\<close> into a buffer of \<open>n\<close> chars, and the conversions the messages use.\<close>

abbreviation (input) sizeof_message :: nat where "sizeof_message \<equiv> 128"
abbreviation (input) sizeof_bytes_val :: nat where "sizeof_bytes_val \<equiv> 256"

definition snprintf :: "nat \<Rightarrow> string \<Rightarrow> string" where
  "snprintf n s = take (n - 1) s"

definition quoted :: "string \<Rightarrow> string" where
  "quoted s = [CHR 0x27] @ s @ [CHR 0x27]"

definition sdec :: "int \<Rightarrow> string" where
  "sdec i = (if i < 0 then CHR ''-'' # dec_string (nat (- i)) else dec_string (nat i))"

subsection \<open>The allowlist\<close>

datatype cfg_env_id = CFG_ENV_CONFIG | CFG_ENV_CACHE

record config_object =
  co_name :: string
  co_type :: ValueType
  co_env :: cfg_env_id
  co_min :: int
  co_max :: int

text \<open>The \<open>#if\<close> blocks that pick \<open>CFG_ENV_x\<close>.\<close>

definition cfg_env :: "storage_mode \<Rightarrow> cfg_env_id" where
  "cfg_env m = (if m = STORAGE_MODE_PERSISTENT then CFG_ENV_CONFIG else CFG_ENV_CACHE)"

definition g_config_objects :: "config_object list" where
  "g_config_objects =
     [\<lparr>co_name = ''deviceName'', co_type = VALUE_TYPE_BYTES,
       co_env = cfg_env STORAGE_MODE_deviceName, co_min = 0, co_max = 63\<rparr>,
      \<lparr>co_name = ''tempThresholdMilliC'', co_type = VALUE_TYPE_INT32,
       co_env = cfg_env STORAGE_MODE_tempThresholdMilliC, co_min = - 40000, co_max = 125000\<rparr>,
      \<lparr>co_name = ''adminStatusExt'', co_type = VALUE_TYPE_INT32,
       co_env = cfg_env STORAGE_MODE_adminStatusExt, co_min = 1, co_max = 3\<rparr>,
      \<lparr>co_name = ''sampleIntervalSec'', co_type = VALUE_TYPE_UINT32,
       co_env = cfg_env STORAGE_MODE_sampleIntervalSec, co_min = 1, co_max = 86400\<rparr>]"

fun find_object :: "config_object list \<Rightarrow> string \<Rightarrow> config_object option" where
  "find_object [] key = None"
| "find_object (obj # objs) key = (if co_name obj = key then Some obj else find_object objs key)"

definition find_config_object :: "string \<Rightarrow> config_object option" where
  "find_config_object key = find_object g_config_objects key"

definition env_for :: "cfg_env_id \<Rightarrow> env_id" where
  "env_for i = (if i = CFG_ENV_CONFIG then Config_Env else Cache_Env)"

fun storage_rc_to_status :: "storage_rc \<Rightarrow> ipc_status" where
  "storage_rc_to_status STORAGE_OK = STATUS_OK"
| "storage_rc_to_status STORAGE_ERR_NOTFOUND = STATUS_NOT_FOUND"
| "storage_rc_to_status STORAGE_ERR_TYPE = STATUS_TYPE_MISMATCH"
| "storage_rc_to_status STORAGE_ERR_INVAL = STATUS_INVALID"
| "storage_rc_to_status STORAGE_ERR_TOOBIG = STATUS_INVALID"
| "storage_rc_to_status STORAGE_ERR_FULL = STATUS_STORAGE_ERROR"
| "storage_rc_to_status STORAGE_ERR_BUSY = STATUS_STORAGE_ERROR"
| "storage_rc_to_status STORAGE_ERR_IO = STATUS_STORAGE_ERROR"
| "storage_rc_to_status STORAGE_ERR_READONLY = STATUS_STORAGE_ERROR"

subsection \<open>Request handling\<close>

definition wresp :: "ipc_status \<Rightarrow> string \<Rightarrow> WriteConfigResponse" where
  "wresp s msg = \<lparr>wresp_status = s, wresp_message = snprintf sizeof_message msg\<rparr>"

definition out_of_range :: "config_object \<Rightarrow> string \<Rightarrow> string \<Rightarrow> string" where
  "out_of_range obj what v =
     quoted (co_name obj) @ what @ v @ '' out of range ['' @ sdec (co_min obj) @ '', '' @
     sdec (co_max obj) @ '']''"

text \<open>The end of \<open>handle_write_config\<close>: the status of the storage call.\<close>

definition write_done :: "storage_rc \<Rightarrow> WriteConfigResponse" where
  "write_done rc =
     (let s = storage_rc_to_status rc in
      if s \<noteq> STATUS_OK then wresp s (''storage error: '' @ storage_strerror rc) else wresp s '''')"

definition handle_write_config ::
  "('e, 't, 'c) platform \<Rightarrow> ('e, 'v) agent \<Rightarrow> WriteConfigRequest \<Rightarrow>
   WriteConfigResponse \<times> ('e, 'v) agent" where
  "handle_write_config L st req =
     (case find_config_object (wreq_key req) of
        None \<Rightarrow> (wresp STATUS_INVALID (''unknown config key '' @ quoted (wreq_key req)), st)
      | Some obj \<Rightarrow>
          if \<not> wreq_has_value req then (wresp STATUS_INVALID ''missing value'', st)
          else if v_type (wreq_value req) \<noteq> co_type obj then
            (wresp STATUS_TYPE_MISMATCH
               (quoted (co_name obj) @ '' expects value type '' @ sdec (value_type_code (co_type obj)) @
                '', got '' @ sdec (value_type_code (v_type (wreq_value req)))), st)
          else (case co_type obj of
              VALUE_TYPE_INT32 \<Rightarrow>
                let v = v_int32 (wreq_value req) in
                if sint v < co_min obj \<or> sint v > co_max obj
                then (wresp STATUS_INVALID (out_of_range obj '' value '' (sdec (sint v))), st)
                else (case ag_set_int L st (env_for (co_env obj)) (co_name obj) v of (rc, st) \<Rightarrow>
                        (write_done rc, st))
            | VALUE_TYPE_UINT32 \<Rightarrow>
                let v = v_uint32 (wreq_value req) in
                if uint v < co_min obj \<or> uint v > co_max obj
                then (wresp STATUS_INVALID (out_of_range obj '' value '' (dec_string (unat v))), st)
                else (case ag_set_uint L st (env_for (co_env obj)) (co_name obj) v of (rc, st) \<Rightarrow>
                        (write_done rc, st))
            | VALUE_TYPE_BYTES \<Rightarrow>
                let len = length (v_bytes (wreq_value req)) in
                if int len < co_min obj \<or> int len > co_max obj
                then (wresp STATUS_INVALID (out_of_range obj '' length '' (dec_string len)), st)
                else (case ag_set_bytes L st (env_for (co_env obj)) (co_name obj)
                        (Some (v_bytes (wreq_value req))) len of (rc, st) \<Rightarrow> (write_done rc, st))
            | _ \<Rightarrow> (wresp STATUS_TYPE_MISMATCH
                      (quoted (co_name obj) @ '' has no supported value type''), st)))"

definition rresp_init :: ReadConfigResponse where
  "rresp_init = \<lparr>rresp_status = STATUS_UNSPECIFIED, rresp_has_value = False,
     rresp_value = value_init_zero, rresp_message = ''''\<rparr>"

text \<open>The end of \<open>handle_read_config\<close>.\<close>

definition read_done :: "storage_rc \<Rightarrow> ipc_value \<Rightarrow> ReadConfigResponse" where
  "read_done rc value =
     (let resp = rresp_init\<lparr>rresp_value := value, rresp_status := storage_rc_to_status rc\<rparr> in
      if rresp_status resp = STATUS_OK then resp\<lparr>rresp_has_value := True\<rparr>
      else resp\<lparr>rresp_message := snprintf sizeof_message (''storage error: '' @ storage_strerror rc)\<rparr>)"

definition handle_read_config ::
  "('e, 't, 'c) platform \<Rightarrow> ('e, 'v) agent \<Rightarrow> ReadConfigRequest \<Rightarrow>
   ReadConfigResponse \<times> ('e, 'v) agent" where
  "handle_read_config L st req =
     (case find_config_object (rreq_key req) of
        None \<Rightarrow> (rresp_init\<lparr>rresp_status := STATUS_INVALID, rresp_message :=
                   snprintf sizeof_message (''unknown config key '' @ quoted (rreq_key req))\<rparr>, st)
      | Some obj \<Rightarrow>
          let value = value_init_zero\<lparr>v_type := co_type obj\<rparr> in
          (case co_type obj of
              VALUE_TYPE_INT32 \<Rightarrow>
                (case ag_get_int L st (env_for (co_env obj)) (co_name obj) of (rc, v, st) \<Rightarrow>
                   (read_done rc (value\<lparr>v_int32 := v\<rparr>), st))
            | VALUE_TYPE_UINT32 \<Rightarrow>
                (case ag_get_uint L st (env_for (co_env obj)) (co_name obj) of (rc, v, st) \<Rightarrow>
                   (read_done rc (value\<lparr>v_uint32 := v\<rparr>), st))
            | VALUE_TYPE_BYTES \<Rightarrow>
                (case ag_get_bytes L st (env_for (co_env obj)) (co_name obj) sizeof_bytes_val of
                   (rc, buf, len, st) \<Rightarrow>
                     (read_done rc (if rc = STORAGE_OK then value\<lparr>v_bytes := take len buf\<rparr> else value),
                      st))
            | _ \<Rightarrow> (rresp_init\<lparr>rresp_value := value, rresp_status := STATUS_TYPE_MISMATCH\<rparr>, st)))"

definition tresp :: "ipc_status \<Rightarrow> string \<Rightarrow> SendTrapResponse" where
  "tresp s msg = \<lparr>tresp_status = s, tresp_message = snprintf sizeof_message msg\<rparr>"

definition handle_send_trap ::
  "('e, 't, 'c) platform \<Rightarrow> ('r, 'i, 'v) snmp_api \<Rightarrow> ('e, 'v) agent \<Rightarrow> SendTrapRequest \<Rightarrow>
   SendTrapResponse \<times> ('e, 'v) agent" where
  "handle_send_trap L S st req =
     (if treq_trap_name req \<noteq> ''demoTempAlarm'' then
        (tresp STATUS_INVALID (''unsupported trap name '' @ quoted (treq_trap_name req)), st)
      else (case demo_send_temp_alarm L S st of (ret, st) \<Rightarrow>
        if ret = 0 then (tresp STATUS_OK '''', st)
        else (tresp STATUS_STORAGE_ERROR ''failed to emit demoTempAlarm'', st)))"

subsection \<open>What a write request may store\<close>

text \<open>The quantity the range of an object bounds, the cell a value is stored as, and the values an
  object admits.\<close>

fun value_num :: "ValueType \<Rightarrow> ipc_value \<Rightarrow> int" where
  "value_num VALUE_TYPE_INT32 v = sint (v_int32 v)"
| "value_num VALUE_TYPE_UINT32 v = uint (v_uint32 v)"
| "value_num VALUE_TYPE_BYTES v = int (length (v_bytes v))"
| "value_num _ v = 0"

fun value_cell :: "ValueType \<Rightarrow> ipc_value \<Rightarrow> bytes" where
  "value_cell VALUE_TYPE_INT32 v = encode_int (v_int32 v)"
| "value_cell VALUE_TYPE_UINT32 v = encode_uint (v_uint32 v)"
| "value_cell VALUE_TYPE_BYTES v = encode_bytes (v_bytes v)"
| "value_cell _ v = []"

definition admits :: "config_object \<Rightarrow> ipc_value \<Rightarrow> bool" where
  "admits obj v \<longleftrightarrow> v_type v = co_type obj \<and> co_min obj \<le> value_num (co_type obj) v \<and>
     value_num (co_type obj) v \<le> co_max obj"

definition admissible :: "WriteConfigRequest \<Rightarrow> config_object option" where
  "admissible req =
     (case find_config_object (wreq_key req) of
        None \<Rightarrow> None
      | Some obj \<Rightarrow> if wreq_has_value req \<and> admits obj (wreq_value req) then Some obj else None)"

definition object_env :: "config_object \<Rightarrow> env_id" where
  "object_env obj = env_for (co_env obj)"

lemma config_objects_types:
  "obj \<in> set g_config_objects \<Longrightarrow>
     co_type obj = VALUE_TYPE_INT32 \<or> co_type obj = VALUE_TYPE_UINT32 \<or> co_type obj = VALUE_TYPE_BYTES"
  by (auto simp: g_config_objects_def)

lemma config_objects_keys: "obj \<in> set g_config_objects \<Longrightarrow> key_ok (co_name obj)"
  by (auto simp: g_config_objects_def key_ok_def)

lemma config_objects_bytes:
  "obj \<in> set g_config_objects \<Longrightarrow> co_type obj = VALUE_TYPE_BYTES \<Longrightarrow> co_max obj \<le> 256"
  by (auto simp: g_config_objects_def)

lemma find_object_some: "find_object objs k = Some obj \<Longrightarrow> obj \<in> set objs \<and> co_name obj = k"
  by (induction objs) (auto split: if_splits)

lemma find_config_object_some:
  "find_config_object k = Some obj \<Longrightarrow> obj \<in> set g_config_objects \<and> co_name obj = k"
  unfolding find_config_object_def by (rule find_object_some)

lemma storage_rc_to_status_OK [simp]: "storage_rc_to_status rc = STATUS_OK \<longleftrightarrow> rc = STORAGE_OK"
  by (cases rc) simp_all

lemma wresp_simps [simp]:
  "wresp_status (wresp s m) = s" "wresp_message (wresp s m) = take 127 m"
  by (simp_all add: wresp_def snprintf_def)

lemma write_done_status [simp]: "wresp_status (write_done rc) = storage_rc_to_status rc"
  by (simp add: write_done_def Let_def)

text \<open>A response carries a message exactly when it reports a failure.\<close>

lemma write_done_message [simp]: "wresp_message (write_done rc) = [] \<longleftrightarrow> rc = STORAGE_OK"
  by (simp add: write_done_def Let_def)

lemma handle_write_rejects:
  assumes "admissible req = None"
  shows "\<exists>resp. handle_write_config L st req = (resp, st) \<and>
     wresp_status resp \<in> {STATUS_INVALID, STATUS_TYPE_MISMATCH} \<and> wresp_message resp \<noteq> []"
proof (cases "find_config_object (wreq_key req)")
  case None
  then show ?thesis by (simp add: handle_write_config_def)
next
  case (Some obj)
  with assms have "\<not> wreq_has_value req \<or> \<not> admits obj (wreq_value req)"
    by (auto simp: admissible_def)
  with Some show ?thesis
    by (cases "co_type obj")
      (auto simp: handle_write_config_def admits_def quoted_def out_of_range_def Let_def)
qed

text \<open>The storage call of an admissible request.\<close>

definition set_object ::
  "('e, 't, 'c) platform \<Rightarrow> ('e, 'v) agent \<Rightarrow> config_object \<Rightarrow> ipc_value \<Rightarrow>
   storage_rc \<times> ('e, 'v) agent" where
  "set_object L st obj v =
     (case co_type obj of
        VALUE_TYPE_INT32 \<Rightarrow> ag_set_int L st (object_env obj) (co_name obj) (v_int32 v)
      | VALUE_TYPE_UINT32 \<Rightarrow> ag_set_uint L st (object_env obj) (co_name obj) (v_uint32 v)
      | _ \<Rightarrow> ag_set_bytes L st (object_env obj) (co_name obj) (Some (v_bytes v)) (length (v_bytes v)))"

lemma admissible_some:
  assumes "admissible req = Some obj"
  shows "find_config_object (wreq_key req) = Some obj" "obj \<in> set g_config_objects"
    "co_name obj = wreq_key req" "wreq_has_value req" "admits obj (wreq_value req)"
proof -
  show f: "find_config_object (wreq_key req) = Some obj" "wreq_has_value req"
    "admits obj (wreq_value req)"
    using assms by (auto simp: admissible_def split: option.splits if_splits)
  show "obj \<in> set g_config_objects" "co_name obj = wreq_key req"
    using find_config_object_some [OF f(1)] by simp_all
qed

lemma handle_write_accepts:
  assumes "admissible req = Some obj"
  shows "handle_write_config L st req =
     (case set_object L st obj (wreq_value req) of (rc, st') \<Rightarrow> (write_done rc, st'))"
proof -
  note a = admissible_some [OF assms]
  from config_objects_types [OF a(2)] a(1,4,5) show ?thesis
    by (auto simp: handle_write_config_def admits_def set_object_def object_env_def Let_def)
qed

context lmdb_laws
begin

lemma set_object_writes:
  assumes "obj \<in> set g_config_objects" and "set_object L st obj v = (rc, st')"
  shows "effect (if rc = STORAGE_OK
      then upd (object_env obj) (co_name obj) (Some (value_cell (co_type obj) v)) else keep) st st'"
  using config_objects_types [OF assms(1)] assms(2)
    ag_set_int_writes [of st "object_env obj" "co_name obj" "v_int32 v" rc st']
    ag_set_uint_writes [of st "object_env obj" "co_name obj" "v_uint32 v" rc st']
    ag_set_bytes_writes [of st "object_env obj" "co_name obj" "Some (v_bytes v)"
      "length (v_bytes v)" rc st']
  by (auto simp: set_object_def)

text \<open>A write request stores an admissible value or changes nothing, and says which.\<close>

lemma handle_write_spec:
  assumes "handle_write_config L st req = (resp, st')"
  shows "if wresp_status resp = STATUS_OK
    then \<exists>obj. admissible req = Some obj \<and> wresp_message resp = [] \<and>
      effect (upd (object_env obj) (wreq_key req) (Some (value_cell (co_type obj) (wreq_value req)))) st st'
    else wresp_message resp \<noteq> [] \<and> effect keep st st'"
proof (cases "admissible req")
  case None
  from handle_write_rejects [OF None, of L st] assms show ?thesis by auto
next
  case (Some obj)
  note a = admissible_some [OF Some]
  obtain rc st1 where s: "set_object L st obj (wreq_value req) = (rc, st1)" by fastforce
  with handle_write_accepts [OF Some, of L st] assms
  have "resp = write_done rc" "st' = st1" by auto
  with set_object_writes [OF a(2) s] Some a(3) show ?thesis by (auto split: if_splits)
qed

end

subsection \<open>What a read request returns\<close>

definition value_view :: "ValueType \<Rightarrow> ipc_value \<Rightarrow> ipc_value" where
  "value_view ty v = value_init_zero\<lparr>v_type := ty,
     v_int32 := (if ty = VALUE_TYPE_INT32 then v_int32 v else 0),
     v_uint32 := (if ty = VALUE_TYPE_UINT32 then v_uint32 v else 0),
     v_bytes := (if ty = VALUE_TYPE_BYTES then v_bytes v else [])\<rparr>"

definition get_object ::
  "('e, 't, 'c) platform \<Rightarrow> ('e, 'v) agent \<Rightarrow> config_object \<Rightarrow> storage_rc \<times> ipc_value \<times> ('e, 'v) agent" where
  "get_object L st obj =
     (let value = value_init_zero\<lparr>v_type := co_type obj\<rparr> in
      case co_type obj of
        VALUE_TYPE_INT32 \<Rightarrow>
          (case ag_get_int L st (object_env obj) (co_name obj) of (rc, v, st) \<Rightarrow>
             (rc, value\<lparr>v_int32 := v\<rparr>, st))
      | VALUE_TYPE_UINT32 \<Rightarrow>
          (case ag_get_uint L st (object_env obj) (co_name obj) of (rc, v, st) \<Rightarrow>
             (rc, value\<lparr>v_uint32 := v\<rparr>, st))
      | _ \<Rightarrow>
          (case ag_get_bytes L st (object_env obj) (co_name obj) 256 of (rc, buf, len, st) \<Rightarrow>
             (rc, (if rc = STORAGE_OK then value\<lparr>v_bytes := take len buf\<rparr> else value), st)))"

lemma handle_read_known:
  assumes "find_config_object (rreq_key req) = Some obj"
  shows "handle_read_config L st req =
     (case get_object L st obj of (rc, v, st') \<Rightarrow> (read_done rc v, st'))"
proof -
  have "obj \<in> set g_config_objects" using find_config_object_some [OF assms] by simp
  from config_objects_types [OF this] assms show ?thesis
    by (auto simp: handle_read_config_def get_object_def object_env_def Let_def split: prod.splits)
qed

lemma handle_read_unknown:
  assumes "find_config_object (rreq_key req) = None"
  shows "\<exists>resp. handle_read_config L st req = (resp, st) \<and> rresp_status resp = STATUS_INVALID \<and>
     \<not> rresp_has_value resp"
  using assms by (simp add: handle_read_config_def rresp_init_def)

text \<open>What decoding a stored cell at the type of an object gives.\<close>

definition cell_holds :: "ValueType \<Rightarrow> bytes option \<Rightarrow> ipc_value \<Rightarrow> bool" where
  "cell_holds ty cell v \<longleftrightarrow> v = value_view ty v \<and>
     (\<exists>d. cell = Some d \<and>
       (case ty of
          VALUE_TYPE_INT32 \<Rightarrow> decode_int d = (STORAGE_OK, Some (v_int32 v))
        | VALUE_TYPE_UINT32 \<Rightarrow> decode_uint d = (STORAGE_OK, Some (v_uint32 v))
        | _ \<Rightarrow> decode_bytes 256 d = (STORAGE_OK, Some (v_bytes v))))"

lemma read_done_simps [simp]:
  "rresp_status (read_done rc v) = storage_rc_to_status rc"
  "rresp_has_value (read_done rc v) \<longleftrightarrow> rc = STORAGE_OK"
  "rresp_value (read_done rc v) = v"
  by (simp_all add: read_done_def rresp_init_def Let_def)

context lmdb_laws
begin

lemma get_object_reads:
  assumes "obj \<in> set g_config_objects" and "get_object L st obj = (rc, v, st')"
  shows "effect keep st st'"
    and "rc = STORAGE_OK \<Longrightarrow> cell_holds (co_type obj) (contents st (object_env obj) (co_name obj)) v"
proof -
  let ?i = "object_env obj" and ?k = "co_name obj"
  have "effect keep st st' \<and> (rc = STORAGE_OK \<longrightarrow> cell_holds (co_type obj) (contents st ?i ?k) v)"
    using config_objects_types [OF assms(1)]
  proof (elim disjE)
    assume ty: "co_type obj = VALUE_TYPE_INT32"
    obtain rc' x st1 where g: "ag_get_int L st ?i ?k = (rc', x, st1)"
      by (cases "ag_get_int L st ?i ?k")
    show ?thesis using ag_get_int_reads [OF g] g ty assms(2)
      by (auto simp: get_object_def cell_holds_def cell_read_def value_view_def value_init_zero_def)
  next
    assume ty: "co_type obj = VALUE_TYPE_UINT32"
    obtain rc' x st1 where g: "ag_get_uint L st ?i ?k = (rc', x, st1)"
      by (cases "ag_get_uint L st ?i ?k")
    show ?thesis using ag_get_uint_reads [OF g] g ty assms(2)
      by (auto simp: get_object_def cell_holds_def cell_read_def value_view_def value_init_zero_def)
  next
    assume ty: "co_type obj = VALUE_TYPE_BYTES"
    obtain rc' buf len st1 where g: "ag_get_bytes L st ?i ?k 256 = (rc', buf, len, st1)"
      by (cases "ag_get_bytes L st ?i ?k 256")
    show ?thesis using ag_get_bytes_reads [OF g] g ty assms(2)
      by (auto simp: get_object_def cell_holds_def cell_read_def value_view_def value_init_zero_def
          Let_def split: if_splits)
  qed
  then show "effect keep st st'"
    "rc = STORAGE_OK \<Longrightarrow> cell_holds (co_type obj) (contents st ?i ?k) v" by blast+
qed

lemma handle_read_spec:
  assumes "handle_read_config L st req = (resp, st')"
  shows "effect keep st st'" and "rresp_has_value resp \<longleftrightarrow> rresp_status resp = STATUS_OK"
    and "rresp_has_value resp \<Longrightarrow> \<exists>obj. find_config_object (rreq_key req) = Some obj \<and>
      cell_holds (co_type obj) (contents st (object_env obj) (rreq_key req)) (rresp_value resp)"
proof -
  have "effect keep st st' \<and> (rresp_has_value resp \<longleftrightarrow> rresp_status resp = STATUS_OK) \<and>
    (rresp_has_value resp \<longrightarrow> (\<exists>obj. find_config_object (rreq_key req) = Some obj \<and>
      cell_holds (co_type obj) (contents st (object_env obj) (rreq_key req)) (rresp_value resp)))"
  proof (cases "find_config_object (rreq_key req)")
    case None
    from handle_read_unknown [OF None, of L st] assms show ?thesis by auto
  next
    case (Some obj)
    note f = find_config_object_some [OF Some]
    obtain rc v st1 where g: "get_object L st obj = (rc, v, st1)"
      by (cases "get_object L st obj")
    with handle_read_known [OF Some, of L st] assms have "resp = read_done rc v" "st' = st1" by auto
    with get_object_reads [OF conjunct1 [OF f] g] f Some show ?thesis by auto
  qed
  then show "effect keep st st'" "rresp_has_value resp \<longleftrightarrow> rresp_status resp = STATUS_OK"
    "rresp_has_value resp \<Longrightarrow> \<exists>obj. find_config_object (rreq_key req) = Some obj \<and>
      cell_holds (co_type obj) (contents st (object_env obj) (rreq_key req)) (rresp_value resp)"
    by blast+
qed

end

lemma cell_holds_value:
  assumes "obj \<in> set g_config_objects" and "admits obj v"
    and "cell_holds (co_type obj) (Some (value_cell (co_type obj) v)) w"
  shows "w = value_view (co_type obj) v"
  using config_objects_types [OF assms(1)] config_objects_bytes [OF assms(1)] assms(2,3)
  by (auto simp: cell_holds_def admits_def value_view_def)

context lmdb_reliable
begin

lemma set_object_total:
  assumes "obj \<in> set g_config_objects" and "ag_writable st (object_env obj)"
  shows "fst (set_object L st obj v) = STORAGE_OK"
  using config_objects_types [OF assms(1)] config_objects_keys [OF assms(1)] assms(2)
  by (auto simp: set_object_def ag_set_total intro!: ag_set_bytes_total)

lemma get_object_total:
  assumes "obj \<in> set g_config_objects" and "admits obj v"
    and "contents st (object_env obj) (co_name obj) = Some (value_cell (co_type obj) v)"
  shows "fst (get_object L st obj) = STORAGE_OK"
proof -
  have op: "ag_envs st (object_env obj) \<noteq> None" using assms(3) by (rule ag_map_open)
  note t = ag_get_total(1,2) [OF config_objects_keys [OF assms(1)] op]
    ag_get_total(3) [OF config_objects_keys [OF assms(1)] op, of 256]
  show ?thesis
    using config_objects_types [OF assms(1)] config_objects_bytes [OF assms(1)] t assms(2,3)
    by (auto simp: get_object_def admits_def Let_def split: prod.splits)
qed

text \<open>While the platform has resources, an admissible write succeeds and is read back.\<close>

lemma write_read:
  assumes "admissible req = Some obj" and "ag_writable st (object_env obj)"
  shows "\<exists>wr st' rr st''. handle_write_config L st req = (wr, st') \<and> wresp_status wr = STATUS_OK \<and>
    handle_read_config L st' \<lparr>rreq_key = wreq_key req\<rparr> = (rr, st'') \<and> rresp_status rr = STATUS_OK \<and>
    rresp_has_value rr \<and> rresp_value rr = value_view (co_type obj) (wreq_value req)"
proof -
  note a = admissible_some [OF assms(1)]
  obtain st' where s: "set_object L st obj (wreq_value req) = (STORAGE_OK, st')"
    using set_object_total [OF a(2) assms(2), of "wreq_value req"]
    by (cases "set_object L st obj (wreq_value req)") auto
  have w: "handle_write_config L st req = (write_done STORAGE_OK, st')"
    using handle_write_accepts [OF assms(1), of L st] s by simp
  have "ag_envs st (object_env obj) \<noteq> None" using assms(2) by (auto simp: ag_writable_def split: option.splits)
  then have c: "contents st' (object_env obj) (co_name obj) = Some (value_cell (co_type obj) (wreq_value req))"
    using ag_effect_map [OF set_object_writes [OF a(2) s]] by (simp add: upd_def)
  obtain v st'' where g: "get_object L st' obj = (STORAGE_OK, v, st'')"
    using get_object_total [OF a(2,5) c] by (cases "get_object L st' obj") auto
  have "v = value_view (co_type obj) (wreq_value req)"
    using cell_holds_value [OF a(2,5)] get_object_reads(2) [OF a(2) g] c by simp
  moreover have "handle_read_config L st' \<lparr>rreq_key = wreq_key req\<rparr> = (read_done STORAGE_OK v, st'')"
    using handle_read_known [of "\<lparr>rreq_key = wreq_key req\<rparr>" obj L st'] a(1) g by simp
  ultimately show ?thesis using w by auto
qed

end

end
