(* ===== verification/Ipc_Server.thy ===== *)
theory Ipc_Server
  imports Ipc_Config
begin

text \<open>
  The connections of \<open>src/ipc_server.c\<close>: frames of a 4 byte big-endian length and an encoded
  envelope, client slots, and the functions the event loop calls. The socket calls of the operating
  system and nanopb's \<open>pb_decode\<close> and \<open>pb_encode\<close> at the \<open>Envelope\<close> type are parameters, a record
  \<open>ipc_api\<close> of operations on a world \<open>'w\<close>. The loops around socket calls have no bound of their own,
  so they are partial functions: \<open>None\<close> is a loop that never ends. A client's \<open>buf\<close> and \<open>len\<close> are
  one list, the valid bytes. Messages to \<open>stderr\<close> are left out.
\<close>

datatype envelope_body =
    Body_None
  | Write_Config_Request WriteConfigRequest
  | Write_Config_Response WriteConfigResponse
  | Read_Config_Request ReadConfigRequest
  | Read_Config_Response ReadConfigResponse
  | Send_Trap_Request SendTrapRequest
  | Send_Trap_Response SendTrapResponse
  | Ping_Request uint32
  | Ping_Response uint32

record envelope =
  request_id :: uint32
  body :: envelope_body

datatype io_count = Io_Count nat | Io_EINTR | Io_EAGAIN | Io_Error
datatype io_read = Rd_Bytes bytes | Rd_EINTR | Rd_EAGAIN | Rd_Error
datatype io_accept = Acc_Fd int | Acc_EINTR | Acc_EAGAIN | Acc_Error
datatype io_unlink = Unlink_OK | Unlink_ENOENT | Unlink_Error

record 'w ipc_api =
  pb_decode_envelope :: "bytes \<Rightarrow> envelope option"
  pb_encode_envelope :: "nat \<Rightarrow> envelope \<Rightarrow> bytes option"  \<comment> \<open>into a buffer of that size\<close>
  os_read :: "'w \<Rightarrow> int \<Rightarrow> nat \<Rightarrow> io_read \<times> 'w"  \<comment> \<open>\<open>Rd_Bytes []\<close> is the result 0\<close>
  os_write :: "'w \<Rightarrow> int \<Rightarrow> bytes \<Rightarrow> io_count \<times> 'w"
  os_poll_out :: "'w \<Rightarrow> int \<Rightarrow> 'w"  \<comment> \<open>wait up to a second for \<open>POLLOUT\<close>\<close>
  os_close :: "'w \<Rightarrow> int \<Rightarrow> 'w"
  os_accept :: "'w \<Rightarrow> int \<Rightarrow> io_accept \<times> 'w"
  os_getfl :: "'w \<Rightarrow> int \<Rightarrow> int"
  os_setfl_nonblock :: "'w \<Rightarrow> int \<Rightarrow> int \<Rightarrow> bool \<times> 'w"
  os_setfd_cloexec :: "'w \<Rightarrow> int \<Rightarrow> 'w"
  os_socket :: "'w \<Rightarrow> int option \<times> 'w"
  os_unlink :: "'w \<Rightarrow> string \<Rightarrow> io_unlink \<times> 'w"
  os_bind :: "'w \<Rightarrow> int \<Rightarrow> string \<Rightarrow> bool \<times> 'w"
  os_listen :: "'w \<Rightarrow> int \<Rightarrow> nat \<Rightarrow> bool \<times> 'w"
  os_chmod :: "'w \<Rightarrow> string \<Rightarrow> nat \<Rightarrow> bool \<times> 'w"
  os_calloc :: "'w \<Rightarrow> bool"  \<comment> \<open>does allocating the server succeed\<close>

abbreviation (input) IPC_MAX_FRAME_LEN :: nat where "IPC_MAX_FRAME_LEN \<equiv> 65536"
abbreviation (input) IPC_MAX_CLIENTS :: nat where "IPC_MAX_CLIENTS \<equiv> 8"
abbreviation (input) IPC_SEND_BUF_SIZE :: nat where "IPC_SEND_BUF_SIZE \<equiv> 1024"

definition IPC_CLIENT_BUF_SIZE :: nat where
  "IPC_CLIENT_BUF_SIZE = (4 + IPC_MAX_FRAME_LEN) * 2"

record ipc_client =
  cl_fd :: int
  cl_in_use :: bool
  cl_buf :: bytes

record ipc_server =
  srv_listen_fd :: int
  srv_sock_path :: string
  srv_clients :: "ipc_client list"

subsection \<open>Connection plumbing\<close>

definition close_client :: "'w ipc_api \<Rightarrow> ipc_client \<Rightarrow> 'w \<Rightarrow> ipc_client \<times> 'w" where
  "close_client K c w = (c\<lparr>cl_fd := - 1, cl_in_use := False, cl_buf := []\<rparr>, os_close K w (cl_fd c))"

partial_function (option) send_all ::
  "'w ipc_api \<Rightarrow> 'w \<Rightarrow> int \<Rightarrow> bytes \<Rightarrow> nat \<Rightarrow> (int \<times> 'w) option" where
  "send_all K w fd buf off =
     (if off < length buf then
        (case os_write K w fd (drop off buf) of (r, w) \<Rightarrow>
           (case r of
              Io_Count n \<Rightarrow> if n > 0 then send_all K w fd buf (off + n) else Some (- 1, w)
            | Io_EINTR \<Rightarrow> send_all K w fd buf off
            | Io_EAGAIN \<Rightarrow> send_all K (os_poll_out K w fd) fd buf off
            | Io_Error \<Rightarrow> Some (- 1, w)))
      else Some (0, w))"

definition put_u32be :: "uint32 \<Rightarrow> bytes" where
  "put_u32be len =
     [ucast (drop_bit 24 len AND 0xFF), ucast (drop_bit 16 len AND 0xFF),
      ucast (drop_bit 8 len AND 0xFF), ucast (len AND 0xFF)]"

definition get_u32be :: "bytes \<Rightarrow> uint32" where
  "get_u32be buf =
     push_bit 24 (ucast (buf ! 0)) OR push_bit 16 (ucast (buf ! 1)) OR
     push_bit 8 (ucast (buf ! 2)) OR ucast (buf ! 3)"

definition send_envelope ::
  "'w ipc_api \<Rightarrow> ipc_client \<Rightarrow> 'w \<Rightarrow> envelope \<Rightarrow> (ipc_client \<times> 'w) option" where
  "send_envelope K c w env =
     (case pb_encode_envelope K IPC_SEND_BUF_SIZE env of
        None \<Rightarrow> Some (close_client K c w)
      | Some payload \<Rightarrow>
          (case send_all K w (cl_fd c) (put_u32be (of_nat (length payload)) @ payload) 0 of
             None \<Rightarrow> None
           | Some (r, w) \<Rightarrow> Some (if r \<noteq> 0 then close_client K c w else (c, w))))"

text \<open>The \<open>switch\<close> of \<open>handle_frame\<close>: the response body, or \<open>None\<close> where the connection is closed.\<close>

definition unexpected :: string where
  "unexpected = ''unexpected response envelope from client''"

definition respond ::
  "('e, 't, 'c) platform \<Rightarrow> ('r, 'i, 'v) snmp_api \<Rightarrow> ('e, 'v) agent \<Rightarrow> envelope \<Rightarrow>
   envelope option \<times> ('e, 'v) agent" where
  "respond L S st req =
     (let answer = (\<lambda>b. Some \<lparr>request_id = request_id req, body = b\<rparr>) in
      case body req of
        Ping_Request nonce \<Rightarrow> (answer (Ping_Response nonce), st)
      | Write_Config_Request r \<Rightarrow>
          (case handle_write_config L st r of (resp, st) \<Rightarrow> (answer (Write_Config_Response resp), st))
      | Read_Config_Request r \<Rightarrow>
          (case handle_read_config L st r of (resp, st) \<Rightarrow> (answer (Read_Config_Response resp), st))
      | Send_Trap_Request r \<Rightarrow>
          (case handle_send_trap L S st r of (resp, st) \<Rightarrow> (answer (Send_Trap_Response resp), st))
      | Write_Config_Response _ \<Rightarrow>
          (answer (Write_Config_Response (wresp STATUS_INVALID unexpected)), st)
      | Read_Config_Response _ \<Rightarrow>
          (answer (Read_Config_Response (rresp_init\<lparr>rresp_status := STATUS_INVALID,
             rresp_message := snprintf sizeof_message unexpected\<rparr>)), st)
      | Send_Trap_Response _ \<Rightarrow> (answer (Send_Trap_Response (tresp STATUS_INVALID unexpected)), st)
      | Ping_Response _ \<Rightarrow> (None, st)
      | Body_None \<Rightarrow> (None, st))"

type_synonym ('e, 'v, 'w) served = "(bool \<times> ipc_client \<times> 'w \<times> ('e, 'v) agent) option"

definition handle_frame ::
  "('e, 't, 'c) platform \<Rightarrow> ('r, 'i, 'v) snmp_api \<Rightarrow> 'w ipc_api \<Rightarrow> ipc_client \<Rightarrow> 'w \<Rightarrow>
   ('e, 'v) agent \<Rightarrow> bytes \<Rightarrow> ('e, 'v, 'w) served" where
  "handle_frame L S K c w st data =
     (case pb_decode_envelope K data of
        None \<Rightarrow> (case close_client K c w of (c, w) \<Rightarrow> Some (False, c, w, st))
      | Some req \<Rightarrow>
          (case respond L S st req of
             (None, st) \<Rightarrow> (case close_client K c w of (c, w) \<Rightarrow> Some (False, c, w, st))
           | (Some resp, st) \<Rightarrow>
               (case send_envelope K c w resp of
                  None \<Rightarrow> None
                | Some (c, w) \<Rightarrow> Some (cl_in_use c, c, w, st))))"

partial_function (option) drain_frames ::
  "('e, 't, 'c) platform \<Rightarrow> ('r, 'i, 'v) snmp_api \<Rightarrow> 'w ipc_api \<Rightarrow> ipc_client \<Rightarrow> 'w \<Rightarrow>
   ('e, 'v) agent \<Rightarrow> ('e, 'v, 'w) served" where
  "drain_frames L S K c w st =
     (if length (cl_buf c) < 4 then Some (True, c, w, st)
      else let frame_len = get_u32be (cl_buf c) in
        if frame_len = 0 then
          (case close_client K c w of (c, w) \<Rightarrow> Some (False, c, w, st))
        else if unat frame_len > IPC_MAX_FRAME_LEN then
          (case close_client K c w of (c, w) \<Rightarrow> Some (False, c, w, st))
        else let total = 4 + unat frame_len in
          if length (cl_buf c) < total then Some (True, c, w, st)
          else (case handle_frame L S K c w st (take (unat frame_len) (drop 4 (cl_buf c))) of
              None \<Rightarrow> None
            | Some (ok, c, w, st) \<Rightarrow>
                if \<not> ok then Some (False, c, w, st)
                else drain_frames L S K (c\<lparr>cl_buf := drop total (cl_buf c)\<rparr>) w st))"

partial_function (option) service_client ::
  "('e, 't, 'c) platform \<Rightarrow> ('r, 'i, 'v) snmp_api \<Rightarrow> 'w ipc_api \<Rightarrow> ipc_client \<Rightarrow> 'w \<Rightarrow>
   ('e, 'v) agent \<Rightarrow> (ipc_client \<times> 'w \<times> ('e, 'v) agent) option" where
  "service_client L S K c w st =
     (if length (cl_buf c) \<ge> IPC_CLIENT_BUF_SIZE then
        (case close_client K c w of (c, w) \<Rightarrow> Some (c, w, st))
      else (case os_read K w (cl_fd c) (IPC_CLIENT_BUF_SIZE - length (cl_buf c)) of (r, w) \<Rightarrow>
        (case r of
           Rd_Bytes bs \<Rightarrow>
             if length bs > 0 then
               (case drain_frames L S K (c\<lparr>cl_buf := cl_buf c @ bs\<rparr>) w st of
                  None \<Rightarrow> None
                | Some (ok, c, w, st) \<Rightarrow>
                    if \<not> ok then Some (c, w, st) else service_client L S K c w st)
             else (case close_client K c w of (c, w) \<Rightarrow> Some (c, w, st))
         | Rd_EAGAIN \<Rightarrow> Some (c, w, st)
         | Rd_EINTR \<Rightarrow> service_client L S K c w st
         | Rd_Error \<Rightarrow> (case close_client K c w of (c, w) \<Rightarrow> Some (c, w, st)))))"

subsection \<open>Public functions\<close>

definition free_client :: ipc_client where
  "free_client = \<lparr>cl_fd = - 1, cl_in_use = False, cl_buf = []\<rparr>"

abbreviation (input) sizeof_sun_path :: nat where "sizeof_sun_path \<equiv> 108"

definition ipc_server_start :: "'w ipc_api \<Rightarrow> 'w \<Rightarrow> string option \<Rightarrow> ipc_server option \<times> 'w" where
  "ipc_server_start K w path =
     (case path of
        None \<Rightarrow> (None, w)
      | Some path \<Rightarrow>
          if length path \<ge> sizeof_sun_path then (None, w)
          else if \<not> os_calloc K w then (None, w)
          else (case os_socket K w of
              (None, w) \<Rightarrow> (None, w)
            | (Some fd, w) \<Rightarrow>
                (case os_unlink K w path of (u, w) \<Rightarrow>
                   if u = Unlink_Error then (None, os_close K w fd)
                   else (case os_bind K w fd path of (ok, w) \<Rightarrow>
                     if \<not> ok then (None, os_close K w fd)
                     else (case os_listen K w fd 8 of (ok, w) \<Rightarrow>
                       if \<not> ok then (None, snd (os_unlink K (os_close K w fd) path))
                       else (let flags = os_getfl K w fd in
                         case (if flags < 0 then (False, w) else os_setfl_nonblock K w fd flags) of
                           (ok, w) \<Rightarrow>
                             if \<not> ok then (None, snd (os_unlink K (os_close K w fd) path))
                             else (case os_chmod K w path 432 of (ok, w) \<Rightarrow>
                               if \<not> ok then (None, snd (os_unlink K (os_close K w fd) path))
                               else (Some \<lparr>srv_listen_fd = fd, srv_sock_path = path,
                                       srv_clients = replicate IPC_MAX_CLIENTS free_client\<rparr>, w))))))))"

fun close_in_use :: "'w ipc_api \<Rightarrow> 'w \<Rightarrow> ipc_client list \<Rightarrow> 'w" where
  "close_in_use K w [] = w"
| "close_in_use K w (c # cs) = close_in_use K (if cl_in_use c then os_close K w (cl_fd c) else w) cs"

definition ipc_server_stop :: "'w ipc_api \<Rightarrow> 'w \<Rightarrow> ipc_server option \<Rightarrow> 'w" where
  "ipc_server_stop K w srv =
     (case srv of
        None \<Rightarrow> w
      | Some srv \<Rightarrow>
          let w = close_in_use K w (srv_clients srv) in
          if srv_listen_fd srv \<ge> 0
          then snd (os_unlink K (os_close K w (srv_listen_fd srv)) (srv_sock_path srv))
          else w)"

text \<open>An \<open>fd_set\<close> is the list of the descriptors set, latest first.\<close>

fun fill_clients :: "ipc_client list \<Rightarrow> int list \<Rightarrow> int \<Rightarrow> int \<times> int list" where
  "fill_clients [] readfds maxfd = (maxfd, readfds)"
| "fill_clients (c # cs) readfds maxfd =
     (if cl_in_use c
      then fill_clients cs (cl_fd c # readfds) (if cl_fd c > maxfd then cl_fd c else maxfd)
      else fill_clients cs readfds maxfd)"

definition ipc_server_fill_fdset :: "ipc_server option \<Rightarrow> int list \<Rightarrow> int \<Rightarrow> int \<times> int list" where
  "ipc_server_fill_fdset srv readfds maxfd =
     (case srv of
        None \<Rightarrow> (maxfd, readfds)
      | Some srv \<Rightarrow>
          if srv_listen_fd srv < 0 then (maxfd, readfds)
          else fill_clients (srv_clients srv) (srv_listen_fd srv # readfds)
                 (if srv_listen_fd srv > maxfd then srv_listen_fd srv else maxfd))"

text \<open>\<open>-1\<close> is \<open>None\<close>.\<close>

fun find_free_slot :: "ipc_client list \<Rightarrow> nat option" where
  "find_free_slot [] = None"
| "find_free_slot (c # cs) = (if \<not> cl_in_use c then Some 0 else map_option Suc (find_free_slot cs))"

partial_function (option) accept_new_clients ::
  "'w ipc_api \<Rightarrow> ipc_server \<Rightarrow> 'w \<Rightarrow> (ipc_server \<times> 'w) option" where
  "accept_new_clients K srv w =
     (case os_accept K w (srv_listen_fd srv) of (r, w) \<Rightarrow>
        (case r of
           Acc_EAGAIN \<Rightarrow> Some (srv, w)
         | Acc_EINTR \<Rightarrow> accept_new_clients K srv w
         | Acc_Error \<Rightarrow> Some (srv, w)
         | Acc_Fd fd \<Rightarrow>
             let flags = os_getfl K w fd;
                 w = (if flags \<ge> 0 then snd (os_setfl_nonblock K w fd flags) else w);
                 w = os_setfd_cloexec K w fd in
             (case find_free_slot (srv_clients srv) of
                None \<Rightarrow> accept_new_clients K srv (os_close K w fd)
              | Some slot \<Rightarrow>
                  accept_new_clients K
                    (srv\<lparr>srv_clients := (srv_clients srv)[slot :=
                       \<lparr>cl_fd = fd, cl_in_use = True, cl_buf = []\<rparr>]\<rparr>) w)))"

fun service_clients ::
  "('e, 't, 'c) platform \<Rightarrow> ('r, 'i, 'v) snmp_api \<Rightarrow> 'w ipc_api \<Rightarrow> int list \<Rightarrow> ipc_client list \<Rightarrow>
   'w \<Rightarrow> ('e, 'v) agent \<Rightarrow> (ipc_client list \<times> 'w \<times> ('e, 'v) agent) option" where
  "service_clients L S K readfds [] w st = Some ([], w, st)"
| "service_clients L S K readfds (c # cs) w st =
     (case (if cl_in_use c \<and> cl_fd c \<in> set readfds then service_client L S K c w st
            else Some (c, w, st)) of
        None \<Rightarrow> None
      | Some (c, w, st) \<Rightarrow>
          (case service_clients L S K readfds cs w st of
             None \<Rightarrow> None
           | Some (cs, w, st) \<Rightarrow> Some (c # cs, w, st)))"

definition ipc_server_dispatch ::
  "('e, 't, 'c) platform \<Rightarrow> ('r, 'i, 'v) snmp_api \<Rightarrow> 'w ipc_api \<Rightarrow> ipc_server option \<Rightarrow> int list \<Rightarrow>
   'w \<Rightarrow> ('e, 'v) agent \<Rightarrow> (ipc_server option \<times> 'w \<times> ('e, 'v) agent) option" where
  "ipc_server_dispatch L S K srv readfds w st =
     (case srv of
        None \<Rightarrow> Some (None, w, st)
      | Some srv \<Rightarrow>
          if srv_listen_fd srv < 0 then Some (Some srv, w, st)
          else (case (if srv_listen_fd srv \<in> set readfds then accept_new_clients K srv w
                      else Some (srv, w)) of
              None \<Rightarrow> None
            | Some (srv, w) \<Rightarrow>
                (case service_clients L S K readfds (srv_clients srv) w st of
                   None \<Rightarrow> None
                 | Some (cs, w, st) \<Rightarrow> Some (Some (srv\<lparr>srv_clients := cs\<rparr>), w, st))))"

declare send_all.simps [code] drain_frames.simps [code] service_client.simps [code]
  accept_new_clients.simps [code]

end
