(* ===== verification/Ipc_Framing.thy ===== *)
theory Ipc_Framing
  imports Ipc_Server
begin

text \<open>
  The byte stream of an IPC connection. \<open>split_frames\<close> is the reference reading of a buffer: the
  complete frames, the bytes left over, and whether the next length prefix is acceptable.
  \<open>drain_frames\<close> serves exactly these frames in order and keeps the left-over bytes, so how the
  kernel cuts the stream into reads makes no difference and the receive buffer never fills up.
\<close>

subsection \<open>The length prefix\<close>

lemma length_put_u32be [simp, codec_simps]: "length (put_u32be v) = 4"
  by (simp add: put_u32be_def)

lemma get_put_u32be [simp, codec_simps]: "get_u32be (put_u32be v @ rest) = v"
proof (rule bit_word_eqI)
  fix n
  assume "n < LENGTH(32)"
  then have n: "n < 32" by simp
  have mask: "(0xFF :: uint32) = mask 8" by (simp add: mask_eq_exp_minus_1)
  from n consider "n < 8" | "8 \<le> n" "n < 16" | "16 \<le> n" "n < 24" | "24 \<le> n" by linarith
  then show "bit (get_u32be (put_u32be v @ rest)) n = bit v n"
    using n by cases (auto simp: get_u32be_def put_u32be_def mask bit_simps less_diff_conv2)
qed

lemma get_u32be_append: "4 \<le> length a \<Longrightarrow> get_u32be (a @ b) = get_u32be a"
  by (cases "a = []") (simp_all add: get_u32be_def nth_append)

text \<open>A frame on the wire.\<close>

definition frame_of :: "bytes \<Rightarrow> bytes" where
  "frame_of payload = put_u32be (of_nat (length payload)) @ payload"

definition frame_ok :: "bytes \<Rightarrow> bool" where
  "frame_ok payload \<longleftrightarrow> payload \<noteq> [] \<and> length payload \<le> 65536"

subsection \<open>Splitting a buffer\<close>

function split_frames :: "bytes \<Rightarrow> bytes list \<times> bytes \<times> bool" where
  "split_frames buf =
     (if length buf < 4 then ([], buf, True)
      else let n = unat (get_u32be buf) in
        if n = 0 \<or> n > 65536 then ([], buf, False)
        else if length buf < 4 + n then ([], buf, True)
        else (case split_frames (drop (4 + n) buf) of (fs, r, ok) \<Rightarrow>
                (take n (drop 4 buf) # fs, r, ok)))"
  by pat_completeness auto
termination
  by (relation "measure length") auto

declare split_frames.simps [simp del]

lemma split_frames_cons:
  assumes "frame_ok p"
  shows "split_frames (frame_of p @ rest) =
     (case split_frames rest of (fs, r, ok) \<Rightarrow> (p # fs, r, ok))"
proof -
  have "unat (of_nat (length p) :: uint32) = length p"
    using assms by (auto simp: frame_ok_def unat_of_nat take_bit_nat_eq_self)
  then show ?thesis
    using assms by (subst split_frames.simps) (auto simp: frame_of_def frame_ok_def Let_def)
qed

text \<open>A buffer that \<open>drain_frames\<close> leaves as it is: shorter than one frame.\<close>

definition incomplete :: "bytes \<Rightarrow> bool" where
  "incomplete buf \<longleftrightarrow> length buf < 4 \<or>
     0 < unat (get_u32be buf) \<and> unat (get_u32be buf) \<le> 65536 \<and> length buf < 4 + unat (get_u32be buf)"

lemma incomplete_Nil [simp]: "incomplete []"
  by (simp add: incomplete_def)

lemma incomplete_length: "incomplete buf \<Longrightarrow> length buf < 4 + 65536"
  by (auto simp: incomplete_def)

definition prefix_bad :: "bytes \<Rightarrow> bool" where
  "prefix_bad buf \<longleftrightarrow> 4 \<le> length buf \<and>
     (unat (get_u32be buf) = 0 \<or> unat (get_u32be buf) > 65536)"

definition has_frame :: "bytes \<Rightarrow> nat \<Rightarrow> bool" where
  "has_frame buf n \<longleftrightarrow> n = unat (get_u32be buf) \<and> 0 < n \<and> n \<le> 65536 \<and> 4 + n \<le> length buf"

lemma buffer_cases:
  obtains (incomplete) "incomplete buf" | (bad) "prefix_bad buf" | (frame) n where "has_frame buf n"
proof -
  have "incomplete buf \<or> prefix_bad buf \<or> has_frame buf (unat (get_u32be buf))"
    unfolding incomplete_def prefix_bad_def has_frame_def by linarith
  then show thesis using that by blast
qed

lemma split_frames_incomplete: "incomplete buf \<Longrightarrow> split_frames buf = ([], buf, True)"
  by (subst split_frames.simps) (auto simp: incomplete_def Let_def)

lemma split_frames_bad: "prefix_bad buf \<Longrightarrow> split_frames buf = ([], buf, False)"
  by (subst split_frames.simps) (auto simp: prefix_bad_def Let_def)

lemma split_frames_frame: "has_frame buf n \<Longrightarrow> split_frames buf =
    (case split_frames (drop (4 + n) buf) of (fs, r, ok) \<Rightarrow> (take n (drop 4 buf) # fs, r, ok))"
  by (subst split_frames.simps) (auto simp: has_frame_def Let_def)

lemmas split_frames_simps = split_frames_incomplete split_frames_bad split_frames_frame

lemma has_frame_append: "has_frame a n \<Longrightarrow> has_frame (a @ b) n"
  by (auto simp: has_frame_def get_u32be_append)

lemma prefix_bad_append: "prefix_bad a \<Longrightarrow> prefix_bad (a @ b)"
  by (auto simp: prefix_bad_def get_u32be_append)

lemma split_frames_rest: "split_frames buf = (fs, r, True) \<Longrightarrow> incomplete r"
proof (induction "length buf" arbitrary: buf fs rule: less_induct)
  case less
  show ?case
  proof (cases buf rule: buffer_cases)
    case (frame n)
    with less.hyps [of "drop (4 + n) buf"] less.prems show ?thesis
      by (auto simp: split_frames_frame has_frame_def split: prod.splits)
  qed (use less.prems in \<open>auto simp: split_frames_simps\<close>)
qed

lemma split_frames_append:
  "split_frames (a @ b) =
     (case split_frames a of (fs, r, ok) \<Rightarrow>
        if ok then (case split_frames (r @ b) of (fs', r', ok') \<Rightarrow> (fs @ fs', r', ok'))
        else (fs, r @ b, False))"
proof (induction "length a" arbitrary: a rule: less_induct)
  case less
  show ?case
  proof (cases a rule: buffer_cases)
    case (frame n)
    let ?rest = "drop (4 + n) a"
    have n: "4 + n \<le> length a" using frame by (simp add: has_frame_def)
    have IH: "split_frames (?rest @ b) = (case split_frames ?rest of (fs, r, ok) \<Rightarrow>
        if ok then (case split_frames (r @ b) of (fs', r', ok') \<Rightarrow> (fs @ fs', r', ok'))
        else (fs, r @ b, False))"
      by (rule less.hyps) (use n in simp)
    have "split_frames (a @ b) = (case split_frames (?rest @ b) of (fs, r, ok) \<Rightarrow>
        (take n (drop 4 a) # fs, r, ok))"
      using n by (simp add: split_frames_frame [OF has_frame_append [OF frame]])
    then show ?thesis
      by (simp only: IH split_frames_frame [OF frame]) (simp split: prod.splits)
  qed (simp_all add: split_frames_simps prefix_bad_append)
qed

subsection \<open>Serving frames\<close>

text \<open>What one frame does to the world and the agent; the flag tells whether the connection stays.\<close>

definition serve_frame ::
  "('e, 't, 'c) platform \<Rightarrow> ('r, 'i, 'v) snmp_api \<Rightarrow> 'w ipc_api \<Rightarrow> int \<Rightarrow> bytes \<Rightarrow> 'w \<Rightarrow>
   ('e, 'v) agent \<Rightarrow> (bool \<times> 'w \<times> ('e, 'v) agent) option" where
  "serve_frame L S K fd data w st =
     (case pb_decode_envelope K data of
        None \<Rightarrow> Some (False, os_close K w fd, st)
      | Some req \<Rightarrow>
          (case respond L S st req of (ans, st) \<Rightarrow>
             (case Option.bind ans (pb_encode_envelope K 1024) of
                None \<Rightarrow> Some (False, os_close K w fd, st)
              | Some payload \<Rightarrow>
                  map_option (\<lambda>(r, w). if r = 0 then (True, w, st) else (False, os_close K w fd, st))
                    (send_all K w fd (frame_of payload) 0))))"

fun serve_frames ::
  "('e, 't, 'c) platform \<Rightarrow> ('r, 'i, 'v) snmp_api \<Rightarrow> 'w ipc_api \<Rightarrow> int \<Rightarrow> bytes list \<Rightarrow> 'w \<Rightarrow>
   ('e, 'v) agent \<Rightarrow> (bool \<times> 'w \<times> ('e, 'v) agent) option" where
  "serve_frames L S K fd [] w st = Some (True, w, st)"
| "serve_frames L S K fd (p # ps) w st =
     Option.bind (serve_frame L S K fd p w st)
       (\<lambda>(ok, w, st). if ok then serve_frames L S K fd ps w st else Some (False, w, st))"

lemma serve_frames_append:
  "serve_frames L S K fd (ps @ qs) w st =
     Option.bind (serve_frames L S K fd ps w st)
       (\<lambda>(ok, w, st). if ok then serve_frames L S K fd qs w st else Some (False, w, st))"
  by (induction ps arbitrary: w st) (auto split: prod.splits bind_splits)

lemma close_client_eq [simp]: "close_client K c w = (free_client, os_close K w (cl_fd c))"
  by (cases c) (simp add: close_client_def free_client_def)

lemma free_client_simps [simp]:
  "\<not> cl_in_use free_client" "cl_buf free_client = []" "cl_fd free_client = - 1"
  by (simp_all add: free_client_def)

lemma handle_frame_serve:
  assumes "cl_in_use c"
  shows "handle_frame L S K c w st data =
     map_option (\<lambda>(ok, w, st). (ok, if ok then c else free_client, w, st))
       (serve_frame L S K (cl_fd c) data w st)"
  using assms
  by (auto simp: handle_frame_def serve_frame_def send_envelope_def frame_of_def
      split: option.splits prod.splits bind_splits)

lemma drain_frames_incomplete:
  "incomplete (cl_buf c) \<Longrightarrow> drain_frames L S K c w st = Some (True, c, w, st)"
  by (subst drain_frames.simps) (auto simp: incomplete_def Let_def unat_eq_0)

lemma drain_frames_bad:
  "prefix_bad (cl_buf c) \<Longrightarrow>
     drain_frames L S K c w st = Some (False, free_client, os_close K w (cl_fd c), st)"
  by (subst drain_frames.simps) (auto simp: prefix_bad_def Let_def unat_eq_0)

lemma drain_frames_frame:
  assumes "has_frame (cl_buf c) n" and "cl_in_use c"
  shows "drain_frames L S K c w st =
     Option.bind (serve_frame L S K (cl_fd c) (take n (drop 4 (cl_buf c))) w st)
       (\<lambda>(ok, w, st). if ok then drain_frames L S K (c\<lparr>cl_buf := drop (4 + n) (cl_buf c)\<rparr>) w st
                      else Some (False, free_client, w, st))"
proof -
  have "get_u32be (cl_buf c) \<noteq> 0"
    using assms(1) by (auto simp: has_frame_def)
  with assms show ?thesis
    by (subst drain_frames.simps)
      (auto simp: has_frame_def Let_def handle_frame_serve split: option.splits bind_splits prod.splits)
qed

text \<open>The client after its complete frames were served, with \<open>r\<close> left over.\<close>

definition drained ::
  "'w ipc_api \<Rightarrow> ipc_client \<Rightarrow> bytes \<Rightarrow> bool \<Rightarrow> bool \<times> 'w \<times> ('e, 'v) agent \<Rightarrow>
   bool \<times> ipc_client \<times> 'w \<times> ('e, 'v) agent" where
  "drained K c r good = (\<lambda>(ok, w, st).
     if ok \<and> good then (True, c\<lparr>cl_buf := r\<rparr>, w, st)
     else (False, free_client, if ok then os_close K w (cl_fd c) else w, st))"

lemma drained_buf [simp]: "drained K (c\<lparr>cl_buf := b\<rparr>) r good = drained K c r good"
  by (auto simp: drained_def)

lemma drained_simp [simp]:
  "drained K c r good (ok, w, st) =
     (if ok \<and> good then (True, c\<lparr>cl_buf := r\<rparr>, w, st)
      else (False, free_client, if ok then os_close K w (cl_fd c) else w, st))"
  by (simp add: drained_def)

text \<open>\<open>drain_frames\<close> serves the complete frames in order and keeps the rest.\<close>

lemma drain_frames_serve:
  assumes "cl_in_use c"
  shows "drain_frames L S K c w st =
     (case split_frames (cl_buf c) of (fs, r, good) \<Rightarrow>
        map_option (drained K c r good) (serve_frames L S K (cl_fd c) fs w st))"
  using assms
proof (induction "length (cl_buf c)" arbitrary: c w st rule: less_induct)
  case less
  show ?case
  proof (cases "cl_buf c" rule: buffer_cases)
    case (frame n)
    let ?c = "c\<lparr>cl_buf := drop (4 + n) (cl_buf c)\<rparr>"
    have "length (cl_buf ?c) < length (cl_buf c)" using frame by (auto simp: has_frame_def)
    note IH = less.hyps [OF this, simplified, OF less.prems]
    obtain fs r good where s: "split_frames (drop (4 + n) (cl_buf c)) = (fs, r, good)"
      by (cases "split_frames (drop (4 + n) (cl_buf c))")
    show ?thesis
      using IH
      by (cases "serve_frame L S K (cl_fd c) (take n (drop 4 (cl_buf c))) w st")
        (auto simp: drain_frames_frame [OF frame less.prems] split_frames_frame [OF frame] s)
  qed (simp_all add: drain_frames_incomplete drain_frames_bad split_frames_simps)
qed

text \<open>The cuts between reads make no difference.\<close>

lemma drain_frames_append:
  assumes "cl_in_use c"
  shows "drain_frames L S K (c\<lparr>cl_buf := a @ b\<rparr>) w st =
     Option.bind (drain_frames L S K (c\<lparr>cl_buf := a\<rparr>) w st)
       (\<lambda>(ok, c', w', st'). if ok then drain_frames L S K (c'\<lparr>cl_buf := cl_buf c' @ b\<rparr>) w' st'
                            else Some (False, c', w', st'))"
proof -
  obtain fs r ok where s: "split_frames a = (fs, r, ok)" by (cases "split_frames a")
  obtain fs' r' ok' where s': "split_frames (r @ b) = (fs', r', ok')" by (cases "split_frames (r @ b)")
  have ab: "split_frames (a @ b) = (if ok then (fs @ fs', r', ok') else (fs, r @ b, False))"
    by (simp add: split_frames_append [of a b] s s')
  show ?thesis
    using assms
    by (cases "serve_frames L S K (cl_fd c) fs w st"; cases ok)
      (auto simp: drain_frames_serve ab s s' serve_frames_append)
qed

lemma drain_frames_open:
  assumes "cl_in_use c" and "drain_frames L S K c w st = Some (True, c', w', st')"
  shows "cl_in_use c'" and "cl_fd c' = cl_fd c" and "incomplete (cl_buf c')"
  using assms split_frames_rest
  by (auto simp: drain_frames_serve drained_def split: prod.splits if_splits)

lemma drain_frames_closed:
  assumes "cl_in_use c" and "drain_frames L S K c w st = Some (False, c', w', st')"
  shows "c' = free_client"
  using assms by (auto simp: drain_frames_serve split: prod.splits if_splits)

text \<open>A client slot between two rounds of the event loop.\<close>

definition client_ok :: "ipc_client \<Rightarrow> bool" where
  "client_ok c \<longleftrightarrow> (if cl_in_use c then incomplete (cl_buf c) else c = free_client)"

lemma client_ok_free [simp]: "client_ok free_client"
  by (simp add: client_ok_def)

text \<open>The reading loop without the check for a full buffer.\<close>

partial_function (option) service_unguarded ::
  "('e, 't, 'c) platform \<Rightarrow> ('r, 'i, 'v) snmp_api \<Rightarrow> 'w ipc_api \<Rightarrow> ipc_client \<Rightarrow> 'w \<Rightarrow>
   ('e, 'v) agent \<Rightarrow> (ipc_client \<times> 'w \<times> ('e, 'v) agent) option" where
  "service_unguarded L S K c w st =
     (case os_read K w (cl_fd c) (IPC_CLIENT_BUF_SIZE - length (cl_buf c)) of (r, w) \<Rightarrow>
        (case r of
           Rd_Bytes bs \<Rightarrow>
             if bs = [] then Some (free_client, os_close K w (cl_fd c), st)
             else (case drain_frames L S K (c\<lparr>cl_buf := cl_buf c @ bs\<rparr>) w st of
                  None \<Rightarrow> None
                | Some (ok, c, w, st) \<Rightarrow>
                    if ok then service_unguarded L S K c w st else Some (c, w, st))
         | Rd_EAGAIN \<Rightarrow> Some (c, w, st)
         | Rd_EINTR \<Rightarrow> service_unguarded L S K c w st
         | Rd_Error \<Rightarrow> Some (free_client, os_close K w (cl_fd c), st)))"

lemma client_ok_room: "client_ok c \<Longrightarrow> length (cl_buf c) + 65540 < IPC_CLIENT_BUF_SIZE"
  using incomplete_length [of "cl_buf c"]
  by (auto simp: client_ok_def IPC_CLIENT_BUF_SIZE_def split: if_splits)

lemma drain_frames_client_ok:
  assumes "cl_in_use c" and "drain_frames L S K c w st = Some (ok, c', w', st')"
  shows "client_ok c'" and "cl_in_use c' = ok" and "ok \<Longrightarrow> cl_fd c' = cl_fd c"
  using assms drain_frames_open [of c L S K w st c' w' st'] drain_frames_closed [of c L S K w st c' w' st']
  by (cases ok; simp add: client_ok_def)+

text \<open>The runs of the loop as a relation, for rule induction; it has no rule for a full buffer.\<close>

inductive service_run ::
  "('e, 't, 'c) platform \<Rightarrow> ('r, 'i, 'v) snmp_api \<Rightarrow> 'w ipc_api \<Rightarrow> ipc_client \<Rightarrow> 'w \<Rightarrow>
   ('e, 'v) agent \<Rightarrow> ipc_client \<Rightarrow> 'w \<Rightarrow> ('e, 'v) agent \<Rightarrow> bool"
  for L :: "('e, 't, 'c) platform" and S :: "('r, 'i, 'v) snmp_api" and K :: "'w ipc_api"
where
  more: "os_read K w (cl_fd c) (IPC_CLIENT_BUF_SIZE - length (cl_buf c)) = (Rd_Bytes bs, w1) \<Longrightarrow>
     bs \<noteq> [] \<Longrightarrow> drain_frames L S K (c\<lparr>cl_buf := cl_buf c @ bs\<rparr>) w1 st = Some (True, c2, w2, st2) \<Longrightarrow>
     service_run L S K c2 w2 st2 c' w' st' \<Longrightarrow> service_run L S K c w st c' w' st'"
| dropped: "os_read K w (cl_fd c) (IPC_CLIENT_BUF_SIZE - length (cl_buf c)) = (Rd_Bytes bs, w1) \<Longrightarrow>
     bs \<noteq> [] \<Longrightarrow> drain_frames L S K (c\<lparr>cl_buf := cl_buf c @ bs\<rparr>) w1 st = Some (False, c2, w2, st2) \<Longrightarrow>
     service_run L S K c w st c2 w2 st2"
| eof: "os_read K w (cl_fd c) (IPC_CLIENT_BUF_SIZE - length (cl_buf c)) = (Rd_Bytes [], w1) \<Longrightarrow>
     service_run L S K c w st free_client (os_close K w1 (cl_fd c)) st"
| again: "os_read K w (cl_fd c) (IPC_CLIENT_BUF_SIZE - length (cl_buf c)) = (Rd_EAGAIN, w1) \<Longrightarrow>
     service_run L S K c w st c w1 st"
| intr: "os_read K w (cl_fd c) (IPC_CLIENT_BUF_SIZE - length (cl_buf c)) = (Rd_EINTR, w1) \<Longrightarrow>
     service_run L S K c w1 st c' w' st' \<Longrightarrow> service_run L S K c w st c' w' st'"
| err: "os_read K w (cl_fd c) (IPC_CLIENT_BUF_SIZE - length (cl_buf c)) = (Rd_Error, w1) \<Longrightarrow>
     service_run L S K c w st free_client (os_close K w1 (cl_fd c)) st"

lemma service_client_run:
  assumes "service_client L S K c w st = Some res"
  shows "cl_in_use c \<longrightarrow> client_ok c \<longrightarrow> (case res of (c', w', st') \<Rightarrow> service_run L S K c w st c' w' st')"
proof (rule service_client.raw_induct [OF _ assms], intro impI)
  fix f L S K c w st res
  assume IH: "\<And>L S K c w st res. f L S K c w st = Some res \<Longrightarrow> cl_in_use c \<longrightarrow> client_ok c \<longrightarrow>
      (case res of (c', w', st') \<Rightarrow> service_run L S K c w st c' w' st')"
    and c: "cl_in_use c" "client_ok c"
    and step: "(if IPC_CLIENT_BUF_SIZE \<le> length (cl_buf c)
      then case close_client K c w of (c, w) \<Rightarrow> Some (c, w, st)
      else case os_read K w (cl_fd c) (IPC_CLIENT_BUF_SIZE - length (cl_buf c)) of
           (Rd_Bytes bs, w) \<Rightarrow>
             if 0 < length bs
             then case drain_frames L S K (c\<lparr>cl_buf := cl_buf c @ bs\<rparr>) w st of
                  None \<Rightarrow> None
                  | Some (ok, c, w, st) \<Rightarrow> if \<not> ok then Some (c, w, st) else f L S K c w st
             else case close_client K c w of (c, w) \<Rightarrow> Some (c, w, st)
           | (Rd_EINTR, w) \<Rightarrow> f L S K c w st
           | (Rd_EAGAIN, w) \<Rightarrow> Some (c, w, st)
           | (Rd_Error, w) \<Rightarrow> case close_client K c w of (c, w) \<Rightarrow> Some (c, w, st)) = Some res"
  obtain c' w' st' where res: "res = (c', w', st')" by (cases res)
  obtain r w1 where rd: "os_read K w (cl_fd c) (IPC_CLIENT_BUF_SIZE - length (cl_buf c)) = (r, w1)"
    by fastforce
  have room: "\<not> IPC_CLIENT_BUF_SIZE \<le> length (cl_buf c)" using client_ok_room [OF c(2)] by simp
  note step = step [unfolded if_not_P [OF room] rd prod.case]
  show "case res of (c', w', st') \<Rightarrow> service_run L S K c w st c' w' st'"
  proof (cases r)
    case (Rd_Bytes bs)
    show ?thesis
    proof (cases "bs = []")
      case False
      with step Rd_Bytes obtain ok c2 w2 st2 where
        d: "drain_frames L S K (c\<lparr>cl_buf := cl_buf c @ bs\<rparr>) w1 st = Some (ok, c2, w2, st2)"
        by (auto split: option.splits)
      have "client_ok c2" "cl_in_use c2 = ok"
        using drain_frames_client_ok [OF _ d] c(1) by simp_all
      with step Rd_Bytes False d rd res IH [of L S K c2 w2 st2 res] show ?thesis
        by (auto split: if_splits intro: service_run.more service_run.dropped)
    qed (use step Rd_Bytes rd in \<open>auto intro: service_run.eof\<close>)
  next
    case Rd_EINTR
    with step rd res IH [of L S K c w1 st res] c show ?thesis by (auto intro: service_run.intr)
  qed (use step rd in \<open>auto intro: service_run.again service_run.err\<close>)
qed

lemma service_run_client_ok:
  "service_run L S K c w st c' w' st' \<Longrightarrow> cl_in_use c \<Longrightarrow> client_ok c \<Longrightarrow> client_ok c'"
proof (induction rule: service_run.induct)
  case (more w c bs w1 st c2 w2 st2 c' w' st')
  then show ?case
    using drain_frames_client_ok [OF _ more.hyps(3)] by simp
next
  case (dropped w c bs w1 st c2 w2 st2)
  then show ?case
    using drain_frames_client_ok [OF _ dropped.hyps(3)] by simp
qed simp_all

text \<open>A run of the loop is a run of the loop without the check.\<close>

lemma service_run_unguarded:
  "service_run L S K c w st c' w' st' \<Longrightarrow> service_unguarded L S K c w st = Some (c', w', st')"
  by (induction rule: service_run.induct) (subst service_unguarded.simps; simp)+

end
