(* ===== verification/Ipc_Sockets.thy ===== *)
theory Ipc_Sockets
  imports Ipc_Framing
begin

text \<open>
  What the server does on its sockets. Three contracts: bytes written arrive in order
  (\<open>byte_stream\<close>; \<open>wire\<close> with a codec whose output fits its buffer), the kernel has finitely much to deliver (\<open>finite_work\<close>), and
  descriptors are handed out fresh (\<open>descriptors\<close>). Over the first: a connection answers every
  request it served, in order and with its id. \<open>net_demo\<close> is an executable instance of all three;
  \<open>Ipc_Loop\<close> has the facts over the other two.
\<close>

subsection \<open>Contracts\<close>

locale byte_stream =
  fixes K :: "'w ipc_api" and sent :: "'w \<Rightarrow> int \<Rightarrow> bytes"
  assumes write_count: "os_write K w fd b = (Io_Count n, w') \<Longrightarrow>
      n \<le> length b \<and> sent w' = (sent w)(fd := sent w fd @ take n b)"
    and write_none: "os_write K w fd b = (r, w') \<Longrightarrow> (\<And>n. r \<noteq> Io_Count n) \<Longrightarrow> sent w' = sent w"
    and poll_sent: "sent (os_poll_out K w fd) = sent w"

locale wire = byte_stream +
  assumes encode_fits: "pb_encode_envelope K n e = Some b \<Longrightarrow> length b \<le> n"
    and encode_nonempty: "pb_encode_envelope K n e = Some b \<Longrightarrow> body e \<noteq> Body_None \<Longrightarrow> b \<noteq> []"

text \<open>\<open>work\<close> bounds how often the kernel can still hand over data or a connection or interrupt.\<close>

locale finite_work =
  fixes K :: "'w ipc_api" and work :: "'w \<Rightarrow> nat"
  assumes write_work: "os_write K w fd b = (Io_Count n, w') \<Longrightarrow> work w' \<le> work w"
      "os_write K w fd b = (Io_EINTR, w') \<Longrightarrow> work w' < work w"
      "os_write K w fd b = (Io_EAGAIN, w') \<Longrightarrow> work (os_poll_out K w' fd) < work w"
      "os_write K w fd b = (Io_Error, w') \<Longrightarrow> work w' \<le> work w"
    and read_work: "os_read K w fd n = (Rd_Bytes bs, w') \<Longrightarrow> bs \<noteq> [] \<Longrightarrow> work w' < work w"
      "os_read K w fd n = (Rd_EINTR, w') \<Longrightarrow> work w' < work w"
      "os_read K w fd n = (r, w') \<Longrightarrow> work w' \<le> work w"
    and accept_work: "os_accept K w l = (Acc_Fd fd, w') \<Longrightarrow> work w' < work w"
      "os_accept K w l = (Acc_EINTR, w') \<Longrightarrow> work w' < work w"
      "os_accept K w l = (a, w') \<Longrightarrow> work w' \<le> work w"
    and other_work: "work (os_close K w fd) \<le> work w"
      "work (snd (os_setfl_nonblock K w fd flags)) \<le> work w"
      "work (os_setfd_cloexec K w fd) \<le> work w"

locale descriptors =
  fixes K :: "'w ipc_api" and opened :: "'w \<Rightarrow> int set"
  assumes accept_fresh: "os_accept K w l = (Acc_Fd fd, w') \<Longrightarrow>
      fd \<ge> 0 \<and> fd \<notin> opened w \<and> opened w' = insert fd (opened w)"
    and accept_none: "os_accept K w l = (a, w') \<Longrightarrow> (\<And>fd. a \<noteq> Acc_Fd fd) \<Longrightarrow> opened w' = opened w"
    and close_opened: "opened (os_close K w fd) = opened w - {fd}"
    and io_opened: "os_read K w fd n = (r, w') \<Longrightarrow> opened w' = opened w"
      "os_write K w fd b = (c, w') \<Longrightarrow> opened w' = opened w"
      "opened (os_poll_out K w fd) = opened w"
      "opened (snd (os_setfl_nonblock K w fd flags)) = opened w"
      "opened (os_setfd_cloexec K w fd) = opened w"
    and socket_fresh: "os_socket K w = (Some fd, w') \<Longrightarrow>
      fd \<ge> 0 \<and> fd \<notin> opened w \<and> opened w' = insert fd (opened w)"
    and socket_none: "os_socket K w = (None, w') \<Longrightarrow> opened w' = opened w"
    and setup_opened: "os_unlink K w path = (u, w') \<Longrightarrow> opened w' = opened w"
      "os_bind K w fd path = (ok, w') \<Longrightarrow> opened w' = opened w"
      "os_listen K w fd backlog = (ok, w') \<Longrightarrow> opened w' = opened w"
      "os_setfl_nonblock K w fd flags = (ok, w') \<Longrightarrow> opened w' = opened w"
      "os_chmod K w path mode = (ok, w') \<Longrightarrow> opened w' = opened w"

subsection \<open>Sending\<close>

text \<open>The runs of \<open>send_all\<close>.\<close>

lemma send_all_induct:
  assumes "send_all K w fd buf off = Some (r, w')"
    and finish: "\<And>w off. \<not> off < length buf \<Longrightarrow> P w off 0 w"
    and count: "\<And>w off n w1 r w'. off < length buf \<Longrightarrow> os_write K w fd (drop off buf) = (Io_Count n, w1) \<Longrightarrow>
      n > 0 \<Longrightarrow> P w1 (off + n) r w' \<Longrightarrow> P w off r w'"
    and zero: "\<And>w off w1. off < length buf \<Longrightarrow> os_write K w fd (drop off buf) = (Io_Count 0, w1) \<Longrightarrow>
      P w off (- 1) w1"
    and intr: "\<And>w off w1 r w'. off < length buf \<Longrightarrow> os_write K w fd (drop off buf) = (Io_EINTR, w1) \<Longrightarrow>
      P w1 off r w' \<Longrightarrow> P w off r w'"
    and again: "\<And>w off w1 r w'. off < length buf \<Longrightarrow> os_write K w fd (drop off buf) = (Io_EAGAIN, w1) \<Longrightarrow>
      P (os_poll_out K w1 fd) off r w' \<Longrightarrow> P w off r w'"
    and err: "\<And>w off w1. off < length buf \<Longrightarrow> os_write K w fd (drop off buf) = (Io_Error, w1) \<Longrightarrow>
      P w off (- 1) w1"
  shows "P w off r w'"
proof -
  define Q where "Q K' w fd' buf' off res \<longleftrightarrow> K' = K \<and> fd' = fd \<and> buf' = buf \<longrightarrow>
    P w off (fst res) (snd res)" for K' w fd' buf' off and res :: "int \<times> 'a"
  have "Q K w fd buf off (r, w')"
  proof (rule send_all.raw_induct [OF _ assms(1)])
    fix f K' w fd' buf' off res
    assume IH: "\<And>K' w fd' buf' off res. f K' w fd' buf' off = Some res \<Longrightarrow> Q K' w fd' buf' off res"
      and step: "(if off < length buf'
          then case os_write K' w fd' (drop off buf') of
                 (Io_Count n, w) \<Rightarrow> if 0 < n then f K' w fd' buf' (off + n) else Some (- 1, w)
               | (Io_EINTR, w) \<Rightarrow> f K' w fd' buf' off
               | (Io_EAGAIN, w) \<Rightarrow> f K' (os_poll_out K' w fd') fd' buf' off
               | (Io_Error, w) \<Rightarrow> Some (- 1, w)
          else Some (0, w)) = Some res"
    show "Q K' w fd' buf' off res"
      unfolding Q_def
    proof (intro impI)
      assume eqs: "K' = K \<and> fd' = fd \<and> buf' = buf"
      note step = step [unfolded eqs [THEN conjunct1] eqs [THEN conjunct2, THEN conjunct1]
          eqs [THEN conjunct2, THEN conjunct2]]
      note IH = IH [of K _ fd buf, unfolded Q_def, simplified]
      obtain r1 w1 where wr: "os_write K w fd (drop off buf) = (r1, w1)" by fastforce
      show "P w off (fst res) (snd res)"
      proof (cases "off < length buf")
        case True
        show ?thesis
        proof (cases r1)
          case (Io_Count n)
          with step True wr IH [of w1 "off + n" res] show ?thesis
            by (cases "n > 0") (auto intro: count zero)
        qed (use step True wr IH in \<open>auto intro: intr again err\<close>)
      qed (use step in \<open>auto intro: finish\<close>)
    qed
  qed
  then show ?thesis by (simp add: Q_def)
qed

context wire
begin

lemma send_all_sent:
  assumes "send_all K w fd buf off = Some (r, w')" and "off \<le> length buf"
  shows "\<exists>k. sent w' = (sent w)(fd := sent w fd @ take k (drop off buf)) \<and>
    (r = 0 \<longrightarrow> k = length buf - off)"
proof -
  have "off \<le> length buf \<longrightarrow> (\<exists>k. sent w' = (sent w)(fd := sent w fd @ take k (drop off buf)) \<and>
    (r = 0 \<longrightarrow> k = length buf - off))"
  proof (rule send_all_induct [OF assms(1)], goal_cases)
    case (1 w off)
    then show ?case by (auto intro!: exI [of _ 0])
  next
    case (2 w off n w1 r w')
    show ?case
    proof
      note wc = write_count [OF 2(2)]
      from wc 2(1) have le: "off + n \<le> length buf" by auto
      with 2(4) obtain k where k: "sent w' = (sent w1)(fd := sent w1 fd @ take k (drop (off + n) buf))"
        "r = 0 \<longrightarrow> k = length buf - (off + n)" by blast
      have "take n (drop off buf) @ take k (drop (off + n) buf) = take (n + k) (drop off buf)"
        by (simp add: take_add add.commute [of n off])
      with k wc le show "\<exists>k. sent w' = (sent w)(fd := sent w fd @ take k (drop off buf)) \<and>
          (r = 0 \<longrightarrow> k = length buf - off)"
        by (intro exI [of _ "n + k"]) auto
    qed
  next
    case (3 w off w1)
    then show ?case using write_count [OF 3(2)] by (auto intro!: exI [of _ 0])
  next
    case (4 w off w1 r w')
    then show ?case using write_none [OF 4(2)] by simp
  next
    case (5 w off w1 r w')
    then show ?case using write_none [OF 5(2)] by (simp add: poll_sent)
  next
    case (6 w off w1)
    then show ?case using write_none [OF 6(2)] by (auto intro!: exI [of _ 0])
  qed
  with assms(2) show ?thesis by blast
qed

lemma send_all_complete:
  "send_all K w fd buf 0 = Some (0, w') \<Longrightarrow> sent w' = (sent w)(fd := sent w fd @ buf)"
  using send_all_sent [of w fd buf 0 0 w'] by auto

end

subsection \<open>Answers\<close>

text \<open>The envelopes a sequence of payloads is answered with, and the agent afterwards.\<close>

fun answers ::
  "('e, 't, 'c) platform \<Rightarrow> ('r, 'i, 'v) snmp_api \<Rightarrow> 'w ipc_api \<Rightarrow> ('e, 'v) agent \<Rightarrow> bytes list \<Rightarrow>
   (envelope list \<times> ('e, 'v) agent) option" where
  "answers L S K st [] = Some ([], st)"
| "answers L S K st (p # ps) =
     Option.bind (pb_decode_envelope K p) (\<lambda>req.
       case respond L S st req of (ans, st) \<Rightarrow>
         Option.bind ans (\<lambda>e. map_option (\<lambda>(es, st). (e # es, st)) (answers L S K st ps)))"

lemma respond_id: "respond L S st req = (Some e, st') \<Longrightarrow> request_id e = request_id req \<and> body e \<noteq> Body_None"
  by (auto simp: respond_def Let_def split: envelope_body.splits prod.splits)

lemma answers_ids:
  "answers L S K st ps = Some (es, st') \<Longrightarrow>
     map (map_option request_id \<circ> pb_decode_envelope K) ps = map (Some \<circ> request_id) es \<and>
     (\<forall>e \<in> set es. body e \<noteq> Body_None)"
proof (induction ps arbitrary: st es)
  case (Cons p ps)
  from Cons.prems obtain req where d: "pb_decode_envelope K p = Some req"
    by (auto simp: bind_eq_Some_conv)
  obtain ans st1 where r': "respond L S st req = (ans, st1)" by fastforce
  with Cons.prems d obtain e es' where r: "respond L S st req = (Some e, st1)"
    and a: "answers L S K st1 ps = Some (es', st')" and es: "es = e # es'"
    by (auto simp: bind_eq_Some_conv)
  from Cons.IH [OF a] respond_id [OF r] d es show ?case by simp
qed simp

definition encoded :: "'w ipc_api \<Rightarrow> envelope \<Rightarrow> bytes" where
  "encoded K e = the (pb_encode_envelope K 1024 e)"

context wire
begin

text \<open>
  A connection that stays open has answered every request it served: the bytes that went out are
  the frames of the answers, in the order of the requests.
\<close>

lemma serve_frames_answers:
  "serve_frames L S K fd ps w st = Some (True, w', st') \<Longrightarrow>
     \<exists>es. answers L S K st ps = Some (es, st') \<and> (\<forall>e \<in> set es. pb_encode_envelope K 1024 e \<noteq> None) \<and>
       sent w' = (sent w)(fd := sent w fd @ concat (map (frame_of \<circ> encoded K) es))"
proof (induction ps arbitrary: w st)
  case (Cons p ps)
  obtain w1 st1 where s: "serve_frame L S K fd p w st = Some (True, w1, st1)"
    "serve_frames L S K fd ps w1 st1 = Some (True, w', st')"
    using Cons.prems by (auto simp: bind_eq_Some_conv split: if_splits prod.splits)
  obtain req e b where d: "pb_decode_envelope K p = Some req" "respond L S st req = (Some e, st1)"
    "pb_encode_envelope K 1024 e = Some b" "send_all K w fd (frame_of b) 0 = Some (0, w1)"
    using s(1) by (auto simp: serve_frame_def bind_eq_Some_conv
        split: option.splits prod.splits if_splits bind_splits)
  have "sent w1 = (sent w)(fd := sent w fd @ frame_of b)" by (rule send_all_complete [OF d(4)])
  moreover obtain es where es: "answers L S K st1 ps = Some (es, st')"
    "\<forall>e \<in> set es. pb_encode_envelope K 1024 e \<noteq> None"
    "sent w' = (sent w1)(fd := sent w1 fd @ concat (map (frame_of \<circ> encoded K) es))"
    using Cons.IH [OF s(2)] by blast
  ultimately have "sent w' = (sent w)(fd := sent w fd @ concat (map (frame_of \<circ> encoded K) (e # es)))"
    using d(3) by (simp add: encoded_def)
  moreover have "answers L S K st (p # ps) = Some (e # es, st')" using d(1,2) es(1) by simp
  moreover have "\<forall>e' \<in> set (e # es). pb_encode_envelope K 1024 e' \<noteq> None" using d(3) es(2) by simp
  ultimately show ?case by blast
qed simp

lemma split_answers:
  assumes "\<forall>e \<in> set es. body e \<noteq> Body_None \<and> pb_encode_envelope K 1024 e \<noteq> None"
  shows "split_frames (concat (map (frame_of \<circ> encoded K) es)) = (map (encoded K) es, [], True)"
  using assms
proof (induction es)
  case Nil
  show ?case by (simp add: split_frames_incomplete)
next
  case (Cons e es)
  then obtain b where b: "pb_encode_envelope K 1024 e = Some b" by auto
  have "frame_ok (encoded K e)"
    using encode_fits [OF b] encode_nonempty [OF b] Cons.prems b by (simp add: frame_ok_def encoded_def)
  with Cons show ?case by (simp add: split_frames_cons)
qed

end

subsection \<open>An executable instance\<close>

text \<open>
  Chunks of bytes waiting on connections, connections waiting to be accepted, and writes that take
  at most \<open>nw_room\<close> bytes at a time. The codec is a toy one, a byte per field.
\<close>

record net_world =
  nw_in :: "(int \<times> bytes) list"
  nw_waiting :: nat
  nw_out :: "(int \<times> bytes) list"
  nw_open :: "int list"
  nw_room :: nat

fun take_chunk :: "int \<Rightarrow> nat \<Rightarrow> (int \<times> bytes) list \<Rightarrow> (bytes \<times> (int \<times> bytes) list) option" where
  "take_chunk fd n [] = None"
| "take_chunk fd n ((f, b) # xs) =
     (if f = fd \<and> b \<noteq> [] \<and> n > 0 then Some (take n b, (f, drop n b) # xs)
      else map_option (\<lambda>(c, ys). (c, (f, b) # ys)) (take_chunk fd n xs))"

definition fresh_fd :: "int list \<Rightarrow> int" where "fresh_fd fds = 1 + fold max fds 2"

fun demo_decode :: "bytes \<Rightarrow> envelope option" where
  "demo_decode (t # i # xs) =
     (if t = 16 then Some \<lparr>request_id = ucast i, body = Ping_Request (ucast (hd (xs @ [0])))\<rparr>
      else if t = 17 then Some \<lparr>request_id = ucast i, body = Ping_Response 0\<rparr>
      else if t = 10 then Some \<lparr>request_id = ucast i, body = Write_Config_Request
        \<lparr>wreq_key = ''sampleIntervalSec'', wreq_has_value = True, wreq_value =
           value_init_zero\<lparr>v_type := VALUE_TYPE_UINT32, v_uint32 := ucast (hd (xs @ [0]))\<rparr>\<rparr>\<rparr>
      else if t = 12 then Some \<lparr>request_id = ucast i, body = Read_Config_Request
        \<lparr>rreq_key = map (\<lambda>b. char_of (unat b)) xs\<rparr>\<rparr>
      else None)"
| "demo_decode _ = None"

fun demo_body :: "envelope_body \<Rightarrow> bytes" where
  "demo_body (Ping_Response n) = [17, ucast n]"
| "demo_body (Write_Config_Response r) = [11, if wresp_status r = STATUS_OK then 1 else 4]"
| "demo_body (Read_Config_Response r) =
     [13, if rresp_has_value r then ucast (v_uint32 (rresp_value r)) else 0]"
| "demo_body _ = [0]"

definition demo_encode :: "nat \<Rightarrow> envelope \<Rightarrow> bytes option" where
  "demo_encode n e = (let b = demo_body (body e) @ [ucast (request_id e)] in
     if length b \<le> n then Some b else None)"

definition net_demo :: "net_world ipc_api" where
  "net_demo = \<lparr>
     pb_decode_envelope = demo_decode,
     pb_encode_envelope = demo_encode,
     os_read = (\<lambda>w fd n. case take_chunk fd n (nw_in w) of
         None \<Rightarrow> (Rd_EAGAIN, w) | Some (b, rest) \<Rightarrow> (Rd_Bytes b, w\<lparr>nw_in := rest\<rparr>)),
     os_write = (\<lambda>w fd b. let n = min (Suc (nw_room w)) (length b) in
         (Io_Count n, w\<lparr>nw_out := nw_out w @ [(fd, take n b)]\<rparr>)),
     os_poll_out = (\<lambda>w fd. w),
     os_close = (\<lambda>w fd. w\<lparr>nw_open := filter (\<lambda>f. f \<noteq> fd) (nw_open w)\<rparr>),
     os_accept = (\<lambda>w l. if nw_waiting w = 0 then (Acc_EAGAIN, w)
         else (Acc_Fd (fresh_fd (nw_open w)),
               w\<lparr>nw_waiting := nw_waiting w - 1, nw_open := fresh_fd (nw_open w) # nw_open w\<rparr>)),
     os_getfl = (\<lambda>w fd. 0),
     os_setfl_nonblock = (\<lambda>w fd flags. (True, w)),
     os_setfd_cloexec = (\<lambda>w fd. w),
     os_socket = (\<lambda>w. (Some (fresh_fd (nw_open w)), w\<lparr>nw_open := fresh_fd (nw_open w) # nw_open w\<rparr>)),
     os_unlink = (\<lambda>w path. (Unlink_ENOENT, w)),
     os_bind = (\<lambda>w fd path. (True, w)),
     os_listen = (\<lambda>w fd n. (True, w)),
     os_chmod = (\<lambda>w path mode. (True, w)),
     os_calloc = (\<lambda>w. True)\<rparr>"

definition nw_sent :: "net_world \<Rightarrow> int \<Rightarrow> bytes" where
  "nw_sent w fd = concat (map snd (filter (\<lambda>(f, _). f = fd) (nw_out w)))"

definition nw_work :: "net_world \<Rightarrow> nat" where
  "nw_work w = sum_list (map (length \<circ> snd) (nw_in w)) + nw_waiting w"

lemma take_chunk_some:
  "take_chunk fd n xs = Some (b, ys) \<Longrightarrow> b \<noteq> [] \<and>
     sum_list (map (length \<circ> snd) ys) < sum_list (map (length \<circ> snd) xs)"
  by (induction fd n xs arbitrary: b ys rule: take_chunk.induct) (auto split: if_splits)

lemma fold_max_ge: "(y :: int) \<le> fold max fds y" "x \<in> set fds \<Longrightarrow> x \<le> fold max fds (y :: int)"
proof (induction fds arbitrary: y)
  case (Cons f fds)
  {
    case 1
    show ?case using Cons.IH(1) [of "max f y"] by simp
  next
    case 2
    then show ?case using Cons.IH(1) [of "max f y"] Cons.IH(2) [of "max f y"] by auto
  }
qed simp_all

lemma fresh_fd_new: "fresh_fd fds \<ge> 0" "fresh_fd fds \<notin> set fds"
  using fold_max_ge(1) [of 2 fds] fold_max_ge(2) [of _ fds 2] by (force simp: fresh_fd_def)+

interpretation net_demo: wire net_demo nw_sent
  by unfold_locales
    (auto simp: net_demo_def nw_sent_def Let_def demo_encode_def fun_eq_iff split: if_splits)

interpretation net_demo: finite_work net_demo nw_work
  by unfold_locales
    (auto simp: net_demo_def nw_work_def Let_def dest!: take_chunk_some split: if_splits option.splits)

interpretation net_demo: descriptors net_demo "\<lambda>w. set (nw_open w)"
  by unfold_locales
    (auto simp: net_demo_def Let_def fresh_fd_new split: if_splits option.splits)

text \<open>This network never refuses bytes, so every answer goes out.\<close>

lemma send_all_demo:
  assumes "os_write K = os_write net_demo"
  shows "\<exists>w'. send_all K w fd buf off = Some (0, w')"
proof (induction "length buf - off" arbitrary: w off rule: less_induct)
  case less
  show ?case
  proof (cases "off < length buf")
    case True
    let ?n = "min (Suc (nw_room w)) (length buf - off)"
    have "\<exists>w'. send_all K w1 fd buf (off + ?n) = Some (0, w')" for w1
      by (rule less) (use True in auto)
    with True show ?thesis
      by (subst send_all.simps) (simp add: assms, simp add: net_demo_def Let_def)
  next
    case False
    then show ?thesis by (subst send_all.simps) simp
  qed
qed

end
