(* ===== verification/Ipc_Loop.thy ===== *)
theory Ipc_Loop
  imports Ipc_Sockets
begin

text \<open>
  The IPC server over a whole round of the event loop: \<open>ipc_server_dispatch\<close> returns when the kernel
  has finitely much to deliver, and every descriptor it accepted is in one slot or closed, from
  \<open>ipc_server_start\<close> to \<open>ipc_server_stop\<close>.
\<close>

subsection \<open>A round of the event loop returns\<close>

text \<open>The world once an accepted descriptor is set up, and the branch for such a descriptor.\<close>

definition prepared :: "'w ipc_api \<Rightarrow> 'w \<Rightarrow> int \<Rightarrow> 'w" where
  "prepared K w fd = os_setfd_cloexec K
     (if os_getfl K w fd \<ge> 0 then snd (os_setfl_nonblock K w fd (os_getfl K w fd)) else w) fd"

definition occupy :: "ipc_server \<Rightarrow> nat \<Rightarrow> int \<Rightarrow> ipc_server" where
  "occupy srv slot fd = srv\<lparr>srv_clients := (srv_clients srv)[slot :=
     \<lparr>cl_fd = fd, cl_in_use = True, cl_buf = []\<rparr>]\<rparr>"

lemma accept_fd:
  assumes "os_accept K w (srv_listen_fd srv) = (Acc_Fd fd, w1)"
  shows "accept_new_clients K srv w =
     (case find_free_slot (srv_clients srv) of
        None \<Rightarrow> accept_new_clients K srv (os_close K (prepared K w1 fd) fd)
      | Some slot \<Rightarrow> accept_new_clients K (occupy srv slot fd) (prepared K w1 fd))"
  using assms by (subst accept_new_clients.simps)
    (cases "find_free_slot (srv_clients srv)"; simp add: prepared_def occupy_def Let_def)

context finite_work
begin

lemma send_all_total: "\<exists>r w'. send_all K w fd buf off = Some (r, w') \<and> work w' \<le> work w"
proof (induction "work w + (length buf - off)" arbitrary: w off rule: less_induct)
  case less
  obtain r w1 where wr: "os_write K w fd (drop off buf) = (r, w1)" by fastforce
  show ?case
  proof (cases "off < length buf")
    case True
    show ?thesis
    proof (cases r)
      case (Io_Count n)
      with wr have le: "work w1 \<le> work w" using write_work(1) by simp
      show ?thesis
      proof (cases "n > 0")
        case True
        with \<open>off < length buf\<close> le have "work w1 + (length buf - (off + n)) < work w + (length buf - off)"
          by linarith
        from less [OF this] obtain r' w' where
          "send_all K w1 fd buf (off + n) = Some (r', w')" "work w' \<le> work w1" by auto
        with True \<open>off < length buf\<close> wr Io_Count le show ?thesis
          by (subst send_all.simps) auto
      qed (use True wr Io_Count le in \<open>subst send_all.simps, auto\<close>)
    next
      case Io_EINTR
      with wr have "work w1 < work w" using write_work(2) by simp
      with less [of w1 off] True wr Io_EINTR show ?thesis by (subst send_all.simps) fastforce
    next
      case Io_EAGAIN
      with wr have "work (os_poll_out K w1 fd) < work w" using write_work(3) by simp
      with less [of "os_poll_out K w1 fd" off] True wr Io_EAGAIN show ?thesis
        by (subst send_all.simps) fastforce
    next
      case Io_Error
      with wr True show ?thesis using write_work(4) by (subst send_all.simps) auto
    qed
  qed (subst send_all.simps, simp)
qed

lemma serve_frame_total: "\<exists>ok w' st'. serve_frame L S K fd p w st = Some (ok, w', st') \<and> work w' \<le> work w"
proof -
  have closes: "work (os_close K w fd) \<le> work w" by (rule other_work(1))
  show ?thesis
  proof (cases "pb_decode_envelope K p")
    case None
    with closes show ?thesis by (simp add: serve_frame_def) blast
  next
    case (Some req)
    obtain ans st1 where r: "respond L S st req = (ans, st1)" by fastforce
    show ?thesis
    proof (cases "Option.bind ans (pb_encode_envelope K 1024)")
      case None
      with Some r closes show ?thesis by (simp add: serve_frame_def) blast
    next
      case enc: (Some b)
      obtain r' w1 where "send_all K w fd (frame_of b) 0 = Some (r', w1)" "work w1 \<le> work w"
        using send_all_total by blast
      with Some r enc other_work(1) [of w1 fd] show ?thesis
        by (cases "r' = 0"; simp add: serve_frame_def; blast intro: le_trans)
    qed
  qed
qed

lemma serve_frames_total:
  "\<exists>ok w' st'. serve_frames L S K fd ps w st = Some (ok, w', st') \<and> work w' \<le> work w"
proof (induction ps arbitrary: w st)
  case (Cons p ps)
  obtain ok w1 st1 where s: "serve_frame L S K fd p w st = Some (ok, w1, st1)" "work w1 \<le> work w"
    using serve_frame_total by blast
  with Cons [of w1 st1] show ?case by (cases ok) (auto intro: le_trans)
qed (simp, blast)

lemma drain_frames_total:
  assumes "cl_in_use c"
  shows "\<exists>ok c' w' st'. drain_frames L S K c w st = Some (ok, c', w', st') \<and> work w' \<le> work w"
proof -
  obtain fs r good where s: "split_frames (cl_buf c) = (fs, r, good)" by (cases "split_frames (cl_buf c)")
  obtain ok w1 st1 where "serve_frames L S K (cl_fd c) fs w st = Some (ok, w1, st1)" "work w1 \<le> work w"
    using serve_frames_total by blast
  with s other_work(1) [of w1 "cl_fd c"] show ?thesis
    by (auto simp: drain_frames_serve [OF assms] intro: le_trans)
qed

lemma service_client_total:
  "cl_in_use c \<Longrightarrow> \<exists>c' w' st'. service_client L S K c w st = Some (c', w', st') \<and> work w' \<le> work w"
proof (induction "work w" arbitrary: c w st rule: less_induct)
  case less
  let ?n = "IPC_CLIENT_BUF_SIZE - length (cl_buf c)"
  obtain r w1 where rd: "os_read K w (cl_fd c) ?n = (r, w1)" by fastforce
  note unfold = service_client.simps [of L S K c w st]
  have w1: "work w1 \<le> work w" "work (os_close K w1 (cl_fd c)) \<le> work w"
    using read_work(3) [OF rd] other_work(1) [of w1 "cl_fd c"] by simp_all
  show ?case
  proof (cases "length (cl_buf c) \<ge> IPC_CLIENT_BUF_SIZE")
    case True
    with other_work(1) [of w "cl_fd c"] show ?thesis by (simp add: unfold)
  next
    case room: False
    show ?thesis
    proof (cases r)
      case (Rd_Bytes bs)
      show ?thesis
      proof (cases "bs = []")
        case False
        let ?c = "c\<lparr>cl_buf := cl_buf c @ bs\<rparr>"
        have lt: "work w1 < work w" using read_work(1) rd Rd_Bytes False by blast
        obtain ok c2 w2 st2 where d: "drain_frames L S K ?c w1 st = Some (ok, c2, w2, st2)" "work w2 \<le> work w1"
          using drain_frames_total [of ?c L S w1 st] less.prems by auto
        show ?thesis
        proof (cases ok)
          case True
          then have "cl_in_use c2" using drain_frames_client_ok(2) [OF _ d(1)] less.prems by simp
          with less.hyps [of w2 c2 st2] d(2) lt obtain c' w' st' where
            "service_client L S K c2 w2 st2 = Some (c', w', st')" "work w' \<le> work w2" by auto
          with True d lt room rd Rd_Bytes False show ?thesis by (simp add: unfold)
        qed (use d lt room rd Rd_Bytes False in \<open>simp add: unfold\<close>)
      qed (use room rd Rd_Bytes w1 in \<open>simp add: unfold\<close>)
    next
      case Rd_EINTR
      have "work w1 < work w" using read_work(2) rd Rd_EINTR by blast
      with less.hyps [of w1 c st] less.prems room rd Rd_EINTR show ?thesis by (fastforce simp: unfold)
    qed (use room rd w1 in \<open>simp_all add: unfold\<close>)
  qed
qed

lemma service_clients_total:
  "\<exists>cs' w' st'. service_clients L S K fds cs w st = Some (cs', w', st')"
proof (induction cs arbitrary: w st)
  case (Cons c cs)
  show ?case
  proof (cases "cl_in_use c \<and> cl_fd c \<in> set fds")
    case True
    then obtain c1 w1 st1 where "service_client L S K c w st = Some (c1, w1, st1)"
      using service_client_total [of c L S w st] by auto
    with True Cons [of w1 st1] show ?thesis by auto
  next
    case False
    with Cons [of w st] show ?thesis by auto
  qed
qed simp

lemma accept_total: "\<exists>srv' w'. accept_new_clients K srv w = Some (srv', w')"
proof (induction "work w" arbitrary: srv w rule: less_induct)
  case less
  obtain r w1 where a: "os_accept K w (srv_listen_fd srv) = (r, w1)" by fastforce
  show ?case
  proof (cases r)
    case (Acc_Fd fd)
    have "work w1 < work w" using accept_work(1) a Acc_Fd by blast
    moreover have "work (prepared K w1 fd) \<le> work w1"
      using other_work(2) [of w1 fd] other_work(3) [of _ fd] by (auto simp: prepared_def intro: le_trans)
    moreover have "work (os_close K (prepared K w1 fd) fd) \<le> work (prepared K w1 fd)"
      by (rule other_work(1))
    ultimately have lt: "work (prepared K w1 fd) < work w" "work (os_close K (prepared K w1 fd) fd) < work w"
      by simp_all
    show ?thesis
      unfolding accept_fd [OF a [unfolded Acc_Fd]]
      using less [OF lt(1)] less [OF lt(2)] by (auto split: option.splits)
  next
    case Acc_EINTR
    then have "work w1 < work w" using accept_work(2) a by blast
    with less [of w1] a Acc_EINTR show ?thesis by (subst accept_new_clients.simps) simp
  qed (use a in \<open>subst accept_new_clients.simps, simp\<close>)+
qed

lemma dispatch_total: "\<exists>srv' w' st'. ipc_server_dispatch L S K srv fds w st = Some (srv', w', st')"
proof (cases srv)
  case (Some s)
  obtain s1 w1 where
    a: "(if srv_listen_fd s \<in> set fds then accept_new_clients K s w else Some (s, w)) = Some (s1, w1)"
    using accept_total [of s w] by (cases "srv_listen_fd s \<in> set fds") auto
  obtain cs w2 st2 where "service_clients L S K fds (srv_clients s1) w1 st = Some (cs, w2, st2)"
    using service_clients_total by blast
  with Some a show ?thesis by (simp add: ipc_server_dispatch_def)
qed (simp add: ipc_server_dispatch_def)

end

subsection \<open>Descriptors are in a slot or closed\<close>

definition slot_fds :: "ipc_client list \<Rightarrow> int list" where
  "slot_fds cs = map cl_fd (filter cl_in_use cs)"

text \<open>
  The slots own the descriptors of \<open>open_fds\<close> that are not in \<open>base\<close> (the listening socket and
  what other parts of the process have open), each one once.
\<close>

definition slots_own :: "int set \<Rightarrow> int set \<Rightarrow> ipc_client list \<Rightarrow> bool" where
  "slots_own base open_fds cs \<longleftrightarrow> (\<forall>c \<in> set cs. client_ok c) \<and> distinct (slot_fds cs) \<and>
     base \<inter> set (slot_fds cs) = {} \<and> open_fds = base \<union> set (slot_fds cs)"

lemma slot_fds_simps [simp]:
  "slot_fds [] = []"
  "slot_fds (c # cs) = (if cl_in_use c then cl_fd c # slot_fds cs else slot_fds cs)"
  "slot_fds (cs @ cs') = slot_fds cs @ slot_fds cs'"
  by (simp_all add: slot_fds_def)

lemma slots_own_Cons:
  "slots_own base fds (c # cs) \<longleftrightarrow> client_ok c \<and> set (slot_fds [c]) \<inter> base = {} \<and>
     slots_own (base \<union> set (slot_fds [c])) fds cs"
  by (auto simp: slots_own_def)

lemma find_free_slot_some: "find_free_slot cs = Some i \<Longrightarrow> i < length cs \<and> \<not> cl_in_use (cs ! i)"
  by (induction cs arbitrary: i) (auto split: if_splits)

lemma slots_own_occupy:
  assumes "slots_own base fds cs" and "find_free_slot cs = Some i" and "fd \<notin> fds"
  shows "slots_own base (insert fd fds) (cs[i := \<lparr>cl_fd = fd, cl_in_use = True, cl_buf = []\<rparr>])"
proof -
  note i = find_free_slot_some [OF assms(2)]
  then have cs: "cs = take i cs @ cs ! i # drop (Suc i) cs"
    and upd: "cs[i := \<lparr>cl_fd = fd, cl_in_use = True, cl_buf = []\<rparr>] =
      take i cs @ \<lparr>cl_fd = fd, cl_in_use = True, cl_buf = []\<rparr> # drop (Suc i) cs"
    by (simp_all add: id_take_nth_drop upd_conv_take_nth_drop)
  have fds: "slot_fds cs = slot_fds (take i cs) @ slot_fds (drop (Suc i) cs)"
    by (subst cs) (use i in simp)
  have "client_ok c" if "c \<in> set (take i cs) \<union> set (drop (Suc i) cs)" for c
    using that assms(1) by (auto simp: slots_own_def dest: in_set_takeD in_set_dropD)
  then show ?thesis
    using assms(1,3) unfolding slots_own_def upd by (auto simp: fds client_ok_def)
qed

lemma accept_invariant:
  assumes "accept_new_clients K srv w = Some (srv', w')" and "P srv w"
    and slot: "\<And>srv w fd w1 i. P srv w \<Longrightarrow> os_accept K w (srv_listen_fd srv) = (Acc_Fd fd, w1) \<Longrightarrow>
      find_free_slot (srv_clients srv) = Some i \<Longrightarrow> P (occupy srv i fd) (prepared K w1 fd)"
    and full: "\<And>srv w fd w1. P srv w \<Longrightarrow> os_accept K w (srv_listen_fd srv) = (Acc_Fd fd, w1) \<Longrightarrow>
      P srv (os_close K (prepared K w1 fd) fd)"
    and none: "\<And>srv w r w1. P srv w \<Longrightarrow> os_accept K w (srv_listen_fd srv) = (r, w1) \<Longrightarrow>
      (\<And>fd. r \<noteq> Acc_Fd fd) \<Longrightarrow> P srv w1"
  shows "P srv' w'"
proof -
  define Q where "Q K' srv w res \<longleftrightarrow> K' = K \<longrightarrow> P srv w \<longrightarrow> P (fst res) (snd res)"
    for K' srv w and res :: "ipc_server \<times> 'a"
  have "Q K srv w (srv', w')"
  proof (rule accept_new_clients.raw_induct [OF _ assms(1)])
    fix f K' srv w and res :: "ipc_server \<times> 'a"
    assume IH: "\<And>K' srv w res. f K' srv w = Some res \<Longrightarrow> Q K' srv w res"
      and step: "(case os_accept K' w (srv_listen_fd srv) of
          (Acc_Fd fd, w) \<Rightarrow>
            let flags = os_getfl K' w fd; w = if 0 \<le> flags then snd (os_setfl_nonblock K' w fd flags) else w;
                w = os_setfd_cloexec K' w fd
            in case find_free_slot (srv_clients srv) of None \<Rightarrow> f K' srv (os_close K' w fd)
               | Some slot \<Rightarrow> f K' (srv\<lparr>srv_clients := (srv_clients srv)
                   [slot := \<lparr>cl_fd = fd, cl_in_use = True, cl_buf = []\<rparr>]\<rparr>) w
        | (Acc_EINTR, w) \<Rightarrow> f K' srv w
        | (Acc_EAGAIN, w) \<Rightarrow> Some (srv, w)
        | (Acc_Error, w) \<Rightarrow> Some (srv, w)) = Some res"
    have IH: "f K srv w = Some res \<Longrightarrow> P srv w \<Longrightarrow> P (fst res) (snd res)" for srv w res
      using IH [of K srv w res] by (simp add: Q_def)
    have "P (fst res) (snd res)" if eq: "K' = K" and P: "P srv w"
    proof -
    obtain r w1 where a: "os_accept K w (srv_listen_fd srv) = (r, w1)" by fastforce
    show ?thesis
    proof (cases r)
      case (Acc_Fd fd)
      note slot' = slot [OF P a [unfolded Acc_Fd]] and full' = full [OF P a [unfolded Acc_Fd]]
      from step a Acc_Fd eq
      have "(case find_free_slot (srv_clients srv) of None \<Rightarrow> f K srv (os_close K (prepared K w1 fd) fd)
          | Some i \<Rightarrow> f K (occupy srv i fd) (prepared K w1 fd)) = Some res"
        by (cases "find_free_slot (srv_clients srv)"; cases "0 \<le> os_getfl K w1 fd";
            simp add: prepared_def occupy_def Let_def)
      then show ?thesis
        using slot' full' by (auto split: option.splits intro: IH)
    qed (use step a eq none [OF P a] in \<open>auto intro: IH\<close>)
    qed
    then show "Q K' srv w res" by (simp add: Q_def)
  qed
  with assms(2) show ?thesis by (simp add: Q_def)
qed

context descriptors
begin

lemma send_all_opened:
  assumes "send_all K w fd buf off = Some (r, w')"
  shows "opened w' = opened w"
  by (rule send_all_induct [OF assms]) (auto dest: io_opened(2) simp: io_opened(3))

lemma serve_frame_opened:
  "serve_frame L S K fd p w st = Some (ok, w', st') \<Longrightarrow> opened w' = (if ok then opened w else opened w - {fd})"
proof -
  assume run: "serve_frame L S K fd p w st = Some (ok, w', st')"
  show ?thesis
  proof (cases "pb_decode_envelope K p")
    case None
    with run show ?thesis by (auto simp: serve_frame_def close_opened)
  next
    case (Some req)
    obtain ans st1 where r: "respond L S st req = (ans, st1)" by fastforce
    show ?thesis
    proof (cases "Option.bind ans (pb_encode_envelope K 1024)")
      case None
      with Some r run show ?thesis by (auto simp: serve_frame_def close_opened)
    next
      case enc: (Some b)
      with Some r run obtain r' w1 where "send_all K w fd (frame_of b) 0 = Some (r', w1)"
        "(if r' = 0 then (True, w1, st1) else (False, os_close K w1 fd, st1)) = (ok, w', st')"
        by (auto simp: serve_frame_def)
      with send_all_opened close_opened [of w1 fd] show ?thesis by (auto split: if_splits)
    qed
  qed
qed

lemma serve_frames_opened:
  "serve_frames L S K fd ps w st = Some (ok, w', st') \<Longrightarrow> opened w' = (if ok then opened w else opened w - {fd})"
proof (induction ps arbitrary: w st)
  case (Cons p ps)
  then obtain ok1 w1 st1 where s: "serve_frame L S K fd p w st = Some (ok1, w1, st1)"
    and rest: "(if ok1 then serve_frames L S K fd ps w1 st1 else Some (False, w1, st1)) = Some (ok, w', st')"
    by (auto simp: bind_eq_Some_conv)
  from serve_frame_opened [OF s] rest Cons.IH [of w1 st1] show ?case by (auto split: if_splits)
qed auto

lemma drain_frames_opened:
  assumes "cl_in_use c" and "drain_frames L S K c w st = Some (ok, c', w', st')"
  shows "opened w' = (if ok then opened w else opened w - {cl_fd c})"
proof -
  obtain fs r good where s: "split_frames (cl_buf c) = (fs, r, good)" by (cases "split_frames (cl_buf c)")
  with assms obtain ok1 w1 st1 where f: "serve_frames L S K (cl_fd c) fs w st = Some (ok1, w1, st1)"
    "drained K c r good (ok1, w1, st1) = (ok, c', w', st')"
    by (auto simp: drain_frames_serve simp del: drained_simp)
  from serve_frames_opened [OF f(1)] f(2) close_opened [of w1 "cl_fd c"] show ?thesis
    by (simp split: if_splits)
qed

lemma service_run_opened:
  "service_run L S K c w st c' w' st' \<Longrightarrow> cl_in_use c \<Longrightarrow>
     (if cl_in_use c' then cl_fd c' = cl_fd c \<and> opened w' = opened w else opened w' = opened w - {cl_fd c})"
proof (induction rule: service_run.induct)
  case (more w c bs w1 st c2 w2 st2 c' w' st')
  have u: "cl_in_use (c\<lparr>cl_buf := cl_buf c @ bs\<rparr>)" using more.prems by simp
  show ?case
    using more drain_frames_opened [OF u more.hyps(3)] drain_frames_client_ok [OF u more.hyps(3)]
      io_opened(1) [OF more.hyps(1)] by simp
next
  case (dropped w c bs w1 st c2 w2 st2)
  have u: "cl_in_use (c\<lparr>cl_buf := cl_buf c @ bs\<rparr>)" using dropped.prems by simp
  show ?case
    using drain_frames_opened [OF u dropped.hyps(3)] drain_frames_client_ok [OF u dropped.hyps(3)]
      io_opened(1) [OF dropped.hyps(1)] by simp
qed (auto dest: io_opened(1) simp: close_opened)

lemma service_clients_own:
  "service_clients L S K fds cs w st = Some (cs', w', st') \<Longrightarrow> slots_own base (opened w) cs \<Longrightarrow>
     slots_own base (opened w') cs' \<and> length cs' = length cs"
proof (induction cs arbitrary: w st cs' base)
  case (Cons c cs)
  from Cons.prems(1) obtain c1 w1 st1 cs1 where
    one: "(if cl_in_use c \<and> cl_fd c \<in> set fds then service_client L S K c w st else Some (c, w, st)) =
      Some (c1, w1, st1)"
    and rest: "service_clients L S K fds cs w1 st1 = Some (cs1, w', st')" and cs': "cs' = c1 # cs1"
    by (auto split: option.splits)
  have own: "client_ok c" "set (slot_fds [c]) \<inter> base = {}"
    "slots_own (base \<union> set (slot_fds [c])) (opened w) cs"
    using Cons.prems(2) by (simp_all add: slots_own_Cons)
  have "client_ok c1 \<and> set (slot_fds [c1]) \<inter> base = {} \<and>
    slots_own (base \<union> set (slot_fds [c1])) (opened w1) cs"
  proof (cases "cl_in_use c \<and> cl_fd c \<in> set fds")
    case True
    with one own(1) have run: "service_run L S K c w st c1 w1 st1" using service_client_run by fastforce
    with service_run_client_ok service_run_opened [OF run] own True show ?thesis
      by (auto simp: slots_own_def split: if_splits)
  qed (use one own in auto)
  with Cons.IH [OF rest] cs' show ?case by (auto simp: slots_own_Cons)
qed auto

lemma accept_own:
  assumes "accept_new_clients K srv w = Some (srv', w')" and "slots_own base (opened w) (srv_clients srv)"
  shows "slots_own base (opened w') (srv_clients srv') \<and>
    length (srv_clients srv') = length (srv_clients srv) \<and> srv_listen_fd srv' = srv_listen_fd srv"
proof (rule accept_invariant [OF assms(1), of "\<lambda>s w. slots_own base (opened w) (srv_clients s) \<and>
    length (srv_clients s) = length (srv_clients srv) \<and> srv_listen_fd s = srv_listen_fd srv"], goal_cases)
  case (2 s w fd w1 i)
  from accept_fresh [OF 2(2)] have "fd \<notin> opened w" "opened (prepared K w1 fd) = insert fd (opened w)"
    by (simp_all add: prepared_def io_opened(4,5))
  with 2 show ?case by (simp add: occupy_def slots_own_occupy)
next
  case (3 s w fd w1)
  from accept_fresh [OF 3(2)] have "opened (os_close K (prepared K w1 fd) fd) = opened w"
    by (simp add: prepared_def io_opened(4,5) close_opened)
  with 3 show ?case by simp
next
  case (4 s w r w1)
  then show ?case using accept_none [OF 4(2)] by simp
qed (use assms(2) in simp)

lemma dispatch_own:
  assumes "ipc_server_dispatch L S K (Some srv) fds w st = Some (srvp, w', st')"
    and "slots_own base (opened w) (srv_clients srv)"
  shows "\<exists>srv'. srvp = Some srv' \<and> slots_own base (opened w') (srv_clients srv') \<and>
    length (srv_clients srv') = length (srv_clients srv) \<and> srv_listen_fd srv' = srv_listen_fd srv"
proof (cases "srv_listen_fd srv < 0")
  case True
  with assms show ?thesis by (auto simp: ipc_server_dispatch_def)
next
  case False
  with assms(1) obtain s1 w1 cs where
    a: "(if srv_listen_fd srv \<in> set fds then accept_new_clients K srv w else Some (srv, w)) = Some (s1, w1)"
    and s: "service_clients L S K fds (srv_clients s1) w1 st = Some (cs, w', st')"
    and r: "srvp = Some (s1\<lparr>srv_clients := cs\<rparr>)"
    by (auto simp: ipc_server_dispatch_def split: option.splits)
  have own: "slots_own base (opened w1) (srv_clients s1)"
    and len: "length (srv_clients s1) = length (srv_clients srv)" "srv_listen_fd s1 = srv_listen_fd srv"
    using a assms(2) accept_own [of srv w s1 w1 base] by (auto split: if_splits)
  from service_clients_own [OF s own] len r show ?thesis by simp
qed

text \<open>Starting leaks nothing when it fails, and stopping closes what the server had open.\<close>

lemma start_own:
  assumes "ipc_server_start K w path = (srvp, w')"
  shows "case srvp of
      None \<Rightarrow> opened w' = opened w
    | Some srv \<Rightarrow> srv_listen_fd srv \<notin> opened w \<and> srv_listen_fd srv \<ge> 0 \<and>
        slots_own (insert (srv_listen_fd srv) (opened w)) (opened w') (srv_clients srv) \<and>
        length (srv_clients srv) = 8"
proof -
  have unlinked: "opened (snd (os_unlink K w p)) = opened w" for w p
    using setup_opened(1) [of w p] by (cases "os_unlink K w p") auto
  show ?thesis
    using assms unfolding ipc_server_start_def
    by (auto simp: Let_def slots_own_def unlinked close_opened client_ok_def free_client_def slot_fds_def
        dest!: socket_fresh socket_none setup_opened
        split: option.splits if_splits prod.splits)
qed

lemma stop_closes:
  assumes "slots_own base (opened w) (srv_clients srv)" and "srv_listen_fd srv \<in> base"
    and "srv_listen_fd srv \<ge> 0"
  shows "opened (ipc_server_stop K w (Some srv)) = base - {srv_listen_fd srv}"
proof -
  have closed: "opened (close_in_use K w cs) = opened w - set (slot_fds cs)" for w cs
    by (induction cs arbitrary: w) (auto simp: close_opened)
  have "opened (snd (os_unlink K w p)) = opened w" for w p
    using setup_opened(1) [of w p] by (cases "os_unlink K w p") auto
  with assms show ?thesis
    by (auto simp: ipc_server_stop_def Let_def closed close_opened slots_own_def)
qed

end

subsection \<open>What clients can do to the agent\<close>

text \<open>
  Clients act on the agent through \<open>respond\<close> only, so what \<open>respond\<close> keeps is kept by a round
  of the event loop, whatever bytes arrive and however the socket calls turn out.
\<close>

lemma client_ok_occupy:
  assumes "\<forall>c \<in> set (srv_clients srv). client_ok c"
  shows "\<forall>c \<in> set (srv_clients (occupy srv i fd)). client_ok c"
proof -
  have "set (srv_clients (occupy srv i fd)) \<subseteq>
      insert \<lparr>cl_fd = fd, cl_in_use = True, cl_buf = []\<rparr> (set (srv_clients srv))"
    by (simp add: occupy_def set_update_subset_insert)
  with assms show ?thesis by (fastforce simp: client_ok_def)
qed

locale ipc_invariant =
  fixes L :: "('e, 't, 'c) platform" and S :: "('r, 'i, 'v) snmp_api" and P :: "('e, 'v) agent \<Rightarrow> bool"
  assumes respond_keeps: "respond L S st req = (e, st') \<Longrightarrow> P st \<Longrightarrow> P st'"
begin

lemma serve_frame_keeps:
  assumes "serve_frame L S K fd p w st = Some (ok, w', st')" and "P st"
  shows "P st'"
proof (cases "pb_decode_envelope K p")
  case (Some req)
  obtain e st1 where r: "respond L S st req = (e, st1)" by fastforce
  with Some assms(1) have "st' = st1"
    by (auto simp: serve_frame_def split: option.splits if_splits)
  with respond_keeps [OF r] assms(2) show ?thesis by blast
qed (use assms in \<open>auto simp: serve_frame_def\<close>)

lemma serve_frames_keeps:
  "serve_frames L S K fd ps w st = Some (ok, w', st') \<Longrightarrow> P st \<Longrightarrow> P st'"
proof (induction ps arbitrary: w st)
  case (Cons p ps)
  then obtain ok1 w1 st1 where s: "serve_frame L S K fd p w st = Some (ok1, w1, st1)"
    and rest: "(if ok1 then serve_frames L S K fd ps w1 st1 else Some (False, w1, st1)) = Some (ok, w', st')"
    by (auto simp: bind_eq_Some_conv)
  have "P st1" by (rule serve_frame_keeps [OF s Cons.prems(2)])
  with rest Cons.IH [of w1 st1] show ?case by (auto split: if_splits)
qed simp

lemma drain_frames_keeps:
  assumes "cl_in_use c" and "drain_frames L S K c w st = Some (ok, c', w', st')" and "P st"
  shows "P st'"
proof -
  obtain fs r good where s: "split_frames (cl_buf c) = (fs, r, good)" by (cases "split_frames (cl_buf c)")
  with assms obtain ok1 w1 where f: "serve_frames L S K (cl_fd c) fs w st = Some (ok1, w1, st')"
    by (auto simp: drain_frames_serve split: if_splits)
  from serve_frames_keeps [OF f assms(3)] show ?thesis .
qed

lemma service_run_keeps:
  "service_run L S K c w st c' w' st' \<Longrightarrow> cl_in_use c \<Longrightarrow> P st \<Longrightarrow> P st'"
proof (induction rule: service_run.induct)
  case (more w c bs w1 st c2 w2 st2 c' w' st')
  have u: "cl_in_use (c\<lparr>cl_buf := cl_buf c @ bs\<rparr>)" using more.prems by simp
  have "P st2" by (rule drain_frames_keeps [OF u more.hyps(3) more.prems(2)])
  then show ?case using more.IH drain_frames_client_ok(2) [OF u more.hyps(3)] by blast
next
  case (dropped w c bs w1 st c2 w2 st2)
  have u: "cl_in_use (c\<lparr>cl_buf := cl_buf c @ bs\<rparr>)" using dropped.prems by simp
  show ?case by (rule drain_frames_keeps [OF u dropped.hyps(3) dropped.prems(2)])
qed simp_all

lemma service_clients_keeps:
  "service_clients L S K fds cs w st = Some (cs', w', st') \<Longrightarrow> (\<forall>c \<in> set cs. client_ok c) \<Longrightarrow>
    P st \<Longrightarrow> P st' \<and> (\<forall>c \<in> set cs'. client_ok c)"
proof (induction cs arbitrary: w st cs')
  case (Cons c cs)
  from Cons.prems(1) obtain c1 w1 st1 cs1 where
    one: "(if cl_in_use c \<and> cl_fd c \<in> set fds then service_client L S K c w st else Some (c, w, st)) =
      Some (c1, w1, st1)"
    and rest: "service_clients L S K fds cs w1 st1 = Some (cs1, w', st')" and cs': "cs' = c1 # cs1"
    by (auto split: option.splits)
  have "P st1 \<and> client_ok c1"
  proof (cases "cl_in_use c \<and> cl_fd c \<in> set fds")
    case True
    with one Cons.prems(2) have run: "service_run L S K c w st c1 w1 st1"
      using service_client_run by fastforce
    from service_run_keeps [OF run] service_run_client_ok [OF run] True Cons.prems(2,3)
    show ?thesis by simp
  qed (use one Cons.prems in auto)
  with Cons.IH [OF rest] Cons.prems(2) cs' show ?case by simp
qed simp

lemma dispatch_keeps:
  assumes "ipc_server_dispatch L S K (Some srv) fds w st = Some (srvp, w', st')"
    and "\<forall>c \<in> set (srv_clients srv). client_ok c" and "P st"
  shows "P st' \<and> (\<exists>srv'. srvp = Some srv' \<and> (\<forall>c \<in> set (srv_clients srv'). client_ok c))"
proof (cases "srv_listen_fd srv < 0")
  case True
  with assms show ?thesis by (auto simp: ipc_server_dispatch_def)
next
  case False
  with assms(1) obtain s1 w1 cs where
    a: "(if srv_listen_fd srv \<in> set fds then accept_new_clients K srv w else Some (srv, w)) = Some (s1, w1)"
    and s: "service_clients L S K fds (srv_clients s1) w1 st = Some (cs, w', st')"
    and r: "srvp = Some (s1\<lparr>srv_clients := cs\<rparr>)"
    by (auto simp: ipc_server_dispatch_def split: option.splits)
  have "\<forall>c \<in> set (srv_clients s1). client_ok c"
  proof (cases "srv_listen_fd srv \<in> set fds")
    case True
    with a have "accept_new_clients K srv w = Some (s1, w1)" by simp
    then show ?thesis
      using assms(2) client_ok_occupy
      by (rule accept_invariant [of K srv w s1 w1 "\<lambda>s w. \<forall>c \<in> set (srv_clients s). client_ok c"])
        blast+
  qed (use a assms(2) in simp)
  from service_clients_keeps [OF s this assms(3)] r show ?thesis by simp
qed

end

text \<open>The objects of the allowlist hold values of their type and range, where they hold any.\<close>

definition config_in_range :: "('e \<Rightarrow> store) \<Rightarrow> ('e, 'v) agent \<Rightarrow> bool" where
  "config_in_range emap st \<longleftrightarrow>
     (\<forall>obj \<in> set g_config_objects. \<forall>d. ag_map emap st (object_env obj) (co_name obj) = Some d \<longrightarrow>
        (\<exists>v. admits obj v \<and> d = value_cell (co_type obj) v))"

lemma config_objects_distinct:
  "obj \<in> set g_config_objects \<Longrightarrow> obj' \<in> set g_config_objects \<Longrightarrow> co_name obj = co_name obj' \<Longrightarrow> obj = obj'"
proof -
  have "distinct (map co_name g_config_objects)" by code_simp
  then show "obj \<in> set g_config_objects \<Longrightarrow> obj' \<in> set g_config_objects \<Longrightarrow> co_name obj = co_name obj' \<Longrightarrow> obj = obj'"
    by (auto simp: distinct_map dest: inj_onD)
qed

context lmdb_laws
begin

lemma respond_envs:
  assumes "respond L S st req = (e, st')"
  shows "(\<exists>G. envs_effect env_map live_txns live_cursors G (ag_envs st) (ag_envs st') \<and>
    (G = keep \<or> (\<exists>wreq obj. body req = Write_Config_Request wreq \<and> admissible wreq = Some obj \<and>
       G = upd (object_env obj) (co_name obj) (Some (value_cell (co_type obj) (wreq_value wreq))))))"
proof (cases "body req")
  case (Write_Config_Request wreq)
  obtain wr st1 where h: "handle_write_config L st wreq = (wr, st1)" by fastforce
  with assms Write_Config_Request have "st' = st1" by (auto simp: respond_def)
  with handle_write_spec [OF h] Write_Config_Request admissible_some(3) [of wreq] show ?thesis
    by (auto simp: ag_effect_def split: if_splits)
next
  case (Read_Config_Request rreq)
  obtain rr st1 where h: "handle_read_config L st rreq = (rr, st1)" by fastforce
  with assms Read_Config_Request have "st' = st1" by (auto simp: respond_def)
  with handle_read_spec(1) [OF h] show ?thesis by (auto simp: ag_effect_def)
next
  case (Send_Trap_Request treq)
  obtain ret st1 where s: "demo_send_temp_alarm L S st = (ret, st1)" by fastforce
  with assms Send_Trap_Request have "st' = st \<or> st' = st1"
    by (auto simp: respond_def handle_send_trap_def split: if_splits)
  moreover have "envs_same env_map live_txns live_cursors (ag_envs st) (ag_envs st1)"
    using demo_send_spec [of st S] s by (simp add: send_result_def)
  ultimately show ?thesis
    by (auto simp: envs_effect_keep intro!: exI [of _ keep])
qed (use assms in \<open>auto simp: respond_def envs_effect_keep intro!: exI [of _ keep]\<close>)

lemma respond_open:
  "respond L S st req = (e, st') \<Longrightarrow> (ag_envs st' i = None) = (ag_envs st i = None)"
  by (drule respond_envs) (auto simp: envs_effect_def dest!: spec [of _ i] elim!: option.rel_cases)

lemma respond_in_range:
  assumes "respond L S st req = (e, st')" and "config_in_range env_map st"
  shows "config_in_range env_map st'"
proof -
  from respond_envs [OF assms(1)] obtain G where
    G: "envs_effect env_map live_txns live_cursors G (ag_envs st) (ag_envs st')"
    "G = keep \<or> (\<exists>wreq obj. admissible wreq = Some obj \<and>
       G = upd (object_env obj) (co_name obj) (Some (value_cell (co_type obj) (wreq_value wreq))))" by blast
  have "\<exists>v. admits obj v \<and> d = value_cell (co_type obj) v"
    if o: "obj \<in> set g_config_objects" and d: "contents st' (object_env obj) (co_name obj) = Some d"
    for obj d
  proof -
    have "ag_envs st' (object_env obj) \<noteq> None" using d by (rule ag_map_open)
    then have "ag_envs st (object_env obj) \<noteq> None" using respond_open [OF assms(1)] by simp
    with G(1) have map: "contents st' (object_env obj) = G (object_env obj) (contents st (object_env obj))"
      by (rule envs_effect_map)
    from G(2) show ?thesis
    proof (elim disjE exE conjE)
      assume "G = keep"
      with map d assms(2) o show ?thesis by (auto simp: config_in_range_def keep_def)
    next
      fix wreq obj'
      assume a: "admissible wreq = Some obj'"
        and "G = upd (object_env obj') (co_name obj') (Some (value_cell (co_type obj') (wreq_value wreq)))"
      with map d have "(object_env obj = object_env obj' \<and> co_name obj = co_name obj' \<and>
          d = value_cell (co_type obj') (wreq_value wreq)) \<or>
          contents st (object_env obj) (co_name obj) = Some d"
        by (auto simp: upd_def split: if_splits)
      with admissible_some(2,5) [OF a] o assms(2) config_objects_distinct [of obj obj'] show ?thesis
        by (auto simp: config_in_range_def)
    qed
  qed
  then show ?thesis by (auto simp: config_in_range_def)
qed

end

sublocale lmdb_laws \<subseteq> in_range: ipc_invariant L S "config_in_range env_map" for S
  by unfold_locales (rule respond_in_range)

sublocale lmdb_laws \<subseteq> stays_open: ipc_invariant L S "\<lambda>st. \<forall>i. (ag_envs st i = None) = (envs i = None)" for S envs
  by unfold_locales (simp add: respond_open)

end
