(* ===== verification/Ipc_Properties.thy ===== *)
theory Ipc_Properties
  imports Ipc_Loop
begin

text \<open>
  The properties of the IPC server (\<open>src/ipc_server.c\<close>): what a request may change, what the bytes
  on a connection mean, and the resources of the server.
\<close>

definition ipc_agent :: "(string \<times> bytes) list \<Rightarrow> (mem_env, (oid \<times> asn_type \<times> vb_value) list) agent" where
  "ipc_agent data = \<lparr>ag_envs = (\<lambda>_. Some \<lparr>se_env = \<lparr>me_data = data, me_txns = 0, me_cursors = 0\<rparr>,
     se_flags = 0, se_readonly = False\<rparr>), ag_temp_state = TEMP_STATE_CLEAR, ag_traps = [],
     ag_port_skipped = 0, ag_sensor_skipped = 0\<rparr>"

definition set_interval :: "uint32 \<Rightarrow> WriteConfigRequest" where
  "set_interval n = \<lparr>wreq_key = ''sampleIntervalSec'', wreq_has_value = True,
     wreq_value = value_init_zero\<lparr>v_type := VALUE_TYPE_UINT32, v_uint32 := n\<rparr>\<rparr>"

text \<open>
  C22. A write request does what it answers: \<open>STATUS_OK\<close> comes with an empty message and only for a
  known key with a value of its type inside its range, and then exactly that key of the object's
  environment holds the encoding of the value; every other status comes with a message and nothing
  stored has changed. Neither the alarm edge nor the traps change, and no handle stays open.
\<close>

theorem ipc_write_safe:
  assumes "lmdb_laws L env_map live_txns live_cursors txn_map txn_ro cur_map cur_pos"
    and "handle_write_config L st req = (resp, st')"
  shows "if wresp_status resp = STATUS_OK
    then \<exists>obj. find_config_object (wreq_key req) = Some obj \<and> wreq_has_value req \<and>
      admits obj (wreq_value req) \<and> wresp_message resp = [] \<and>
      ag_effect env_map live_txns live_cursors
        (upd (object_env obj) (wreq_key req) (Some (value_cell (co_type obj) (wreq_value req)))) st st'
    else wresp_message resp \<noteq> [] \<and> ag_effect env_map live_txns live_cursors keep st st'"
  using lmdb_laws.handle_write_spec [OF assms] admissible_some [of req] by (auto split: if_splits)

theorem ipc_write_safe_witness:
  "\<exists>resp st'. handle_write_config (memdb no_limits) (ipc_agent []) (set_interval 0) = (resp, st') \<and>
    wresp_status resp \<noteq> STATUS_OK \<and> ag_effect mem_map me_txns me_cursors keep (ipc_agent []) st'"
proof -
  have "admissible (set_interval 0) = None" by code_simp
  from handle_write_rejects [OF this] obtain resp where
    p: "handle_write_config (memdb no_limits) (ipc_agent []) (set_interval 0) = (resp, ipc_agent [])"
      "wresp_status resp \<noteq> STATUS_OK" by force
  with ipc_write_safe [OF mem.lmdb_laws_axioms p(1)] show ?thesis by auto
qed

text \<open>
  What was written over IPC is read back over IPC: while the platform has resources and the
  object's environment is writable, a write of an admissible value answers \<open>STATUS_OK\<close>, and a read
  of the same key then answers \<open>STATUS_OK\<close> with that value, and with the other value fields zero.
\<close>

lemma ipc_write_then_read:
  assumes "lmdb_reliable L env_map live_txns live_cursors txn_map txn_ro cur_map cur_pos"
    and "admissible req = Some obj" and "ag_writable st (object_env obj)"
  shows "\<exists>wr st' rr st''. handle_write_config L st req = (wr, st') \<and> wresp_status wr = STATUS_OK \<and>
    handle_read_config L st' \<lparr>rreq_key = wreq_key req\<rparr> = (rr, st'') \<and> rresp_status rr = STATUS_OK \<and>
    rresp_has_value rr \<and> rresp_value rr = value_view (co_type obj) (wreq_value req)"
  using lmdb_reliable.write_read [OF assms] .

text \<open>
  C7. The stored configuration stays in its ranges: however many connections are served and whatever
  bytes arrive on them, a dispatch keeps the invariant that each of the four configuration keys,
  when present, holds a value of its type inside its range, and that every client slot is either
  free or holds less than one whole frame.
\<close>

theorem ipc_dispatch_in_range:
  assumes "lmdb_laws L env_map live_txns live_cursors txn_map txn_ro cur_map cur_pos"
    and "ipc_server_dispatch L S K (Some srv) fds w st = Some (srvp, w', st')"
    and "\<forall>c \<in> set (srv_clients srv). client_ok c" and "config_in_range env_map st"
  shows "config_in_range env_map st' \<and> (\<exists>srv'. srvp = Some srv' \<and> (\<forall>c \<in> set (srv_clients srv'). client_ok c))"
  using lmdb_laws.respond_in_range [OF assms(1)] assms(2-4)
  by (intro ipc_invariant.dispatch_keeps [of L S "config_in_range env_map"] ipc_invariant.intro)

definition demo_server :: ipc_server where
  "demo_server = \<lparr>srv_listen_fd = 3, srv_sock_path = ''s'', srv_clients = replicate 8 free_client\<rparr>"

text \<open>One client is waiting; its stream is a write of 30 and a ping, split anywhere.\<close>

definition demo_world :: net_world where
  "demo_world = \<lparr>nw_in = [(4, frame_of [10, 1, 30] @ frame_of [16, 2, 5])], nw_waiting = 1, nw_out = [],
     nw_open = [3], nw_room = 2\<rparr>"

theorem ipc_dispatch_in_range_witness:
  "\<exists>srv' w' st'. ipc_server_dispatch (memdb no_limits) snmp_demo net_demo (Some demo_server) [3, 4]
      demo_world (ipc_agent []) = Some (srv', w', st') \<and> config_in_range mem_map st'"
proof -
  obtain srvp w' st' where d: "ipc_server_dispatch (memdb no_limits) snmp_demo net_demo (Some demo_server) [3, 4]
      demo_world (ipc_agent []) = Some (srvp, w', st')"
    using net_demo.dispatch_total by blast
  have "\<forall>c \<in> set (srv_clients demo_server). client_ok c" by (simp add: demo_server_def)
  moreover have "config_in_range mem_map (ipc_agent [])"
    by (simp add: config_in_range_def ag_map_def ipc_agent_def)
  ultimately show ?thesis using ipc_dispatch_in_range [OF mem.lmdb_laws_axioms d] d by blast
qed

text \<open>
  C18. Where the stream is cut does not matter: draining a buffer that arrived in one read does the
  same as draining its first part, keeping what is left over, and draining again when the second
  part has arrived; the client, the network and the agent end up the same, and also when a bad
  frame closes the connection.
\<close>

theorem ipc_segmentation_independent:
  assumes "cl_in_use c"
  shows "drain_frames L S K (c\<lparr>cl_buf := a @ b\<rparr>) w st =
     Option.bind (drain_frames L S K (c\<lparr>cl_buf := a\<rparr>) w st)
       (\<lambda>(ok, c', w', st'). if ok then drain_frames L S K (c'\<lparr>cl_buf := cl_buf c' @ b\<rparr>) w' st'
                            else Some (False, c', w', st'))"
  using drain_frames_append [OF assms] .

definition demo_client :: "bytes \<Rightarrow> ipc_client" where
  "demo_client buf = \<lparr>cl_fd = 4, cl_in_use = True, cl_buf = buf\<rparr>"

theorem ipc_segmentation_independent_witness:
  "drain_frames (memdb no_limits) snmp_demo net_demo ((demo_client [])\<lparr>cl_buf := [0, 0] @ [0, 3, 16, 2, 5]\<rparr>)
      demo_world (ipc_agent []) =
    Option.bind (drain_frames (memdb no_limits) snmp_demo net_demo ((demo_client [])\<lparr>cl_buf := [0, 0]\<rparr>)
      demo_world (ipc_agent []))
      (\<lambda>(ok, c', w', st'). if ok
         then drain_frames (memdb no_limits) snmp_demo net_demo (c'\<lparr>cl_buf := cl_buf c' @ [0, 3, 16, 2, 5]\<rparr>) w' st'
         else Some (False, c', w', st'))"
  by (rule ipc_segmentation_independent) (simp add: demo_client_def)

text \<open>
  C4. Pipelined requests are answered in order: when draining a buffer leaves the connection open,
  the complete frames of the buffer were decoded and answered one by one on the state the answers
  before them left, each answer carries the request id of its request, the bytes sent on that
  connection are exactly the frames of the answers in that order, which the peer can split again,
  nothing was sent to another connection, and what is kept is the incomplete rest.
\<close>

theorem ipc_answers_in_order:
  assumes "wire K sent" and "cl_in_use c" and "drain_frames L S K c w st = Some (True, c', w', st')"
  shows "\<exists>frames rest es. split_frames (cl_buf c) = (frames, rest, True) \<and> cl_buf c' = rest \<and>
    answers L S K st frames = Some (es, st') \<and>
    map (map_option request_id \<circ> pb_decode_envelope K) frames = map (Some \<circ> request_id) es \<and>
    sent w' = (sent w)(cl_fd c := sent w (cl_fd c) @ concat (map (frame_of \<circ> encoded K) es)) \<and>
    split_frames (concat (map (frame_of \<circ> encoded K) es)) = (map (encoded K) es, [], True)"
proof -
  obtain fs rest good where sp: "split_frames (cl_buf c) = (fs, rest, good)"
    by (cases "split_frames (cl_buf c)")
  from drain_frames_serve [OF assms(2), of L S K w st] assms(3) sp
  have "map_option (drained K c rest good) (serve_frames L S K (cl_fd c) fs w st) = Some (True, c', w', st')" by simp
  then obtain ok w1 st1 where s: "serve_frames L S K (cl_fd c) fs w st = Some (ok, w1, st1)"
    and d: "drained K c rest good (ok, w1, st1) = (True, c', w', st')" by auto
  from d have ok: ok good "w1 = w'" "st1 = st'" "c' = c\<lparr>cl_buf := rest\<rparr>" by (auto split: if_splits)
  from wire.serve_frames_answers [OF assms(1) s [unfolded ok(3,4) eqTrueI [OF ok(1)]]] obtain es where
    es: "answers L S K st fs = Some (es, st')" "\<forall>e \<in> set es. pb_encode_envelope K 1024 e \<noteq> None"
      "sent w' = (sent w)(cl_fd c := sent w (cl_fd c) @ concat (map (frame_of \<circ> encoded K) es))" by blast
  with answers_ids [OF es(1)] wire.split_answers [OF assms(1), of es] sp ok show ?thesis by auto
qed

lemma split_two_pings:
  "split_frames (cl_buf (demo_client (frame_of [16, 7, 5] @ frame_of [16, 8, 6]))) =
     ([[16, 7, 5], [16, 8, 6]], [], True)"
proof -
  have "split_frames (frame_of [16, 8, 6]) = ([[16, 8, 6]], [], True)"
    using split_frames_cons [of "[16, 8, 6]" "[]"] by (simp add: frame_ok_def split_frames_incomplete)
  then show ?thesis by (simp add: demo_client_def split_frames_cons frame_ok_def)
qed

lemma serve_ping:
  assumes "demo_decode p = Some \<lparr>request_id = i, body = Ping_Request n\<rparr>"
  shows "\<exists>w'. serve_frame L S net_demo fd p w st = Some (True, w', st)"
proof -
  have "\<exists>b. pb_encode_envelope net_demo 1024 \<lparr>request_id = i, body = Ping_Response n\<rparr> = Some b"
    by (simp add: net_demo_def demo_encode_def)
  then obtain b where b: "pb_encode_envelope net_demo 1024 \<lparr>request_id = i, body = Ping_Response n\<rparr> = Some b" ..
  obtain w' where w': "send_all net_demo w fd (frame_of b) 0 = Some (0, w')" using send_all_demo [OF refl] by blast
  have d: "pb_decode_envelope net_demo p = Some \<lparr>request_id = i, body = Ping_Request n\<rparr>"
    using assms by (simp add: net_demo_def)
  show ?thesis by (simp add: serve_frame_def d respond_def b w')
qed

lemma drain_two_pings:
  "\<exists>c' w' st'. drain_frames (memdb no_limits) snmp_demo net_demo
      (demo_client (frame_of [16, 7, 5] @ frame_of [16, 8, 6])) demo_world (ipc_agent []) = Some (True, c', w', st')"
proof -
  let ?c = "demo_client (frame_of [16, 7, 5] @ frame_of [16, 8, 6])"
  have u: "cl_in_use ?c" by (simp add: demo_client_def)
  note sp = split_two_pings
  obtain w1 where 1: "serve_frame (memdb no_limits) snmp_demo net_demo (cl_fd ?c) [16, 7, 5] demo_world (ipc_agent []) =
      Some (True, w1, ipc_agent [])"
    using serve_ping [of "[16, 7, 5]" 7 5] by fastforce
  obtain w2 where 2: "serve_frame (memdb no_limits) snmp_demo net_demo (cl_fd ?c) [16, 8, 6] w1 (ipc_agent []) =
      Some (True, w2, ipc_agent [])"
    using serve_ping [of "[16, 8, 6]" 8 6] by fastforce
  show ?thesis unfolding drain_frames_serve [OF u] sp prod.case by (simp add: 1 2)
qed

theorem ipc_answers_in_order_witness:
  "\<exists>c' w' st' es. drain_frames (memdb no_limits) snmp_demo net_demo
      (demo_client (frame_of [16, 7, 5] @ frame_of [16, 8, 6])) demo_world (ipc_agent []) = Some (True, c', w', st') \<and>
    answers (memdb no_limits) snmp_demo net_demo (ipc_agent []) [[16, 7, 5], [16, 8, 6]] = Some (es, st') \<and>
    nw_sent w' 4 = concat (map (frame_of \<circ> encoded net_demo) es)"
proof -
  let ?c = "demo_client (frame_of [16, 7, 5] @ frame_of [16, 8, 6])"
  obtain c' w' st' where p: "drain_frames (memdb no_limits) snmp_demo net_demo ?c demo_world (ipc_agent []) =
    Some (True, c', w', st')" using drain_two_pings by blast
  have u: "cl_in_use ?c" by (simp add: demo_client_def)
  note split_two_pings
  moreover have "nw_sent demo_world 4 = []" "cl_fd ?c = 4" by (simp_all add: demo_world_def nw_sent_def demo_client_def)
  ultimately show ?thesis
    using ipc_answers_in_order [OF net_demo.wire_axioms u p] p by auto
qed

text \<open>
  The buffer never fills: for a client in the state every dispatch leaves it in, serving it does
  the same as the loop without the check for a full receive buffer, so no client is ever dropped
  for filling it, whatever it sends.
\<close>

lemma ipc_buffer_guard_redundant:
  assumes "cl_in_use c" and "client_ok c" and "service_client L S K c w st = Some (c', w', st')"
  shows "service_unguarded L S K c w st = Some (c', w', st') \<and> client_ok c' \<and>
    length (cl_buf c') + 65540 < IPC_CLIENT_BUF_SIZE"
proof -
  have r: "service_run L S K c w st c' w' st'"
    using service_client_run [OF assms(3)] assms(1,2) by simp
  have ok: "client_ok c'" by (rule service_run_client_ok [OF r assms(1,2)])
  show ?thesis using service_run_unguarded [OF r] ok client_ok_room [OF ok] by blast
qed



text \<open>
  C23. Descriptors are owned: the slots in use hold distinct descriptors, which together with those
  the server did not accept itself are exactly the open ones; a dispatch keeps it, so no accepted
  descriptor leaks, is closed twice or is served from two slots, and there are never more than the
  eight slots. Stopping the server then closes every one of them and the listening socket.
\<close>

theorem ipc_descriptors_owned:
  assumes "descriptors K opened"
    and "ipc_server_dispatch L S K (Some srv) fds w st = Some (srvp, w', st')"
    and "slots_own base (opened w) (srv_clients srv)"
    and "srv_listen_fd srv \<in> base" and "srv_listen_fd srv \<ge> 0"
  shows "\<exists>srv'. srvp = Some srv' \<and> slots_own base (opened w') (srv_clients srv') \<and>
    length (srv_clients srv') = length (srv_clients srv) \<and> srv_listen_fd srv' = srv_listen_fd srv \<and>
    opened (ipc_server_stop K w' srvp) = base - {srv_listen_fd srv}"
proof -
  from descriptors.dispatch_own [OF assms(1,2,3)] obtain srv' where
    s: "srvp = Some srv'" "slots_own base (opened w') (srv_clients srv')"
      "length (srv_clients srv') = length (srv_clients srv)" "srv_listen_fd srv' = srv_listen_fd srv" by blast
  with descriptors.stop_closes [OF assms(1) s(2)] assms(4,5) show ?thesis by simp
qed

theorem ipc_descriptors_owned_witness:
  "\<exists>srvp w' st'. ipc_server_dispatch (memdb no_limits) snmp_demo net_demo (Some demo_server) [3, 4] demo_world
      (ipc_agent []) = Some (srvp, w', st') \<and> set (nw_open (ipc_server_stop net_demo w' srvp)) = {}"
proof -
  obtain srvp w' st' where d: "ipc_server_dispatch (memdb no_limits) snmp_demo net_demo (Some demo_server) [3, 4]
      demo_world (ipc_agent []) = Some (srvp, w', st')"
    using net_demo.dispatch_total by blast
  have o: "slots_own {3} (set (nw_open demo_world)) (srv_clients demo_server)"
    "srv_listen_fd demo_server \<in> {3}" "srv_listen_fd demo_server \<ge> 0"
    by (simp_all add: slots_own_def slot_fds_def demo_server_def demo_world_def)
  from ipc_descriptors_owned [OF net_demo.descriptors_axioms d o] d show ?thesis
    by (auto simp: demo_server_def)
qed

text \<open>
  A send-trap request is answered \<open>STATUS_OK\<close> also when a temperature is missing and therefore no
  trap was sent.
\<close>

lemma send_trap_ok_without_trap:
  "\<exists>resp st'. handle_send_trap (memdb no_limits) snmp_demo (ipc_agent []) \<lparr>treq_trap_name = ''demoTempAlarm''\<rparr> =
      (resp, st') \<and> tresp_status resp = STATUS_OK \<and> ag_traps st' = []"
proof -
  let ?p = "handle_send_trap (memdb no_limits) snmp_demo (ipc_agent []) \<lparr>treq_trap_name = ''demoTempAlarm''\<rparr>"
  have "tresp_status (fst ?p) = STATUS_OK" "ag_traps (snd ?p) = []" by code_simp+
  then show ?thesis by (cases ?p) auto
qed

end
