(* ===== verification/Nanopb_Varint.thy ===== *)
theory Nanopb_Varint
  imports Prelude
begin

text \<open>
  Variable length integers of nanopb (\<open>third_party/nanopb/pb_encode.c\<close> and \<open>pb_decode.c\<close>). The encoder
  works on two 32 bit halves to avoid 64 bit shifts; the decoders accumulate seven bits per byte, and
  the one for 32 bit values also accepts the sign extension of a negative number. All of them are
  related to the little endian base 128 representation \<open>leb128\<close>. An input stream is the list of the
  bytes that are left, a failing read is \<^const>\<open>None\<close>.
\<close>

subsection \<open>Encoder\<close>

text \<open>
  The two loops of \<open>pb_encode_varint_32\<close>. The bytes written so far are \<open>buffer\<close>, so its length is the
  counter \<open>i\<close> of the code.
\<close>

function varint_low_loop :: "uint32 \<Rightarrow> byte \<Rightarrow> uint32 \<Rightarrow> bytes \<Rightarrow> bytes \<times> byte" where
  "varint_low_loop high byte low buffer =
     (if length buffer < 4 \<and> (low \<noteq> 0 \<or> high \<noteq> 0)
      then varint_low_loop high (ucast (low AND 0x7F)) (drop_bit 7 low) (buffer @ [byte OR 0x80])
      else (buffer, byte))"
  by pat_completeness auto
termination
  by (relation "measure (\<lambda>(high, byte, low, buffer). 4 - length buffer)") auto

lemma unat_drop_bit_div: "unat (drop_bit n (w :: 'a :: len word)) = unat w div 2 ^ n"
  unfolding unat_drop_bit_eq by (rule drop_bit_eq_div)

lemma unat_drop_bit_less: "(w :: 'a :: len word) \<noteq> 0 \<Longrightarrow> unat (drop_bit (Suc n) w) < unat w"
  unfolding unat_drop_bit_div
  by (rule div_less_dividend) (use one_less_power [of "2 :: nat" "Suc n"] in \<open>simp_all add: unat_gt_0\<close>)

function varint_high_loop :: "byte \<Rightarrow> uint32 \<Rightarrow> bytes \<Rightarrow> bytes \<times> byte" where
  "varint_high_loop byte high buffer =
     (if high \<noteq> 0
      then varint_high_loop (ucast (high AND 0x7F)) (drop_bit 7 high) (buffer @ [byte OR 0x80])
      else (buffer, byte))"
  by pat_completeness auto
termination
  by (relation "measure (\<lambda>(byte, high, buffer). unat high)")
    (auto intro: unat_drop_bit_less [where n = 6, simplified])

text \<open>The buffer \<open>pb_encode_varint_32\<close> hands to \<open>pb_write\<close>, and the choice of \<open>pb_encode_varint\<close>.\<close>

definition pb_varint_32 :: "uint32 \<Rightarrow> uint32 \<Rightarrow> bytes" where
  "pb_varint_32 low high =
     (case varint_low_loop high (ucast (low AND 0x7F)) (drop_bit 7 low) [] of
        (buffer, byte) \<Rightarrow>
          (case (if high \<noteq> 0
                 then varint_high_loop (byte OR ucast (push_bit 4 (high AND 0x07))) (drop_bit 3 high) buffer
                 else (buffer, byte)) of
             (buffer, byte) \<Rightarrow> buffer @ [byte]))"

definition pb_varint :: "uint64 \<Rightarrow> bytes" where
  "pb_varint value =
     (if value \<le> 0x7F then [ucast value]
      else pb_varint_32 (ucast value) (ucast (drop_bit 32 value)))"

subsection \<open>Decoders\<close>

text \<open>The loop of \<open>pb_decode_varint\<close>.\<close>

fun varint_loop :: "nat \<Rightarrow> uint64 \<Rightarrow> bytes \<Rightarrow> (uint64 \<times> bytes) option" where
  "varint_loop bitpos result [] = None"
| "varint_loop bitpos result (byte # bs) =
     (if bitpos \<ge> 63 \<and> byte AND 0xFE \<noteq> 0 then None
      else let result = result OR push_bit bitpos (ucast (byte AND 0x7F)) in
        if byte AND 0x80 \<noteq> 0 then varint_loop (bitpos + 7) result bs else Some (result, bs))"

definition pb_decode_varint :: "bytes \<Rightarrow> (uint64 \<times> bytes) option" where
  "pb_decode_varint bs = varint_loop 0 0 bs"

text \<open>The body of the multibyte case of \<open>pb_decode_varint32_eof\<close> for one byte, and its loop.\<close>

definition varint32_step :: "nat \<Rightarrow> uint32 \<Rightarrow> byte \<Rightarrow> uint32 option" where
  "varint32_step bitpos result byte =
     (if bitpos \<ge> 32 then
        let sign_extension = (if bitpos < 63 then 0xFF else 0x01);
            valid_extension = (byte AND 0x7F = 0 \<or>
              (drop_bit 31 result \<noteq> 0 \<and> byte = sign_extension)) in
        if bitpos \<ge> 64 \<or> \<not> valid_extension then None else Some result
      else if bitpos = 28 then
        if byte AND 0x70 \<noteq> 0 \<and> byte AND 0x78 \<noteq> 0x78 then None
        else Some (result OR push_bit bitpos (ucast (byte AND 0x0F)))
      else Some (result OR push_bit bitpos (ucast (byte AND 0x7F))))"

fun varint32_loop :: "nat \<Rightarrow> uint32 \<Rightarrow> bytes \<Rightarrow> (uint32 \<times> bytes) option" where
  "varint32_loop bitpos result [] = None"
| "varint32_loop bitpos result (byte # bs) =
     (case varint32_step bitpos result byte of
        None \<Rightarrow> None
      | Some result \<Rightarrow>
          if byte AND 0x80 \<noteq> 0 then varint32_loop (bitpos + 7) result bs else Some (result, bs))"

fun pb_decode_varint32 :: "bytes \<Rightarrow> (uint32 \<times> bytes) option" where
  "pb_decode_varint32 [] = None"
| "pb_decode_varint32 (byte # bs) =
     (if byte AND 0x80 = 0 then Some (ucast byte, bs)
      else varint32_loop 7 (ucast (byte AND 0x7F)) bs)"

fun pb_skip_varint :: "bytes \<Rightarrow> bytes option" where
  "pb_skip_varint [] = None"
| "pb_skip_varint (byte # bs) = (if byte AND 0x80 \<noteq> 0 then pb_skip_varint bs else Some bs)"

subsection \<open>The reference representation\<close>

fun leb128 :: "nat \<Rightarrow> bytes" where
  "leb128 n = (if n < 128 then [of_nat n] else of_nat (n mod 128 + 128) # leb128 (n div 128))"

declare leb128.simps [simp del] varint_low_loop.simps [simp del] varint_high_loop.simps [simp del]

lemma leb128_small: "n < 128 \<Longrightarrow> leb128 n = [of_nat n]"
  and leb128_large: "n \<ge> 128 \<Longrightarrow> leb128 n = of_nat (n mod 128 + 128) # leb128 (n div 128)"
  by (simp_all add: leb128.simps)

lemma leb128_nonempty [simp]: "leb128 n \<noteq> []"
  by (simp add: leb128.simps)

lemma unat_and_mask: "unat (w AND mask n :: 'a :: len word) = unat w mod 2 ^ n"
  unfolding take_bit_eq_mask [symmetric] unsigned_take_bit_eq by (rule take_bit_eq_mod)

lemma unat_and_0x7F: "unat (w AND 0x7F :: 'a :: len word) = unat w mod 128"
  using unat_and_mask [of w 7] by (simp add: mask_eq_exp_minus_1)

text \<open>Bits from different positions add up.\<close>

lemma nat_or_push_bit: "(a :: nat) < 2 ^ k \<Longrightarrow> a OR push_bit k c = a + c * 2 ^ k"
proof -
  assume a: "a < 2 ^ k"
  have "\<not> bit a n \<or> \<not> bit (push_bit k c) n" for n
    using a by (metis bit_push_bit_iff bit_take_bit_iff not_less take_bit_nat_eq_self)
  then have "a + push_bit k c = a OR push_bit k c" by (rule disjunctive_add)
  then show ?thesis by (simp add: push_bit_eq_mult)
qed

lemma word_or_push_bit:
  "a < 2 ^ k \<Longrightarrow> (of_nat a :: 'a :: len word) OR push_bit k (of_nat c) = of_nat (a + c * 2 ^ k)"
  by (metis nat_or_push_bit of_nat_or_eq of_nat_push_bit)

lemma byte_or_0x80: "c < 128 \<Longrightarrow> (of_nat c :: byte) OR 0x80 = of_nat (c + 128)"
  using word_or_push_bit [of c 7 1] by (simp add: push_bit_eq_mult)

lemma byte_bits:
  assumes "c < 128"
  shows "(of_nat (c + 128) :: byte) AND 0x80 \<noteq> 0" "(of_nat c :: byte) AND 0x80 = 0"
    "(of_nat (c + 128) :: byte) AND 0x7F = of_nat c" "(of_nat c :: byte) AND 0x7F = of_nat c"
proof -
  have "list_all (\<lambda>c. (of_nat (c + 128) :: byte) AND 0x80 \<noteq> 0 \<and> (of_nat c :: byte) AND 0x80 = 0 \<and>
    (of_nat (c + 128) :: byte) AND 0x7F = of_nat c \<and> (of_nat c :: byte) AND 0x7F = of_nat c) [0..<128]"
    by code_simp
  with assms show "(of_nat (c + 128) :: byte) AND 0x80 \<noteq> 0" "(of_nat c :: byte) AND 0x80 = 0"
    "(of_nat (c + 128) :: byte) AND 0x7F = of_nat c" "(of_nat c :: byte) AND 0x7F = of_nat c"
    by (simp_all add: list_all_iff)
qed

lemma ucast_of_nat_small:
  "n < 2 ^ LENGTH('a) \<Longrightarrow> ucast (of_nat n :: 'a :: len word) = (of_nat n :: 'b :: len word)"
  by (metis of_nat_unat unat_of_nat mod_less)

lemma ucast_and_0x7F: "(ucast (w AND 0x7F :: 'a :: len word) :: byte) = of_nat (unat w mod 128)"
  by (metis of_nat_unat unat_and_0x7F)

subsection \<open>The encoder writes the reference representation\<close>

lemma leb128_step:
  fixes byte :: byte
  shows "unat byte < 128 \<Longrightarrow> q > 0 \<Longrightarrow> leb128 (unat byte + 128 * q) = (byte OR 0x80) # leb128 q"
  using byte_or_0x80 [of "unat byte"] by (simp add: leb128_large)

lemma varint_high_loop_leb128:
  "unat byte < 128 \<Longrightarrow> case varint_high_loop byte high buffer of (buf, b) \<Rightarrow>
     buf @ [b] = buffer @ leb128 (unat byte + 128 * unat high)"
proof (induction byte high buffer rule: varint_high_loop.induct)
  case (1 byte high buffer)
  show ?case
  proof (cases "high = 0")
    case True
    with "1.prems" show ?thesis by (simp add: leb128_small varint_high_loop.simps)
  next
    case False
    let ?byte = "of_nat (unat high mod 128) :: byte"
    have b: "unat ?byte = unat high mod 128" by (simp add: unat_of_nat)
    have "leb128 (unat byte + 128 * unat high) = (byte OR 0x80) # leb128 (unat high)"
      using False "1.prems" unat_gt_0 [of high] by (intro leb128_step) auto
    moreover have "unat high = unat ?byte + 128 * unat (drop_bit 7 high)"
      unfolding b unat_drop_bit_div by simp
    moreover have "unat ?byte < 128" unfolding b by simp
    ultimately show ?thesis
      using False "1.IH" [unfolded ucast_and_0x7F] by (subst varint_high_loop.simps) (simp add: ucast_and_0x7F)
  qed
qed

text \<open>What \<open>pb_encode_varint_32\<close> does after its first loop.\<close>

definition varint_finish :: "uint32 \<Rightarrow> bytes \<times> byte \<Rightarrow> bytes" where
  "varint_finish high x = (case x of (buffer, byte) \<Rightarrow>
     case (if high \<noteq> 0
           then varint_high_loop (byte OR ucast (push_bit 4 (high AND 0x07))) (drop_bit 3 high) buffer
           else (buffer, byte)) of (buffer, byte) \<Rightarrow> buffer @ [byte])"

lemma varint_finish_leb128:
  assumes "unat byte < 128" and "high \<noteq> 0 \<Longrightarrow> unat byte < 16"
  shows "varint_finish high (buffer, byte) = buffer @ leb128 (unat byte + 16 * unat high)"
proof (cases "high = 0")
  case True
  with assms show ?thesis by (simp add: varint_finish_def leb128_small)
next
  case False
  have nibbles: "m mod 8 * 16 + 128 * (m div 8) = 16 * m" for m :: nat
    using div_mult_mod_eq [of m 8] by linarith
  let ?c = "unat high mod 8"
  have "unat (high AND 0x07) = ?c" using unat_and_mask [of high 3] by (simp add: mask_eq_exp_minus_1)
  then have h: "high AND 0x07 = of_nat ?c" by (metis of_nat_unat ucast_id)
  have c: "?c * 16 < 2 ^ 32" by (rule order.strict_trans1 [of _ "7 * 16"]) simp_all
  have "(ucast (push_bit 4 (high AND 0x07)) :: byte) = of_nat (?c * 16)"
    using ucast_of_nat_small [of "?c * 16", where 'a = 32 and 'b = 8] c
    unfolding h by (simp add: push_bit_eq_mult)
  then have or: "byte OR ucast (push_bit 4 (high AND 0x07)) = of_nat (unat byte + ?c * 16)"
    using word_or_push_bit [of "unat byte" 4 ?c, where 'a = 8] assms(2) [OF False]
    by (simp add: push_bit_eq_mult)
  have "unat byte + ?c * 16 < 128" using assms(2) [OF False] mod_less_divisor [of 8 "unat high"] by linarith
  then have u: "unat (of_nat (unat byte + ?c * 16) :: byte) = unat byte + ?c * 16"
    by (simp only: unat_of_nat) simp
  have "unat byte + ?c * 16 + 128 * unat (drop_bit 3 high) = unat byte + 16 * unat high"
    unfolding unat_drop_bit_div using nibbles [of "unat high"] by simp
  with varint_high_loop_leb128 [of "of_nat (unat byte + ?c * 16)", where high = "drop_bit 3 high" and buffer = buffer] False
    \<open>unat byte + ?c * 16 < 128\<close> show ?thesis
    unfolding varint_finish_def prod.case or u by (simp split: prod.splits)
qed

lemma varint_low_loop_leb128:
  assumes "length buffer \<le> 4" and "unat byte < 128" and "unat low < 2 ^ (25 - 7 * length buffer)"
    and "length buffer = 4 \<Longrightarrow> unat byte < 16"
  shows "varint_finish high (varint_low_loop high byte low buffer) =
    buffer @ leb128 (unat byte + 128 * unat low + 2 ^ (32 - 7 * length buffer) * unat high)"
  using assms
proof (induction high byte low buffer rule: varint_low_loop.induct)
  case (1 high byte low buffer)
  let ?i = "length buffer"
  show ?case
  proof (cases "?i < 4 \<and> (low \<noteq> 0 \<or> high \<noteq> 0)")
    case True
    let ?byte = "of_nat (unat low mod 128) :: byte" and ?low = "drop_bit 7 low"
    let ?R = "unat byte + 128 * unat low + 2 ^ (32 - 7 * ?i) * unat high"
    let ?Q = "unat low + 2 ^ (25 - 7 * ?i) * unat high"
    have b: "unat ?byte = unat low mod 128" by (simp add: unat_of_nat)
    have "(2 :: nat) ^ (32 - 7 * ?i) = 128 * 2 ^ (25 - 7 * ?i)"
      using True power_add [of "2 :: nat" 7 "25 - 7 * ?i"] by simp
    then have R: "?R = unat byte + 128 * ?Q" by (simp add: algebra_simps)
    have Q: "?Q > 0" using True unat_gt_0 [of low] unat_gt_0 [of high] by auto
    have leb: "leb128 ?R = (byte OR 0x80) # leb128 ?Q"
      unfolding R using "1.prems"(2) Q by (rule leb128_step)
    have "(2 :: nat) ^ (25 - 7 * ?i) = 128 * 2 ^ (25 - 7 * Suc ?i) \<or> ?i = 3"
      using True power_add [of "2 :: nat" 7 "25 - 7 * Suc ?i"] by (cases "?i = 3") auto
    then have low: "unat ?low < 2 ^ (25 - 7 * Suc ?i)" "Suc ?i = 4 \<Longrightarrow> unat ?byte < 16"
      using "1.prems"(3) unfolding unat_drop_bit_div b by (auto simp: less_mult_imp_div_less)
    have "unat ?byte + 128 * unat ?low + 2 ^ (32 - 7 * Suc ?i) * unat high = ?Q"
      unfolding b unat_drop_bit_div by simp
    then show ?thesis
      using "1.IH" [OF True] True low b
      by (subst varint_low_loop.simps) (simp add: ucast_and_0x7F leb)
  next
    case False
    with "1.prems" show ?thesis
      by (subst varint_low_loop.simps) (auto simp: varint_finish_leb128 not_less unat_eq_zero)
  qed
qed

lemma pb_varint_32_leb128: "pb_varint_32 low high = leb128 (unat low + 2 ^ 32 * unat high)"
proof -
  let ?byte = "of_nat (unat low mod 128) :: byte"
  have b: "unat ?byte = unat low mod 128" by (simp add: unat_of_nat)
  have "unat low < 2 ^ 32" using unsigned_less [of low] by simp
  then have "unat (drop_bit 7 low) < 2 ^ 25" unfolding unat_drop_bit_div by (simp add: less_mult_imp_div_less)
  with varint_low_loop_leb128 [of "[]" ?byte "drop_bit 7 low" high] b
  have "varint_finish high (varint_low_loop high ?byte (drop_bit 7 low) []) =
    leb128 (unat ?byte + 128 * unat (drop_bit 7 low) + 2 ^ 32 * unat high)" by simp
  also have "unat ?byte + 128 * unat (drop_bit 7 low) = unat low" unfolding b unat_drop_bit_div by simp
  finally show ?thesis by (simp add: pb_varint_32_def varint_finish_def ucast_and_0x7F)
qed

lemma pb_varint_leb128: "pb_varint v = leb128 (unat v)"
proof (cases "v \<le> 0x7F")
  case True
  then have "unat v < 128" by (simp add: word_le_nat_alt)
  with True show ?thesis by (simp add: pb_varint_def leb128_small)
next
  case False
  have v: "unat v < 2 ^ 64" using unsigned_less [of v] by simp
  then have "unat v div 2 ^ 32 < 2 ^ 32" by (simp add: less_mult_imp_div_less)
  then have "unat (ucast (drop_bit 32 v) :: uint32) = unat v div 2 ^ 32"
    by (simp add: unsigned_ucast_eq unat_drop_bit_div take_bit_nat_eq_self del: drop_bit_eq_div)
  moreover have "unat (ucast v :: uint32) = unat v mod 2 ^ 32"
    by (simp add: unsigned_ucast_eq take_bit_eq_mod)
  ultimately show ?thesis using False mod_mult_div_eq [of "unat v" "2 ^ 32"]
    by (simp add: pb_varint_def pb_varint_32_leb128)
qed

subsection \<open>The decoders read it back\<close>

lemma shift_bound:
  fixes n :: nat
  assumes "n * 2 ^ k < 2 ^ w" and "2 ^ m \<le> n"
  shows "k + m < w"
proof -
  have "(2 :: nat) ^ (k + m) \<le> n * 2 ^ k" using assms(2) by (simp add: power_add mult.commute)
  with assms(1) have "(2 :: nat) ^ (k + m) < 2 ^ w" by linarith
  then show ?thesis by (simp only: power_strict_increasing_iff)
qed

text \<open>Seven more bits of \<open>n\<close> on top of the \<open>k\<close> bits read so far.\<close>

lemma next_septet:
  fixes a k n :: nat
  shows "n * 2 ^ k = n mod 128 * 2 ^ k + n div 128 * 2 ^ (k + 7)"
    and "a < 2 ^ k \<Longrightarrow> a + n mod 128 * 2 ^ k < 2 ^ (k + 7)"
proof -
  have "(n mod 128 + n div 128 * 128) * 2 ^ k = n mod 128 * 2 ^ k + n div 128 * 2 ^ (k + 7)"
    by (simp only: distrib_right power_add) (simp add: mult.assoc)
  then show "n * 2 ^ k = n mod 128 * 2 ^ k + n div 128 * 2 ^ (k + 7)" by simp
  assume "a < 2 ^ k"
  then have "a + n mod 128 * 2 ^ k < Suc (n mod 128) * 2 ^ k" by simp
  also have "\<dots> \<le> 128 * 2 ^ k" by (intro mult_right_mono Suc_leI) simp_all
  also have "\<dots> = 2 ^ (k + 7)" by (simp add: power_add)
  finally show "a + n mod 128 * 2 ^ k < 2 ^ (k + 7)" .
qed

lemma varint_loop_leb128:
  "a < 2 ^ k \<Longrightarrow> n * 2 ^ k < 2 ^ 64 \<Longrightarrow> varint_loop k (of_nat a) (leb128 n @ bs) = Some (of_nat (a + n * 2 ^ k), bs)"
proof (induction n arbitrary: a k rule: leb128.induct)
  case (1 n)
  note or = word_or_push_bit [OF "1.prems"(1), where 'a = 64]
  show ?case
  proof (cases "n < 128")
    case True
    have "n < 2" if "k \<ge> 63" using that shift_bound [OF "1.prems"(2), of 1] by (cases "n < 2") auto
    then have "k \<ge> 63 \<Longrightarrow> (of_nat n :: byte) AND 0xFE = 0" by (auto simp: less_2_cases_iff)
    with True or show ?thesis by (auto simp: leb128_small byte_bits ucast_of_nat_small)
  next
    case False
    have "(n div 128) * 2 ^ (k + 7) < 2 ^ 64" using next_septet(1) [of n k] "1.prems"(2) by linarith
    note IH = "1.IH" [OF False next_septet(2) [OF "1.prems"(1), of n] this]
    have "k + 7 < 64" using shift_bound [OF "1.prems"(2), of 7] False by simp
    with False or IH next_septet(1) [of n k] show ?thesis
      by (simp add: leb128_large byte_bits ucast_of_nat_small add.assoc del: of_nat_add)
  qed
qed

lemma pb_decode_varint_leb128:
  "n < 2 ^ 64 \<Longrightarrow> pb_decode_varint (leb128 n @ bs) = Some (of_nat n, bs)"
  using varint_loop_leb128 [of 0 0 n bs] by (simp add: pb_decode_varint_def)

lemma byte_nibble: "n < 16 \<Longrightarrow> (of_nat n :: byte) AND 0x70 = 0 \<and> (of_nat n :: byte) AND 0x0F = of_nat n"
proof -
  have "list_all (\<lambda>n. (of_nat n :: byte) AND 0x70 = 0 \<and> (of_nat n :: byte) AND 0x0F = of_nat n) [0..<16]"
    by code_simp
  then show "n < 16 \<Longrightarrow> ?thesis" by (simp add: list_all_iff)
qed

lemma varint32_loop_leb128:
  "a < 2 ^ k \<Longrightarrow> n * 2 ^ k < 2 ^ 32 \<Longrightarrow> k \<in> {7, 14, 21, 28} \<Longrightarrow>
     varint32_loop k (of_nat a) (leb128 n @ bs) = Some (of_nat (a + n * 2 ^ k), bs)"
proof (induction n arbitrary: a k rule: leb128.induct)
  case (1 n)
  note or = word_or_push_bit [OF "1.prems"(1), where 'a = 32]
  show ?case
  proof (cases "n < 128")
    case True
    have "n < 16" if "k = 28" using that "1.prems"(2) by simp
    then have "varint32_step k (of_nat a) (of_nat n) = Some (of_nat (a + n * 2 ^ k))"
      using True or "1.prems"(3) byte_nibble [of n]
      by (cases "k = 28") (auto simp: varint32_step_def byte_bits ucast_of_nat_small)
    with True show ?thesis by (simp add: leb128_small byte_bits)
  next
    case False
    have "(n div 128) * 2 ^ (k + 7) < 2 ^ 32" using next_septet(1) [of n k] "1.prems"(2) by linarith
    note IH = "1.IH" [OF False next_septet(2) [OF "1.prems"(1), of n] this]
    have "k + 7 < 32" using shift_bound [OF "1.prems"(2), of 7] False by simp
    with "1.prems"(3) have k: "k < 28" "k + 7 \<in> {7, 14, 21, 28}" by auto
    then have "varint32_step k (of_nat a) (of_nat (n mod 128 + 128)) = Some (of_nat (a + n mod 128 * 2 ^ k))"
      using or by (simp add: varint32_step_def byte_bits ucast_of_nat_small del: of_nat_add)
    with False k IH next_septet(1) [of n k] show ?thesis
      by (simp add: leb128_large byte_bits add.assoc del: of_nat_add)
  qed
qed

lemma pb_decode_varint32_leb128:
  assumes "n < 2 ^ 32"
  shows "pb_decode_varint32 (leb128 n @ bs) = Some (of_nat n, bs)"
proof (cases "n < 128")
  case True
  then show ?thesis by (simp add: leb128_small byte_bits ucast_of_nat_small)
next
  case False
  have "n div 128 * 2 ^ 7 < 2 ^ 32" using assms div_times_less_eq_dividend [of n 128] by simp
  then have "varint32_loop 7 (of_nat (n mod 128)) (leb128 (n div 128) @ bs) =
    Some (of_nat (n mod 128 + n div 128 * 2 ^ 7), bs)" by (intro varint32_loop_leb128) simp_all
  then show ?thesis using False by (simp add: leb128_large byte_bits ucast_of_nat_small del: of_nat_add)
qed

subsection \<open>Lengths\<close>

lemma leb128_length: "n < 2 ^ (7 * k) \<Longrightarrow> k > 0 \<Longrightarrow> length (leb128 n) \<le> k"
proof (induction k arbitrary: n)
  case (Suc k)
  show ?case
  proof (cases "n < 128")
    case False
    with Suc.prems have "k > 0" "n div 128 < 2 ^ (7 * k)"
      by (auto simp: power_add less_mult_imp_div_less mult.commute intro: Nat.gr0I)
    with Suc.IH [of "n div 128"] False show ?thesis by (simp add: leb128_large)
  qed (simp add: leb128_small)
qed simp

text \<open>Every decoder consumes at least one byte.\<close>

lemma varint_loop_shorter: "varint_loop k r bs = Some (v, rest) \<Longrightarrow> length rest < length bs"
  by (induction k r bs rule: varint_loop.induct) (fastforce simp: Let_def split: if_splits)+

lemma varint32_loop_shorter: "varint32_loop k r bs = Some (v, rest) \<Longrightarrow> length rest < length bs"
  by (induction k r bs rule: varint32_loop.induct) (fastforce split: if_splits option.splits)+

lemma pb_decode_varint_shorter: "pb_decode_varint bs = Some (v, rest) \<Longrightarrow> length rest < length bs"
  by (simp add: pb_decode_varint_def varint_loop_shorter)

lemma pb_decode_varint32_shorter: "pb_decode_varint32 bs = Some (v, rest) \<Longrightarrow> length rest < length bs"
  by (cases bs) (auto split: if_splits dest!: varint32_loop_shorter)

lemma pb_skip_varint_shorter: "pb_skip_varint bs = Some rest \<Longrightarrow> length rest < length bs"
  by (induction bs rule: pb_skip_varint.induct) (fastforce split: if_splits)+

end
