(* ===== verification/Nanopb.thy ===== *)
theory Nanopb
  imports Nanopb_Varint
begin

text \<open>
  The encoder and decoder of nanopb (\<open>third_party/nanopb/pb_encode.c\<close> and \<open>pb_decode.c\<close>) for the field
  types the messages of the repository use: statically allocated enums, integers, byte arrays,
  strings and submessages that are singular, optional or members of a oneof. Required and repeated
  fields, callbacks, pointers, extensions and default values do not occur in them, and the options
  that would change the code (\<open>PB_ENABLE_MALLOC\<close>, \<open>PB_VALIDATE_UTF8\<close>, \<open>PB_WITHOUT_64BIT\<close>) are not set.

  A message descriptor is the list of its fields, as the \<open>FIELDLIST\<close> macros give it. A C struct is the
  list of its fields' slots in the order of the descriptor: the flag (the \<open>has_\<close> field of an optional
  field; whether the \<open>which_\<close> field of a oneof holds the member's tag; always \<^const>\<open>True\<close> for a singular
  field) and the value. At most one member of the oneof of a message is selected; the union has no
  content for the others, their slots are zero. A failed call is \<^const>\<open>None\<close>: the callers of the
  library look at no partial result. Sizes stay below the range of \<open>size_t\<close>.
\<close>

datatype pb_label = SINGULAR | OPTIONAL | ONEOF

datatype pb_type =
    UENUM nat  \<comment> \<open>the largest enumerator, \<open>_MAX\<close> of the \<open>ENUMTYPE\<close>\<close>
  | INT32 | UINT32 | UINT64
  | BYTES nat  \<comment> \<open>\<open>PB_BYTES_ARRAY_T(n)\<close>\<close>
  | STRING nat  \<comment> \<open>\<open>char[n]\<close>\<close>
  | MESSAGE "pb_field list"
and pb_field = Field (field_label: pb_label) (field_type: pb_type) (field_name: string) (field_tag: nat)

lemma size_field_type [termination_simp]: "size (field_type f) < size f"
  by (cases f) simp

datatype pb_val =
    V_uint32 uint32 | V_int32 int32 | V_uint64 uint64
  | V_data bytes  \<comment> \<open>a byte array, or a string before its NUL\<close>
  | V_msg "(bool \<times> pb_val) list"

type_synonym pb_slot = "bool \<times> pb_val"

text \<open>\<open>pb_message_set_to_defaults\<close> without default values.\<close>

fun pb_zero :: "pb_type \<Rightarrow> pb_val" and pb_zero_slot :: "pb_field \<Rightarrow> pb_slot" where
  "pb_zero (UENUM _) = V_uint32 0"
| "pb_zero INT32 = V_int32 0"
| "pb_zero UINT32 = V_uint32 0"
| "pb_zero UINT64 = V_uint64 0"
| "pb_zero (BYTES _) = V_data []"
| "pb_zero (STRING _) = V_data []"
| "pb_zero (MESSAGE fs) = V_msg (map pb_zero_slot fs)"
| "pb_zero_slot (Field l t _ _) = (l = SINGULAR, pb_zero t)"

subsection \<open>Encoder\<close>

text \<open>An output stream: \<open>callback == NULL\<close> marks a stream that only counts.\<close>

record pb_ostream =
  os_sizing :: bool
  os_max_size :: nat
  os_written :: nat
  os_out :: bytes

definition PB_OSTREAM_SIZING :: pb_ostream where
  "PB_OSTREAM_SIZING = \<lparr>os_sizing = True, os_max_size = 0, os_written = 0, os_out = []\<rparr>"

definition pb_ostream_from_buffer :: "nat \<Rightarrow> pb_ostream" where
  "pb_ostream_from_buffer bufsize = \<lparr>os_sizing = False, os_max_size = bufsize, os_written = 0, os_out = []\<rparr>"

text \<open>The number of bytes is passed apart from them, as a counting stream is given none.\<close>

definition pb_write :: "pb_ostream \<Rightarrow> bytes \<Rightarrow> nat \<Rightarrow> pb_ostream option" where
  "pb_write os buf count =
     (if count > 0 \<and> \<not> os_sizing os \<and> os_written os + count > os_max_size os then None
      else Some (os\<lparr>os_written := os_written os + count,
                    os_out := if os_sizing os then os_out os else os_out os @ buf\<rparr>))"

definition pb_encode_varint :: "pb_ostream \<Rightarrow> uint64 \<Rightarrow> pb_ostream option" where
  "pb_encode_varint os value = pb_write os (pb_varint value) (length (pb_varint value))"

abbreviation (input) PB_WT_VARINT :: uint32 where "PB_WT_VARINT \<equiv> 0"
abbreviation (input) PB_WT_64BIT :: uint32 where "PB_WT_64BIT \<equiv> 1"
abbreviation (input) PB_WT_STRING :: uint32 where "PB_WT_STRING \<equiv> 2"
abbreviation (input) PB_WT_32BIT :: uint32 where "PB_WT_32BIT \<equiv> 5"

definition pb_encode_tag :: "pb_ostream \<Rightarrow> uint32 \<Rightarrow> nat \<Rightarrow> pb_ostream option" where
  "pb_encode_tag os wiretype field_number =
     pb_encode_varint os (push_bit 3 (of_nat field_number) OR ucast wiretype)"

fun pb_wiretype :: "pb_type \<Rightarrow> uint32" where
  "pb_wiretype (BYTES _) = PB_WT_STRING"
| "pb_wiretype (STRING _) = PB_WT_STRING"
| "pb_wiretype (MESSAGE _) = PB_WT_STRING"
| "pb_wiretype _ = PB_WT_VARINT"

definition pb_encode_tag_for_field :: "pb_ostream \<Rightarrow> pb_type \<Rightarrow> nat \<Rightarrow> pb_ostream option" where
  "pb_encode_tag_for_field os type tag = pb_encode_tag os (pb_wiretype type) tag"

definition pb_encode_string :: "pb_ostream \<Rightarrow> bytes \<Rightarrow> pb_ostream option" where
  "pb_encode_string os buffer =
     (case pb_encode_varint os (of_nat (length buffer)) of
        None \<Rightarrow> None
      | Some os \<Rightarrow> pb_write os buffer (length buffer))"

text \<open>
  Is a proto3 field at its default, so that it is not written. For a member of a oneof the code asks
  whether any member is selected; over all fields of a message, the only place where it is asked, that
  is the same.
\<close>

fun pb_check_proto3_default_value :: "pb_field \<Rightarrow> pb_slot \<Rightarrow> bool"
and pb_default_fields :: "pb_field list \<Rightarrow> pb_slot list \<Rightarrow> bool" where
  "pb_check_proto3_default_value (Field ONEOF _ _ _) (has, _) \<longleftrightarrow> \<not> has"
| "pb_check_proto3_default_value (Field OPTIONAL _ _ _) (has, _) \<longleftrightarrow> \<not> has"
| "pb_check_proto3_default_value (Field SINGULAR (MESSAGE fs) _ _) (_, V_msg slots) \<longleftrightarrow>
     pb_default_fields fs slots"
| "pb_check_proto3_default_value (Field SINGULAR type _ _) (_, v) \<longleftrightarrow> v = pb_zero type"
| "pb_default_fields (f # fs) (slot # slots) \<longleftrightarrow>
     pb_check_proto3_default_value f slot \<and> pb_default_fields fs slots"
| "pb_default_fields _ _ \<longleftrightarrow> True"

text \<open>The fields without submessages: \<open>pb_enc_varint\<close>, \<open>pb_enc_bytes\<close> and \<open>pb_enc_string\<close>.\<close>

fun pb_enc_varint :: "pb_val \<Rightarrow> pb_ostream \<Rightarrow> pb_ostream option" where
  "pb_enc_varint (V_uint32 w) os = pb_encode_varint os (ucast w)"
| "pb_enc_varint (V_uint64 w) os = pb_encode_varint os w"
| "pb_enc_varint (V_int32 w) os = pb_encode_varint os (scast w)"
| "pb_enc_varint _ os = None"

fun pb_enc_bytes :: "nat \<Rightarrow> pb_val \<Rightarrow> pb_ostream \<Rightarrow> pb_ostream option" where
  "pb_enc_bytes n (V_data bs) os = (if length bs > n then None else pb_encode_string os bs)"
| "pb_enc_bytes n _ os = None"

fun pb_enc_string :: "nat \<Rightarrow> pb_val \<Rightarrow> pb_ostream \<Rightarrow> pb_ostream option" where
  "pb_enc_string n (V_data bs) os =
     (if n = 0 then None else if length bs > n - 1 then None else pb_encode_string os bs)"
| "pb_enc_string n _ os = None"

function (sequential) pb_encode :: "pb_field list \<Rightarrow> pb_slot list \<Rightarrow> pb_ostream \<Rightarrow> pb_ostream option"
and encode_field :: "pb_field \<Rightarrow> pb_slot \<Rightarrow> pb_ostream \<Rightarrow> pb_ostream option"
and encode_basic_field :: "pb_type \<Rightarrow> nat \<Rightarrow> pb_val \<Rightarrow> pb_ostream \<Rightarrow> pb_ostream option"
and pb_encode_submessage :: "pb_field list \<Rightarrow> pb_slot list \<Rightarrow> pb_ostream \<Rightarrow> pb_ostream option" where
  "pb_encode (f # fs) (slot # slots) os =
     (case encode_field f slot os of None \<Rightarrow> None | Some os \<Rightarrow> pb_encode fs slots os)"
| "pb_encode _ _ os = Some os"
| "encode_field (Field label type name tag) (has, v) os =
     (if label = ONEOF \<and> \<not> has then Some os
      else if label = OPTIONAL \<and> \<not> has then Some os
      else if label = SINGULAR \<and> pb_check_proto3_default_value (Field label type name tag) (has, v) then Some os
      else encode_basic_field type tag v os)"
| "encode_basic_field type tag v os =
     (case pb_encode_tag_for_field os type tag of
        None \<Rightarrow> None
      | Some os \<Rightarrow>
          (case type of
             BYTES n \<Rightarrow> pb_enc_bytes n v os
           | STRING n \<Rightarrow> pb_enc_string n v os
           | MESSAGE fs \<Rightarrow> (case v of V_msg slots \<Rightarrow> pb_encode_submessage fs slots os | _ \<Rightarrow> None)
           | _ \<Rightarrow> pb_enc_varint v os))"
| "pb_encode_submessage fs slots os =
     (case pb_encode fs slots PB_OSTREAM_SIZING of
        None \<Rightarrow> None
      | Some substream \<Rightarrow>
          let size = os_written substream in
          (case pb_encode_varint os (of_nat size) of
             None \<Rightarrow> None
           | Some os \<Rightarrow>
               if os_sizing os then pb_write os [] size
               else if os_written os + size > os_max_size os then None
               else (case pb_encode fs slots \<lparr>os_sizing = False, os_max_size = size, os_written = 0,
                       os_out = os_out os\<rparr> of
                   None \<Rightarrow> None
                 | Some substream \<Rightarrow>
                     if os_written substream \<noteq> size then None
                     else Some (os\<lparr>os_written := os_written os + os_written substream,
                                   os_out := os_out substream\<rparr>))))"
  by pat_completeness auto
termination
  by (relation "measure (case_sum
      (case_sum (\<lambda>(fs, _). 2 * size_list size fs) (\<lambda>(f, _). 2 * size f))
      (case_sum (\<lambda>(t, _). 2 * size t) (\<lambda>(fs, _). 2 * size_list size fs + 1)))")
    simp_all

subsection \<open>Decoder\<close>

text \<open>A read of \<open>n\<close> bytes, and the substream of a length-delimited field: the bytes and what is left.\<close>

definition pb_read :: "nat \<Rightarrow> bytes \<Rightarrow> (bytes \<times> bytes) option" where
  "pb_read n bs = (if length bs < n then None else Some (take n bs, drop n bs))"

definition pb_make_string_substream :: "bytes \<Rightarrow> (bytes \<times> bytes) option" where
  "pb_make_string_substream bs =
     (case pb_decode_varint32 bs of None \<Rightarrow> None | Some (len, bs) \<Rightarrow> pb_read (unat len) bs)"

text \<open>
  \<open>pb_decode_tag\<close> gives the wire type and the tag. Its \<open>eof\<close> result is for an empty stream only, which
  the loop of \<open>pb_decode_inner\<close> excludes.
\<close>

definition pb_decode_tag :: "bytes \<Rightarrow> (uint32 \<times> uint32 \<times> bytes) option" where
  "pb_decode_tag bs =
     (case pb_decode_varint32 bs of
        None \<Rightarrow> None
      | Some (temp, bs) \<Rightarrow> Some (temp AND 7, drop_bit 3 temp, bs))"

definition pb_skip_field :: "uint32 \<Rightarrow> bytes \<Rightarrow> bytes option" where
  "pb_skip_field wire_type bs =
     (if wire_type = PB_WT_VARINT then pb_skip_varint bs
      else if wire_type = PB_WT_64BIT then map_option snd (pb_read 8 bs)
      else if wire_type = PB_WT_STRING then map_option snd (pb_make_string_substream bs)
      else if wire_type = PB_WT_32BIT then map_option snd (pb_read 4 bs)
      else None)"

text \<open>
  \<open>decode_basic_field\<close> but for submessages, with \<open>pb_dec_varint\<close>, \<open>pb_dec_bytes\<close> and \<open>pb_dec_string\<close>.
  \<open>PB_SIZE_MAX\<close> is the largest 16 bit number. The characters behind a NUL stay invisible to the readers of a string.
\<close>

definition pb_dec_uint32 :: "bytes \<Rightarrow> (pb_val \<times> bytes) option" where
  "pb_dec_uint32 bs =
     (case pb_decode_varint bs of
        None \<Rightarrow> None
      | Some (value, bs) \<Rightarrow>
          let clamped = ucast value :: uint32 in
          if ucast clamped \<noteq> value then None else Some (V_uint32 clamped, bs))"

definition pb_dec_bytes :: "nat \<Rightarrow> bytes \<Rightarrow> (pb_val \<times> bytes) option" where
  "pb_dec_bytes n bs =
     (case pb_decode_varint32 bs of
        None \<Rightarrow> None
      | Some (len, bs) \<Rightarrow>
          if unat len > 65535 then None
          else if unat len + 2 > n + 2 then None
          else map_option (\<lambda>(b, bs). (V_data b, bs)) (pb_read (unat len) bs))"

definition pb_dec_string :: "nat \<Rightarrow> bytes \<Rightarrow> (pb_val \<times> bytes) option" where
  "pb_dec_string n bs =
     (case pb_decode_varint32 bs of
        None \<Rightarrow> None
      | Some (len, bs) \<Rightarrow>
          if len = - 1 then None
          else if unat len + 1 > n then None
          else map_option (\<lambda>(b, bs). (V_data (takeWhile (\<lambda>c. c \<noteq> 0) b), bs)) (pb_read (unat len) bs))"

fun decode_basic_field :: "pb_type \<Rightarrow> uint32 \<Rightarrow> bytes \<Rightarrow> (pb_val \<times> bytes) option" where
  "decode_basic_field (UENUM _) wire_type bs = (if wire_type \<noteq> PB_WT_VARINT then None else pb_dec_uint32 bs)"
| "decode_basic_field UINT32 wire_type bs = (if wire_type \<noteq> PB_WT_VARINT then None else pb_dec_uint32 bs)"
| "decode_basic_field UINT64 wire_type bs =
     (if wire_type \<noteq> PB_WT_VARINT then None
      else map_option (\<lambda>(value, bs). (V_uint64 value, bs)) (pb_decode_varint bs))"
| "decode_basic_field INT32 wire_type bs =
     (if wire_type \<noteq> PB_WT_VARINT then None
      else map_option (\<lambda>(value, bs). (V_int32 (ucast value), bs)) (pb_decode_varint bs))"
| "decode_basic_field (BYTES n) wire_type bs = (if wire_type \<noteq> PB_WT_STRING then None else pb_dec_bytes n bs)"
| "decode_basic_field (STRING n) wire_type bs = (if wire_type \<noteq> PB_WT_STRING then None else pb_dec_string n bs)"
| "decode_basic_field (MESSAGE _) wire_type bs = None"

text \<open>\<open>pb_field_iter_find\<close>, the position of the field with a tag.\<close>

fun pb_field_iter_find :: "pb_field list \<Rightarrow> uint32 \<Rightarrow> nat option" where
  "pb_field_iter_find [] tag = None"
| "pb_field_iter_find (f # fs) tag =
     (if field_tag f = unat tag then Some 0 else map_option Suc (pb_field_iter_find fs tag))"

text \<open>
  \<open>decode_static_field\<close> before the value is read: mark the field as present; a oneof that held
  another member is cleared.
\<close>

definition pb_select_field :: "pb_field list \<Rightarrow> pb_slot list \<Rightarrow> nat \<Rightarrow> pb_slot list" where
  "pb_select_field fs slots i =
     (case fs ! i of Field label type _ _ \<Rightarrow>
        if label = ONEOF \<and> \<not> fst (slots ! i)
        then (map2 (\<lambda>f s. if field_label f = ONEOF then (False, snd (pb_zero_slot f)) else s) fs slots)
               [i := (True, pb_zero type)]
        else slots[i := (True, snd (slots ! i))])"

text \<open>
  \<open>pb_decode_inner\<close> with \<open>pb_dec_submessage\<close>, which decodes a submessage into the struct as it is, so
  that a repeated occurrence is merged. Decoding a message consumes its whole stream.
\<close>

function pb_decode_inner :: "pb_field list \<Rightarrow> pb_slot list \<Rightarrow> bytes \<Rightarrow> pb_slot list option" where
  "pb_decode_inner fs slots bs =
     (if bs = [] then Some slots
      else (case pb_decode_tag bs of
          None \<Rightarrow> None
        | Some (wire_type, tag, bs) \<Rightarrow>
            if tag = 0 then None
            else (case pb_field_iter_find fs tag of
                None \<Rightarrow>
                  (case pb_skip_field wire_type bs of
                     None \<Rightarrow> None
                   | Some bs \<Rightarrow> pb_decode_inner fs slots bs)
              | Some i \<Rightarrow>
                  let slots = pb_select_field fs slots i in
                  (case (field_type (fs ! i), snd (slots ! i)) of
                     (MESSAGE submsg_desc, V_msg submsg) \<Rightarrow>
                       if wire_type \<noteq> PB_WT_STRING then None
                       else (case pb_make_string_substream bs of
                           None \<Rightarrow> None
                         | Some (substream, bs) \<Rightarrow>
                             (case pb_decode_inner submsg_desc submsg substream of
                                None \<Rightarrow> None
                              | Some submsg \<Rightarrow>
                                  pb_decode_inner fs (slots[i := (True, V_msg submsg)]) bs))
                   | (type, _) \<Rightarrow>
                       (case decode_basic_field type wire_type bs of
                          None \<Rightarrow> None
                        | Some (v, bs) \<Rightarrow> pb_decode_inner fs (slots[i := (True, v)]) bs)))))"
  by pat_completeness auto

lemma pb_read_length: "pb_read n bs = Some (b, rest) \<Longrightarrow> length b \<le> length bs \<and> length rest \<le> length bs"
  by (auto simp: pb_read_def split: if_splits)

lemma pb_decode_tag_shorter: "pb_decode_tag bs = Some (wt, tag, rest) \<Longrightarrow> length rest < length bs"
  by (auto simp: pb_decode_tag_def split: option.splits dest: pb_decode_varint32_shorter)

lemma substream_shorter:
  "pb_make_string_substream bs = Some (b, rest) \<Longrightarrow> length b < length bs \<and> length rest < length bs"
  by (fastforce simp: pb_make_string_substream_def split: option.splits
      dest: pb_decode_varint32_shorter pb_read_length)

lemma pb_skip_field_shorter: "pb_skip_field wt bs = Some rest \<Longrightarrow> length rest \<le> length bs"
  by (auto simp: pb_skip_field_def split: if_splits
      dest: pb_skip_varint_shorter pb_read_length substream_shorter)

lemma decode_basic_field_shorter:
  "decode_basic_field type wt bs = Some (v, rest) \<Longrightarrow> length rest < length bs"
  by (cases type)
    (fastforce simp: pb_dec_uint32_def pb_dec_bytes_def pb_dec_string_def Let_def
      split: if_splits option.splits
      dest: pb_decode_varint_shorter pb_decode_varint32_shorter pb_read_length)+

termination pb_decode_inner
  by (relation "measure (\<lambda>(fs, slots, bs). length bs)")
    (fastforce dest: pb_decode_tag_shorter substream_shorter pb_skip_field_shorter
      decode_basic_field_shorter)+

definition pb_decode :: "pb_field list \<Rightarrow> bytes \<Rightarrow> pb_slot list option" where
  "pb_decode fs bs = pb_decode_inner fs (map pb_zero_slot fs) bs"

declare pb_decode_inner.simps [simp del]

end
