(* ===== verification/Nanopb_Codec.thy ===== *)
theory Nanopb_Codec
  imports Nanopb
begin

text \<open>
  The encoder of nanopb writes exactly the protobuf wire format of a struct (\<open>wire_val\<close>, the reference),
  the decoder reads it back, whatever it reads it stores only what fits the struct, and the wire format
  is never longer than the bound that the generator computes for a descriptor.
\<close>

subsection \<open>Structs and descriptors\<close>

text \<open>A struct fits its descriptor: the values have the types of the fields, arrays hold what they have
  room for, at most one member of the oneof is selected.\<close>

definition selected :: "pb_field list \<Rightarrow> pb_slot list \<Rightarrow> nat \<Rightarrow> bool" where
  "selected fs slots i \<longleftrightarrow> field_label (fs ! i) = ONEOF \<and> fst (slots ! i)"

definition one_member :: "pb_field list \<Rightarrow> pb_slot list \<Rightarrow> bool" where
  "one_member fs slots \<longleftrightarrow>
     (\<forall>i < length fs. \<forall>j < length fs. selected fs slots i \<and> selected fs slots j \<longrightarrow> i = j)"

fun fits :: "pb_type \<Rightarrow> pb_val \<Rightarrow> bool" and fits_slots :: "pb_field list \<Rightarrow> pb_slot list \<Rightarrow> bool" where
  "fits (UENUM _) (V_uint32 _) \<longleftrightarrow> True"
| "fits UINT32 (V_uint32 _) \<longleftrightarrow> True"
| "fits UINT64 (V_uint64 _) \<longleftrightarrow> True"
| "fits INT32 (V_int32 _) \<longleftrightarrow> True"
| "fits (BYTES n) (V_data bs) \<longleftrightarrow> length bs \<le> n"
| "fits (STRING n) (V_data bs) \<longleftrightarrow> length bs < n \<and> 0 \<notin> set bs"
| "fits (MESSAGE fs) (V_msg slots) \<longleftrightarrow> fits_slots fs slots \<and> one_member fs slots"
| "fits _ _ \<longleftrightarrow> False"
| "fits_slots [] slots \<longleftrightarrow> slots = []"
| "fits_slots (f # fs) (slot # slots) \<longleftrightarrow>
     (field_label f = SINGULAR \<longrightarrow> fst slot) \<and> fits (field_type f) (snd slot) \<and> fits_slots fs slots"
| "fits_slots _ [] \<longleftrightarrow> False"

text \<open>A descriptor as the generator makes it.\<close>

fun ok_type :: "pb_type \<Rightarrow> bool" and ok_fields :: "pb_field list \<Rightarrow> bool" where
  "ok_type (MESSAGE fs) \<longleftrightarrow> ok_fields fs \<and> distinct (map field_tag fs)"
| "ok_type (BYTES n) \<longleftrightarrow> n \<le> 65535"
| "ok_type (STRING n) \<longleftrightarrow> n > 0"
| "ok_type _ \<longleftrightarrow> True"
| "ok_fields [] \<longleftrightarrow> True"
| "ok_fields (f # fs) \<longleftrightarrow> 0 < field_tag f \<and> field_tag f < 2 ^ 29 \<and> ok_type (field_type f) \<and> ok_fields fs"

lemma fits_slots_length: "fits_slots fs slots \<Longrightarrow> length slots = length fs"
  by (induction fs slots rule: fits_fits_slots.induct(2) [where P = "\<lambda>_ _. True"]) auto

lemma fits_slots_Nil [simp]: "fits_slots fs [] \<longleftrightarrow> fs = []"
  by (cases fs) simp_all

lemma fits_slots_iff:
  "fits_slots fs slots \<longleftrightarrow> length slots = length fs \<and>
     (\<forall>i < length fs. (field_label (fs ! i) = SINGULAR \<longrightarrow> fst (slots ! i)) \<and>
       fits (field_type (fs ! i)) (snd (slots ! i)))"
proof (induction fs arbitrary: slots)
  case (Cons f fs)
  then show ?case by (cases slots) (auto simp: All_less_Suc2)
qed simp

lemma ok_fields_nth:
  "ok_fields fs \<Longrightarrow> i < length fs \<Longrightarrow>
     0 < field_tag (fs ! i) \<and> field_tag (fs ! i) < 2 ^ 29 \<and> ok_type (field_type (fs ! i))"
  by (induction fs arbitrary: i) (auto simp: nth_Cons split: nat.splits)

lemma one_member_Cons:
  "one_member (f # fs) (slot # slots) \<longleftrightarrow> one_member fs slots \<and>
     (field_label f = ONEOF \<and> fst slot \<longrightarrow> (\<forall>j < length fs. \<not> selected fs slots j))"
  by (auto simp: one_member_def selected_def All_less_Suc2)

subsection \<open>The wire format\<close>

definition wire_tag :: "pb_type \<Rightarrow> nat \<Rightarrow> bytes" where
  "wire_tag type tag = leb128 (8 * tag + unat (pb_wiretype type))"

fun wire_val :: "pb_type \<Rightarrow> pb_val \<Rightarrow> bytes" and wire_slots :: "pb_field list \<Rightarrow> pb_slot list \<Rightarrow> bytes" where
  "wire_val type (V_uint32 w) = leb128 (unat w)"
| "wire_val type (V_uint64 w) = leb128 (unat w)"
| "wire_val type (V_int32 w) = leb128 (unat (scast w :: uint64))"
| "wire_val type (V_data bs) = leb128 (length bs) @ bs"
| "wire_val (MESSAGE fs) (V_msg slots) = leb128 (length (wire_slots fs slots)) @ wire_slots fs slots"
| "wire_val _ (V_msg _) = []"
| "wire_slots (f # fs) (slot # slots) =
     (if pb_check_proto3_default_value f slot then []
      else wire_tag (field_type f) (field_tag f) @ wire_val (field_type f) (snd slot)) @ wire_slots fs slots"
| "wire_slots _ _ = []"

subsection \<open>The encoder writes it\<close>

definition push :: "pb_ostream \<Rightarrow> bytes \<Rightarrow> pb_ostream" where
  "push os b = os\<lparr>os_written := os_written os + length b,
                  os_out := if os_sizing os then os_out os else os_out os @ b\<rparr>"

text \<open>A piece of the encoder appends \<open>b\<close>, and fails exactly when the buffer has no room for it.\<close>

definition writes :: "(pb_ostream \<Rightarrow> pb_ostream option) \<Rightarrow> bytes \<Rightarrow> bool" where
  "writes e b \<longleftrightarrow> (\<forall>os. (os_sizing os \<or> os_written os \<le> os_max_size os) \<longrightarrow>
     e os = (if os_sizing os \<or> os_written os + length b \<le> os_max_size os then Some (push os b) else None))"

lemma writesD:
  assumes "writes e b" and "os_sizing os \<or> os_written os \<le> os_max_size os"
  shows "e os = (if os_sizing os \<or> os_written os + length b \<le> os_max_size os then Some (push os b) else None)"
  using assms unfolding writes_def by blast

lemma writes_pb_write: "writes (\<lambda>os. pb_write os b (length b)) b"
  by (auto simp: writes_def pb_write_def push_def)

lemma writes_nothing: "writes Some []"
  by (auto simp: writes_def push_def)

lemma writes_seq:
  assumes "writes e b" and "writes e' b'"
  shows "writes (\<lambda>os. case e os of None \<Rightarrow> None | Some os \<Rightarrow> e' os) (b @ b')"
  using assms by (auto simp: writes_def push_def)

lemma writes_varint: "writes (\<lambda>os. pb_encode_varint os v) (leb128 (unat v))"
  unfolding pb_encode_varint_def pb_varint_leb128 by (rule writes_pb_write)

lemma writes_length: "n < 2 ^ 64 \<Longrightarrow> writes (\<lambda>os. pb_encode_varint os (of_nat n)) (leb128 n)"
  using writes_varint [of "of_nat n"] by (simp add: unat_of_nat)

lemma writes_string:
  "length b < 2 ^ 64 \<Longrightarrow> writes (\<lambda>os. pb_encode_string os b) (leb128 (length b) @ b)"
  unfolding pb_encode_string_def by (intro writes_seq writes_length writes_pb_write)

lemma writes_tag:
  assumes "tag < 2 ^ 29"
  shows "writes (\<lambda>os. pb_encode_tag_for_field os type tag) (wire_tag type tag)"
proof -
  let ?wt = "unat (pb_wiretype type)"
  have wt: "?wt < 8" by (cases type) simp_all
  have "push_bit 3 (of_nat tag) OR ucast (pb_wiretype type) = (of_nat (?wt + tag * 8) :: uint64)"
    using word_or_push_bit [of ?wt 3 tag, where 'a = 64] wt by (simp add: or.commute)
  moreover have "unat (of_nat (?wt + tag * 8) :: uint64) = 8 * tag + ?wt"
    using assms wt by (simp only: unat_of_nat) simp
  ultimately show ?thesis
    using writes_varint [of "push_bit 3 (of_nat tag) OR ucast (pb_wiretype type)"]
    by (simp only: pb_encode_tag_for_field_def pb_encode_tag_def wire_tag_def)
qed

lemma writes_submessage:
  assumes "writes (pb_encode fs slots) b" and "length b < 2 ^ 64"
  shows "writes (pb_encode_submessage fs slots) (leb128 (length b) @ b)"
  unfolding writes_def
proof (intro allI impI)
  fix os :: pb_ostream
  assume os: "os_sizing os \<or> os_written os \<le> os_max_size os"
  let ?len = "leb128 (length b)"
  have size: "pb_encode fs slots PB_OSTREAM_SIZING = Some (push PB_OSTREAM_SIZING b)"
    using assms(1) by (simp add: writes_def PB_OSTREAM_SIZING_def)
  have len: "pb_encode_varint os (of_nat (length b)) =
      (if os_sizing os \<or> os_written os + length ?len \<le> os_max_size os then Some (push os ?len) else None)"
    by (rule writesD [OF writes_length [OF assms(2)] os])
  have sub: "pb_encode fs slots \<lparr>os_sizing = False, os_max_size = length b, os_written = 0, os_out = out\<rparr> =
      Some \<lparr>os_sizing = False, os_max_size = length b, os_written = length b, os_out = out @ b\<rparr>" for out
    using assms(1) by (simp add: writes_def push_def)
  show "pb_encode_submessage fs slots os =
      (if os_sizing os \<or> os_written os + length (?len @ b) \<le> os_max_size os
       then Some (push os (?len @ b)) else None)"
    using size len sub os
    by (auto simp: push_def pb_write_def PB_OSTREAM_SIZING_def Let_def)
qed

declare encode_basic_field.simps [simp del] pb_encode_submessage.simps [simp del]

lemma unat_ucast_32_64 [simp]: "unat (ucast (w :: uint32) :: uint64) = unat w"
proof -
  have "unat w < 2 ^ 32" using unsigned_less [of w] by simp
  then have "unat w < 2 ^ 64" by simp
  then show ?thesis by (simp add: unsigned_ucast_eq take_bit_nat_eq_self)
qed

lemma writes_uint32: "writes (\<lambda>os. pb_encode_varint os (ucast (w :: uint32))) (leb128 (unat w))"
  using writes_varint [of "ucast w"] by simp

lemma encode_field_writes:
  assumes "\<not> pb_check_proto3_default_value f slot \<Longrightarrow>
      writes (encode_basic_field (field_type f) (field_tag f) (snd slot)) b"
    and "field_label f = SINGULAR \<longrightarrow> fst slot"
  shows "writes (encode_field f slot) (if pb_check_proto3_default_value f slot then [] else b)"
proof -
  obtain label type name tag has v where f: "f = Field label type name tag" "slot = (has, v)"
    by (cases f, cases slot) blast
  have "encode_field f slot os =
    (if pb_check_proto3_default_value f slot then Some os else encode_basic_field type tag v os)" for os
    using assms(2) f by (cases label) auto
  then have "encode_field f slot =
      (if pb_check_proto3_default_value f slot then Some else encode_basic_field type tag v)" by auto
  with assms(1) f show ?thesis by (simp add: writes_nothing)
qed

lemma encode_writes:
  "fits t v \<Longrightarrow> tag < 2 ^ 29 \<Longrightarrow> ok_type t \<Longrightarrow> length (wire_val t v) < 2 ^ 64 \<Longrightarrow>
     writes (encode_basic_field t tag v) (wire_tag t tag @ wire_val t v)"
  "fits_slots fs slots \<Longrightarrow> ok_fields fs \<Longrightarrow> length (wire_slots fs slots) < 2 ^ 64 \<Longrightarrow>
     writes (pb_encode fs slots) (wire_slots fs slots)"
proof (induction t v and fs slots arbitrary: tag rule: fits_fits_slots.induct)
  case (6 n bs)
  then have "n \<noteq> 0" "\<not> length bs > n - 1" by auto
  with 6 show ?case
    unfolding encode_basic_field.simps [abs_def]
    by (intro writes_seq writes_tag) (auto intro!: writes_string)
next
  case (7 fs slots)
  then show ?case
    unfolding encode_basic_field.simps [abs_def]
    by (intro writes_seq writes_tag) (auto intro!: writes_submessage)
next
  case (9 slots)
  then show ?case by (simp add: writes_def push_def)
next
  case (10 f fs slot slots)
  have "writes (encode_field f slot)
      (if pb_check_proto3_default_value f slot then []
       else wire_tag (field_type f) (field_tag f) @ wire_val (field_type f) (snd slot))"
    by (rule encode_field_writes) (use 10 in auto)
  moreover have "writes (pb_encode fs slots) (wire_slots fs slots)" using 10 by auto
  ultimately show ?case
    using writes_seq by (simp only: pb_encode.simps wire_slots.simps)
qed (unfold encode_basic_field.simps [abs_def], auto intro!: writes_seq writes_tag writes_varint writes_uint32 writes_string)

subsection \<open>The encoder stays in its buffer\<close>

text \<open>Also for a struct that does not fit its descriptor, a call that succeeds has appended what it counts,
  inside the buffer.\<close>

definition extends :: "pb_ostream \<Rightarrow> pb_ostream \<Rightarrow> bool" where
  "extends os os' \<longleftrightarrow> os_sizing os' = os_sizing os \<and> os_max_size os' = os_max_size os \<and>
     os_written os \<le> os_written os' \<and>
     (\<not> os_sizing os \<longrightarrow> (os_written os \<le> os_max_size os \<longrightarrow> os_written os' \<le> os_max_size os) \<and>
        length (os_out os') + os_written os = length (os_out os) + os_written os')"

lemma extends_refl [simp]: "extends os os"
  by (simp add: extends_def)

lemma extends_trans [trans]: "extends os os' \<Longrightarrow> extends os' os'' \<Longrightarrow> extends os os''"
  by (auto simp: extends_def)

lemma extends_write: "pb_write os b n = Some os' \<Longrightarrow> os_sizing os \<or> length b = n \<Longrightarrow> extends os os'"
  by (auto simp: pb_write_def extends_def split: if_splits)

lemma extends_varint: "pb_encode_varint os v = Some os' \<Longrightarrow> extends os os' \<and> os_written os < os_written os'"
  by (auto simp: pb_encode_varint_def pb_varint_leb128 pb_write_def extends_def split: if_splits)

lemma extends_string: "pb_encode_string os b = Some os' \<Longrightarrow> extends os os'"
  by (auto simp: pb_encode_string_def split: option.splits
      dest!: extends_varint dest: extends_write intro: extends_trans)

lemma extends_tag:
  "pb_encode_tag_for_field os t tag = Some os' \<Longrightarrow> extends os os' \<and> os_written os < os_written os'"
  by (simp add: pb_encode_tag_for_field_def pb_encode_tag_def extends_varint)

lemma extends_submessage:
  assumes "\<And>os os'. pb_encode fs slots os = Some os' \<Longrightarrow> extends os os'"
    and "pb_encode_submessage fs slots os = Some os'"
  shows "extends os os'"
proof -
  from assms(2) obtain sub os1 where sub: "pb_encode fs slots PB_OSTREAM_SIZING = Some sub"
    and v: "pb_encode_varint os (of_nat (os_written sub)) = Some os1"
    by (auto simp: pb_encode_submessage.simps Let_def split: option.splits)
  note run = assms(2) [unfolded pb_encode_submessage.simps sub option.case Let_def v]
  have "extends os1 os'"
  proof (cases "os_sizing os1")
    case True
    with run show ?thesis by (auto intro: extends_write)
  next
    case False
    with run obtain sub' where s: "pb_encode fs slots \<lparr>os_sizing = False, os_max_size = os_written sub,
        os_written = 0, os_out = os_out os1\<rparr> = Some sub'" "\<not> os_max_size os1 < os_written os1 + os_written sub"
      "os' = os1\<lparr>os_written := os_written os1 + os_written sub', os_out := os_out sub'\<rparr>"
      by (auto split: if_splits option.splits)
    with assms(1) [OF s(1)] False show ?thesis by (auto simp: extends_def)
  qed
  with extends_varint [OF v] extends_trans show ?thesis by blast
qed

lemma extends_plain:
  "pb_enc_varint v os = Some os' \<Longrightarrow> extends os os'"
  "pb_enc_bytes n v os = Some os' \<Longrightarrow> extends os os'"
  "pb_enc_string n v os = Some os' \<Longrightarrow> extends os os'"
  by (cases v; auto split: if_splits dest: extends_varint extends_string)+

lemma extends_basic_field:
  assumes "\<And>fs slots os os'. t = MESSAGE fs \<Longrightarrow> v = V_msg slots \<Longrightarrow> pb_encode fs slots os = Some os' \<Longrightarrow> extends os os'"
    and "encode_basic_field t tag v os = Some os'"
  shows "extends os os' \<and> os_written os < os_written os'"
proof -
  from assms(2) obtain os1 where tag: "pb_encode_tag_for_field os t tag = Some os1"
    by (auto simp: encode_basic_field.simps split: option.splits)
  note run = assms(2) [unfolded encode_basic_field.simps tag option.case]
  have "extends os1 os'"
  proof (cases "\<exists>fs slots. t = MESSAGE fs \<and> v = V_msg slots")
    case True
    then obtain fs slots where m: "t = MESSAGE fs" "v = V_msg slots" by blast
    with run have "pb_encode_submessage fs slots os1 = Some os'" by simp
    with assms(1) [OF m] show ?thesis by (rule extends_submessage)
  next
    case False
    with run show ?thesis
      by (auto split: pb_type.splits pb_val.splits dest: extends_plain)
  qed
  with extends_tag [OF tag] show ?thesis using extends_trans by (auto simp: extends_def)
qed

lemma encode_extends:
  "encode_basic_field t tag v os = Some os' \<Longrightarrow> extends os os' \<and> os_written os < os_written os'"
  "pb_encode fs slots os = Some os' \<Longrightarrow> extends os os'"
proof (induction t v and fs slots arbitrary: tag os os' and os os' rule: wire_val_wire_slots.induct)
  case (7 f fs slot slots)
  from "7.prems" obtain os1 where os1: "encode_field f slot os = Some os1" "pb_encode fs slots os1 = Some os'"
    by (auto split: option.splits)
  have "extends os os1"
    using os1(1) "7.IH"(1) by (cases f; cases slot; cases "field_label f") (auto split: if_splits)
  with "7.IH"(2) [OF os1(2)] extends_trans show ?case by blast
qed ((erule extends_basic_field [rotated]; simp)+, simp_all)

text \<open>A oneof with a selected member is not empty on the wire.\<close>

lemma encode_selected:
  "pb_encode fs slots os = Some os' \<Longrightarrow> length slots = length fs \<Longrightarrow> i < length fs \<Longrightarrow> selected fs slots i \<Longrightarrow>
     os_written os < os_written os'"
proof (induction fs arbitrary: slots os i)
  case (Cons f fs)
  then obtain slot rest where s: "slots = slot # rest" by (cases slots) auto
  with Cons.prems(1) obtain os1 where os1: "encode_field f slot os = Some os1" "pb_encode fs rest os1 = Some os'"
    by (auto split: option.splits)
  have "extends os1 os'" by (rule encode_extends(2) [OF os1(2)])
  show ?case
  proof (cases i)
    case 0
    with Cons.prems(4) s obtain t name tag v where "f = Field ONEOF t name tag" "slot = (True, v)"
      by (cases f; cases slot) (auto simp: selected_def)
    with os1(1) encode_extends(1) [of t tag v os os1] \<open>extends os1 os'\<close> show ?thesis by (auto simp: extends_def)
  next
    case (Suc k)
    have "extends os os1"
      using os1(1) encode_extends(1) by (cases f; cases slot) (auto split: if_splits)
    moreover have "os_written os1 < os_written os'"
      using Cons.IH [OF os1(2), of k] Cons.prems(2-4) s Suc by (simp add: selected_def)
    ultimately show ?thesis by (auto simp: extends_def)
  qed
qed simp

subsection \<open>The decoder reads it\<close>

text \<open>What arrives of a value: a field that is not present arrives as zero.\<close>

fun seen :: "pb_type \<Rightarrow> pb_val \<Rightarrow> pb_val" and seen_slots :: "pb_field list \<Rightarrow> pb_slot list \<Rightarrow> pb_slot list" where
  "seen (MESSAGE fs) (V_msg slots) = V_msg (seen_slots fs slots)"
| "seen _ v = v"
| "seen_slots (f # fs) (slot # slots) =
     (if fst slot then (True, seen (field_type f) (snd slot)) else (False, pb_zero (field_type f))) #
     seen_slots fs slots"
| "seen_slots _ _ = []"

lemma decode_wire_tag:
  assumes "tag < 2 ^ 29"
  shows "pb_decode_tag (wire_tag type tag @ bs) = Some (pb_wiretype type, of_nat tag, bs)"
proof -
  let ?wt = "unat (pb_wiretype type)" and ?w = "of_nat (8 * tag + unat (pb_wiretype type)) :: uint32"
  have wt: "?wt < 8" by (cases type) simp_all
  have n: "8 * tag + ?wt < 2 ^ 32" using assms wt by simp
  then have w: "unat ?w = 8 * tag + ?wt" by (simp only: unat_of_nat) simp
  have "unat (?w AND 7) = ?wt" using unat_and_mask [of ?w 3] wt unfolding w by (simp add: mask_eq_exp_minus_1)
  moreover have "unat (drop_bit 3 ?w) = unat (of_nat tag :: uint32)"
    unfolding unat_drop_bit_div w using wt assms by (simp add: unat_of_nat)
  ultimately have "?w AND 7 = pb_wiretype type" "drop_bit 3 ?w = of_nat tag"
    by (simp_all only: word_unat_eq_iff)
  with n show ?thesis by (simp only: pb_decode_tag_def wire_tag_def pb_decode_varint32_leb128) simp
qed

lemma pb_field_iter_find_nth:
  assumes "distinct (map field_tag fs)" and "i < length fs" and "unat tag = field_tag (fs ! i)"
  shows "pb_field_iter_find fs tag = Some i"
  using assms
proof (induction fs arbitrary: i)
  case (Cons f fs)
  then show ?case by (cases i) (auto simp: nth_mem)
qed simp

lemma pb_read_append: "length b = n \<Longrightarrow> pb_read n (b @ bs) = Some (b, bs)"
  by (simp add: pb_read_def)

lemma decode_wire_data:
  assumes "length b < 2 ^ 32"
  shows "pb_decode_varint32 ((leb128 (length b) @ b) @ bs) = Some (of_nat (length b), b @ bs)"
    and "pb_make_string_substream ((leb128 (length b) @ b) @ bs) = Some (b, bs)"
    and "unat (of_nat (length b) :: uint32) = length b"
proof -
  show n: "unat (of_nat (length b) :: uint32) = length b" using assms by (simp add: unat_of_nat)
  show d: "pb_decode_varint32 ((leb128 (length b) @ b) @ bs) = Some (of_nat (length b), b @ bs)"
    using assms by (simp add: pb_decode_varint32_leb128)
  show "pb_make_string_substream ((leb128 (length b) @ b) @ bs) = Some (b, bs)"
    unfolding pb_make_string_substream_def d using n by (simp add: pb_read_append)
qed

lemma decode_wire_uint32: "pb_dec_uint32 (leb128 (unat (w :: uint32)) @ bs) = Some (V_uint32 w, bs)"
proof -
  have "unat w < 2 ^ 32" using unsigned_less [of w] by simp
  then have "pb_decode_varint (leb128 (unat w) @ bs) = Some (ucast w, bs)"
    by (simp add: pb_decode_varint_leb128)
  moreover have "ucast (ucast w :: uint64) = w" by (rule bit_word_eqI) (simp add: bit_simps)
  ultimately show ?thesis by (simp add: pb_dec_uint32_def)
qed

lemma decode_wire_val:
  assumes "fits t v" and "\<And>fs. t \<noteq> MESSAGE fs" and "ok_type t" and "length (wire_val t v) < 2 ^ 32"
  shows "decode_basic_field t (pb_wiretype t) (wire_val t v @ bs) = Some (v, bs)"
proof (cases t)
  case INT32
  with assms(1) obtain w where v: "v = V_int32 w" by (cases v) auto
  have "unat (scast w :: uint64) < 2 ^ 64" using unsigned_less [of "scast w :: uint64"] by simp
  moreover have "ucast (scast w :: uint64) = w" by (rule bit_word_eqI) (auto simp: bit_simps)
  ultimately show ?thesis using INT32 v by (simp add: pb_decode_varint_leb128)
next
  case UINT64
  with assms(1) obtain w where v: "v = V_uint64 w" by (cases v) auto
  have "unat w < 2 ^ 64" using unsigned_less [of w] by simp
  with UINT64 v show ?thesis by (simp add: pb_decode_varint_leb128)
next
  case (BYTES n)
  with assms(1) obtain b where v: "v = V_data b" by (cases v) auto
  with assms(4) have "length b < 2 ^ 32" by simp
  note data = decode_wire_data [OF this]
  show ?thesis using BYTES v assms(1,3) data(3)
    by (simp only: decode_basic_field.simps pb_dec_bytes_def wire_val.simps data(1)) (simp add: pb_read_append)
next
  case (STRING n)
  with assms(1) obtain b where v: "v = V_data b" by (cases v) auto
  have "length (leb128 (length b)) > 0" by simp
  with assms(4) v have l: "length b < 2 ^ 32 - 1" unfolding v wire_val.simps length_append by linarith
  then have "length b < 2 ^ 32" by simp
  note data = decode_wire_data [OF this]
  have "unat (- 1 :: uint32) = 2 ^ 32 - 1" by (simp add: unsigned_minus_1_eq_mask mask_eq_exp_minus_1)
  with l data(3) have "(of_nat (length b) :: uint32) \<noteq> - 1" by (metis less_irrefl)
  then show ?thesis using STRING v assms(1) data(3) l
    by (simp only: decode_basic_field.simps pb_dec_string_def wire_val.simps data(1))
      (auto simp: pb_read_append takeWhile_eq_all_conv)
qed (use assms in \<open>cases v; auto simp: decode_wire_uint32\<close>)+

text \<open>Selecting a field of a struct whose other union members are empty.\<close>

definition idle :: "pb_field list \<Rightarrow> pb_slot list \<Rightarrow> nat \<Rightarrow> bool" where
  "idle fs slots i \<longleftrightarrow> field_label (fs ! i) = ONEOF \<longrightarrow>
     (\<forall>j < length fs. j \<noteq> i \<longrightarrow> field_label (fs ! j) = ONEOF \<longrightarrow> slots ! j = pb_zero_slot (fs ! j))"

lemma pb_zero_slot_eq: "pb_zero_slot f = (field_label f = SINGULAR, pb_zero (field_type f))"
  by (cases f) simp

lemma select_zero:
  assumes "length slots = length fs" and "i < length fs" and "slots ! i = pb_zero_slot (fs ! i)"
    and "idle fs slots i"
  shows "pb_select_field fs slots i = slots[i := (True, pb_zero (field_type (fs ! i)))]"
proof -
  obtain label type name tag where f: "fs ! i = Field label type name tag" by (cases "fs ! i")
  show ?thesis
  proof (cases "label = ONEOF")
    case True
    have "(map2 (\<lambda>f s. if field_label f = ONEOF then (False, snd (pb_zero_slot f)) else s) fs slots)
        [i := (True, pb_zero type)] = slots[i := (True, pb_zero type)]"
      using assms True f
      by (intro nth_equalityI) (auto simp: nth_list_update idle_def pb_zero_slot_eq)
    with True f assms(3) show ?thesis by (simp add: pb_select_field_def)
  next
    case False
    with f assms(3) show ?thesis by (simp add: pb_select_field_def)
  qed
qed

text \<open>One field of a message, read into an empty slot.\<close>

lemma decode_wire_field:
  assumes "length slots = length fs" and "i < length fs" and "slots ! i = pb_zero_slot (fs ! i)"
    and "idle fs slots i" and "fs ! i = Field label type name tag"
    and "ok_fields fs" and "distinct (map field_tag fs)" and "fits type v" and "length (wire_val type v) < 2 ^ 32"
    and "\<And>sub subs. type = MESSAGE sub \<Longrightarrow> v = V_msg subs \<Longrightarrow>
      pb_decode_inner sub (map pb_zero_slot sub) (wire_slots sub subs) = Some (seen_slots sub subs)"
  shows "pb_decode_inner fs slots ((wire_tag type tag @ wire_val type v) @ bs) =
    pb_decode_inner fs (slots[i := (True, seen type v)]) bs"
proof -
  have tag: "0 < tag" "tag < 2 ^ 29" "ok_type type" using ok_fields_nth [OF assms(6,2)] assms(5) by auto
  have u: "unat (of_nat tag :: uint32) = tag" using tag(2) by (simp add: unat_of_nat)
  have find: "pb_field_iter_find fs (of_nat tag) = Some i"
    using assms(2,5,7) u by (intro pb_field_iter_find_nth) auto
  have nz: "(of_nat tag :: uint32) \<noteq> 0" using u tag(1) by (metis unat_0 less_irrefl)
  note sel = select_zero [OF assms(1-4)]
  have ne: "(wire_tag type tag @ wire_val type v) @ bs \<noteq> []" by (simp add: wire_tag_def)
  show ?thesis
  proof (cases "\<exists>sub. type = MESSAGE sub")
    case True
    with assms(8) obtain sub subs where m: "type = MESSAGE sub" "v = V_msg subs" by (cases v) auto
    have "length (wire_slots sub subs) < 2 ^ 32" using assms(9) m by simp
    note data = decode_wire_data(2) [OF this, of bs]
    show ?thesis
      using ne m assms(1,2,5) sel find nz assms(10) [OF m] data
      by (subst pb_decode_inner.simps) (simp add: decode_wire_tag [OF tag(2), simplified] Let_def)
  next
    case False
    then have val: "decode_basic_field type (pb_wiretype type) (wire_val type v @ bs) = Some (v, bs)"
      using decode_wire_val [OF assms(8) _ tag(3) assms(9)] by blast
    have "seen type v = v" using False by (cases type) (auto split: pb_val.splits)
    with False ne assms(1,2,5) sel find nz val show ?thesis
      by (subst pb_decode_inner.simps)
        (auto simp: decode_wire_tag [OF tag(2), simplified] Let_def split: pb_type.splits)
  qed
qed

text \<open>A whole message: fields in their order, absent ones stay zero.\<close>

definition seen_slot :: "pb_field \<Rightarrow> pb_slot \<Rightarrow> pb_slot" where
  "seen_slot f slot =
     (if fst slot then (True, seen (field_type f) (snd slot)) else (False, pb_zero (field_type f)))"

lemma seen_slots_nth:
  "length slots = length fs \<Longrightarrow> length (seen_slots fs slots) = length fs \<and>
     (\<forall>i < length fs. seen_slots fs slots ! i = seen_slot (fs ! i) (slots ! i))"
proof (induction fs arbitrary: slots)
  case (Cons f fs)
  then show ?case by (cases slots) (auto simp: All_less_Suc2 seen_slot_def)
qed simp

lemma seen_slots_map:
  "(\<And>f. f \<in> set fs \<Longrightarrow> seen_slot f (pb_zero_slot f) = pb_zero_slot f) \<Longrightarrow>
     seen_slots fs (map pb_zero_slot fs) = map pb_zero_slot fs"
  by (induction fs) (simp_all add: seen_slot_def)

lemma seen_zero [simp]: "seen t (pb_zero t) = pb_zero t" "seen_slot f (pb_zero_slot f) = pb_zero_slot f"
  by (induction t and f rule: pb_zero_pb_zero_slot.induct) (simp_all add: seen_slots_map, simp add: seen_slot_def)

lemma default_seen:
  "pb_check_proto3_default_value f slot \<Longrightarrow> (field_label f = SINGULAR \<longrightarrow> fst slot) \<Longrightarrow>
     fits (field_type f) (snd slot) \<Longrightarrow> seen_slot f slot = pb_zero_slot f"
  "pb_default_fields fs slots \<Longrightarrow> fits_slots fs slots \<Longrightarrow> seen_slots fs slots = map pb_zero_slot fs"
  by (induction f slot and fs slots rule: pb_check_proto3_default_value_pb_default_fields.induct)
    (auto simp: seen_slot_def pb_zero_slot_eq)

lemma wire_slots_drop:
  "length (wire_slots (drop k fs) (drop k slots)) \<le> length (wire_slots fs slots)"
proof (induction k arbitrary: fs slots)
  case (Suc k)
  show ?case
  proof (cases "fs = [] \<or> slots = []")
    case False
    then obtain f fs' slot slots' where "fs = f # fs'" "slots = slot # slots'" by (meson list.exhaust)
    with Suc.IH [of fs' slots'] show ?thesis by simp
  qed auto
qed simp

text \<open>The struct after the first \<open>k\<close> fields.\<close>

definition upto_field :: "pb_field list \<Rightarrow> pb_slot list \<Rightarrow> nat \<Rightarrow> pb_slot list" where
  "upto_field fs slots k = take k (seen_slots fs slots) @ drop k (map pb_zero_slot fs)"

lemma upto_field:
  assumes "length slots = length fs" and "k < length fs"
  shows "length (upto_field fs slots k) = length fs"
    and "upto_field fs slots k ! k = pb_zero_slot (fs ! k)"
    and "(upto_field fs slots k)[k := seen_slot (fs ! k) (slots ! k)] = upto_field fs slots (Suc k)"
    and "one_member fs slots \<Longrightarrow> fst (slots ! k) \<Longrightarrow> idle fs (upto_field fs slots k) k"
proof -
  note seen = seen_slots_nth [OF assms(1)]
  show "length (upto_field fs slots k) = length fs"
    "upto_field fs slots k ! k = pb_zero_slot (fs ! k)"
    "(upto_field fs slots k)[k := seen_slot (fs ! k) (slots ! k)] = upto_field fs slots (Suc k)"
    using assms(2) seen
    by (simp_all add: upto_field_def nth_append list_update_append take_Suc_conv_app_nth
        Cons_nth_drop_Suc [symmetric])
  assume one: "one_member fs slots" "fst (slots ! k)"
  have "upto_field fs slots k ! j = pb_zero_slot (fs ! j)"
    if j: "j < length fs" "j \<noteq> k" "field_label (fs ! j) = ONEOF" "field_label (fs ! k) = ONEOF" for j
  proof (cases "j < k")
    case True
    have "\<not> fst (slots ! j)" using one j assms(2) unfolding one_member_def selected_def by blast
    with True j(1,3) assms(2) seen show ?thesis
      by (simp add: upto_field_def nth_append seen_slot_def pb_zero_slot_eq)
  next
    case False
    with j(1) seen show ?thesis by (simp add: upto_field_def nth_append)
  qed
  then show "idle fs (upto_field fs slots k) k" by (simp add: idle_def)
qed

lemma decode_wire_message:
  assumes ok: "ok_fields fs" "distinct (map field_tag fs)"
    and fit: "fits_slots fs slots" "one_member fs slots"
    and short: "length (wire_slots fs slots) < 2 ^ 32"
    and sub: "\<And>i sub subs. i < length fs \<Longrightarrow> field_type (fs ! i) = MESSAGE sub \<Longrightarrow> snd (slots ! i) = V_msg subs \<Longrightarrow>
      length (wire_slots sub subs) < 2 ^ 32 \<Longrightarrow>
      pb_decode_inner sub (map pb_zero_slot sub) (wire_slots sub subs) = Some (seen_slots sub subs)"
  shows "pb_decode_inner fs (map pb_zero_slot fs) (wire_slots fs slots) = Some (seen_slots fs slots)"
proof -
  note len = fits_slots_length [OF fit(1)]
  note fit_nth = fit(1) [unfolded fits_slots_iff, THEN conjunct2, rule_format]
  have "pb_decode_inner fs (upto_field fs slots k) (wire_slots (drop k fs) (drop k slots)) =
      Some (seen_slots fs slots)" if "k \<le> length fs" for k
    using that
  proof (induction k rule: inc_induct)
    case base
    then show ?case using len seen_slots_nth [OF len] by (simp add: pb_decode_inner.simps upto_field_def)
  next
    case (step k)
    then have k: "k < length fs" by simp
    note upto = upto_field [OF len k]
    obtain label type name tag where f: "fs ! k = Field label type name tag" by (cases "fs ! k")
    obtain has v where slot: "slots ! k = (has, v)" by (cases "slots ! k")
    let ?b = "if pb_check_proto3_default_value (fs ! k) (slots ! k) then [] else wire_tag type tag @ wire_val type v"
    let ?bs = "wire_slots (drop (Suc k) fs) (drop (Suc k) slots)"
    have ws: "wire_slots (drop k fs) (drop k slots) = ?b @ ?bs"
      using k len f slot by (simp add: Cons_nth_drop_Suc [symmetric])
    show ?case
    proof (cases "pb_check_proto3_default_value (fs ! k) (slots ! k)")
      case True
      then have "seen_slot (fs ! k) (slots ! k) = upto_field fs slots k ! k"
        using default_seen(1) fit_nth [OF k] upto(2) by simp
      with upto(3) have "upto_field fs slots (Suc k) = upto_field fs slots k" by (metis list_update_id)
      with step.IH ws True show ?thesis by simp
    next
      case False
      have has: "has" using False fit_nth [OF k] f slot by (cases label) auto
      have "length (wire_val type v) < 2 ^ 32" using wire_slots_drop [of k fs slots] short ws False by simp
      then have "pb_decode_inner fs (upto_field fs slots k) ((wire_tag type tag @ wire_val type v) @ ?bs) =
          pb_decode_inner fs ((upto_field fs slots k)[k := (True, seen type v)]) ?bs"
        using k upto fit(2) has f ok fit_nth [OF k] slot sub [OF k]
        by (intro decode_wire_field) auto
      with step.IH upto(3) ws False has f slot show ?thesis by (simp add: seen_slot_def)
    qed
  qed
  from this [of 0] show ?thesis by (simp add: upto_field_def)
qed

lemma decode_wire:
  "fits t v \<Longrightarrow> ok_type t \<Longrightarrow> t = MESSAGE fs \<Longrightarrow> v = V_msg slots \<Longrightarrow> length (wire_slots fs slots) < 2 ^ 32 \<Longrightarrow>
     pb_decode_inner fs (map pb_zero_slot fs) (wire_slots fs slots) = Some (seen_slots fs slots)"
proof (induction t arbitrary: v fs slots rule: measure_induct_rule [of size])
  case (less t)
  show ?case
  proof (rule decode_wire_message)
    fix i sub subs
    assume i: "i < length fs" "field_type (fs ! i) = MESSAGE sub" "snd (slots ! i) = V_msg subs"
      "length (wire_slots sub subs) < 2 ^ 32"
    have "size (fs ! i) \<le> size_list size fs" using i(1) by (intro size_list_estimation' [of "fs ! i"]) simp_all
    then have "size (MESSAGE sub) < size t" using less.prems(3) i(2) size_field_type [of "fs ! i"] by simp
    moreover have "fits (MESSAGE sub) (V_msg subs)" "ok_type (MESSAGE sub)"
      using less.prems(1-4) i ok_fields_nth [of fs i] by (auto simp: fits_slots_iff)
    ultimately show "pb_decode_inner sub (map pb_zero_slot sub) (wire_slots sub subs) = Some (seen_slots sub subs)"
      using less.IH [of "MESSAGE sub"] i(4) by blast
  qed (use less.prems in auto)
qed

text \<open>Encoding into a buffer and decoding what was written.\<close>

lemma pb_encode_decode:
  assumes "ok_type (MESSAGE fs)" and "fits (MESSAGE fs) (V_msg slots)" and "length (wire_slots fs slots) < 2 ^ 32"
  shows "map_option os_out (pb_encode fs slots (pb_ostream_from_buffer n)) =
      (if length (wire_slots fs slots) \<le> n then Some (wire_slots fs slots) else None)"
    and "pb_decode fs (wire_slots fs slots) = Some (seen_slots fs slots)"
proof -
  have "writes (pb_encode fs slots) (wire_slots fs slots)" using assms by (intro encode_writes(2)) auto
  then show "map_option os_out (pb_encode fs slots (pb_ostream_from_buffer n)) =
      (if length (wire_slots fs slots) \<le> n then Some (wire_slots fs slots) else None)"
    by (subst writesD) (auto simp: pb_ostream_from_buffer_def push_def)
  show "pb_decode fs (wire_slots fs slots) = Some (seen_slots fs slots)"
    unfolding pb_decode_def using decode_wire [OF assms(2,1) refl refl assms(3)] .
qed

subsection \<open>The decoder stores only what fits\<close>

lemma takeWhile_short: "length (takeWhile P xs) \<le> length xs" "x \<in> set (takeWhile P xs) \<Longrightarrow> P x"
  by (auto simp: length_takeWhile_le dest: set_takeWhileD)

lemma decode_basic_field_fits:
  "decode_basic_field t wt bs = Some (v, rest) \<Longrightarrow> (\<forall>fs. t \<noteq> MESSAGE fs) \<and> fits t v"
  by (cases t)
    (auto simp: pb_dec_uint32_def pb_dec_bytes_def pb_dec_string_def pb_read_def Let_def
      split: if_splits option.splits dest!: takeWhile_short(2)
      intro!: le_less_trans [OF takeWhile_short(1)])

lemma fst_zero_slot: "fst (pb_zero_slot f) \<longleftrightarrow> field_label f = SINGULAR"
  by (simp add: pb_zero_slot_eq)

lemma zero_fits: "ok_type t \<Longrightarrow> fits t (pb_zero t)"
  "ok_fields fs \<Longrightarrow> fits_slots fs (map pb_zero_slot fs)"
proof (induction t and fs rule: ok_type_ok_fields.induct)
  case (1 fs)
  then show ?case by (auto simp: one_member_def selected_def fst_zero_slot)
qed (auto simp: pb_zero_slot_eq)

lemma pb_field_iter_find_less: "pb_field_iter_find fs tag = Some i \<Longrightarrow> i < length fs"
  by (induction fs tag arbitrary: i rule: pb_field_iter_find.induct) (auto split: if_splits)

lemma select_fits:
  assumes "ok_fields fs" and "fits_slots fs slots" and "one_member fs slots" and "i < length fs"
  shows "fits_slots fs (pb_select_field fs slots i) \<and> one_member fs (pb_select_field fs slots i) \<and>
    fst (pb_select_field fs slots i ! i)"
proof -
  obtain label type name tag where f: "fs ! i = Field label type name tag" by (cases "fs ! i")
  note fit = assms(2) [unfolded fits_slots_iff]
  show ?thesis
  proof (cases "label = ONEOF \<and> \<not> fst (slots ! i)")
    case True
    have "fits (field_type (fs ! j)) (pb_zero (field_type (fs ! j)))" if "j < length fs" for j
      using zero_fits(1) ok_fields_nth [OF assms(1) that] by blast
    from this this [OF assms(4)] True f fit assms(4) show ?thesis
      by (auto simp: pb_select_field_def fits_slots_iff one_member_def selected_def nth_list_update pb_zero_slot_eq)
  next
    case False
    then have "field_label (fs ! i) = ONEOF \<Longrightarrow> fst (slots ! i)" using f by simp
    with False f fit assms(3,4) show ?thesis
      by (auto simp: pb_select_field_def fits_slots_iff one_member_def selected_def nth_list_update split: if_splits)
  qed
qed

lemma update_fits:
  assumes "fits_slots fs slots" and "one_member fs slots" and "i < length fs" and "fst (slots ! i)"
    and "fits (field_type (fs ! i)) v"
  shows "fits_slots fs (slots[i := (True, v)]) \<and> one_member fs (slots[i := (True, v)])"
  using assms by (auto simp: fits_slots_iff one_member_def selected_def nth_list_update split: if_splits)

text \<open>The runs of the decoder.\<close>

lemma pb_decode_inner_cases:
  assumes "pb_decode_inner fs slots bs = Some slots'"
  obtains (finish) "bs = []" "slots' = slots"
  | (skip) bs2 where "length bs2 < length bs" "pb_decode_inner fs slots bs2 = Some slots'"
  | (submsg) i sub subs substream subs' bs2 where "i < length fs" "field_type (fs ! i) = MESSAGE sub"
      "snd (pb_select_field fs slots i ! i) = V_msg subs"
      "length substream < length bs" "length bs2 < length bs"
      "pb_decode_inner sub subs substream = Some subs'"
      "pb_decode_inner fs ((pb_select_field fs slots i)[i := (True, V_msg subs')]) bs2 = Some slots'"
  | (basic) i v bs2 where "i < length fs" "length bs2 < length bs" "fits (field_type (fs ! i)) v"
      "pb_decode_inner fs ((pb_select_field fs slots i)[i := (True, v)]) bs2 = Some slots'"
proof -
  note run = assms [unfolded pb_decode_inner.simps [of fs slots bs]]
  show thesis
  proof (cases "bs = []")
    case True
    with run finish show thesis by simp
  next
    case False
    with run obtain wt tag bs1 where t: "pb_decode_tag bs = Some (wt, tag, bs1)" "tag \<noteq> 0"
      by (auto split: option.splits if_splits)
    note short = pb_decode_tag_shorter [OF t(1)]
    show thesis
    proof (cases "pb_field_iter_find fs tag")
      case None
      with run False t obtain bs2 where "pb_skip_field wt bs1 = Some bs2" "pb_decode_inner fs slots bs2 = Some slots'"
        by (auto split: option.splits)
      with short pb_skip_field_shorter show thesis by (intro skip [of bs2]) fastforce+
    next
      case (Some i)
      let ?sel = "pb_select_field fs slots i"
      note i = pb_field_iter_find_less [OF Some]
      show thesis
      proof (cases "\<exists>sub subs. field_type (fs ! i) = MESSAGE sub \<and> snd (?sel ! i) = V_msg subs")
        case True
        with run False t Some obtain sub subs substream bs2 subs' where
          "field_type (fs ! i) = MESSAGE sub" "snd (?sel ! i) = V_msg subs"
          "pb_make_string_substream bs1 = Some (substream, bs2)" "pb_decode_inner sub subs substream = Some subs'"
          "pb_decode_inner fs (?sel[i := (True, V_msg subs')]) bs2 = Some slots'"
          by (auto simp: Let_def split: option.splits if_splits)
        with i short substream_shorter show thesis by (intro submsg [of i sub subs substream bs2 subs']) fastforce+
      next
        case no: False
        with run False t Some obtain v bs2 where
          d: "decode_basic_field (field_type (fs ! i)) wt bs1 = Some (v, bs2)"
            "pb_decode_inner fs (?sel[i := (True, v)]) bs2 = Some slots'"
          by (auto simp: Let_def split: option.splits pb_type.splits pb_val.splits)
        with decode_basic_field_fits [OF d(1)] decode_basic_field_shorter [OF d(1)] short i show thesis
          by (intro basic [of i bs2 v]) simp_all
      qed
    qed
  qed
qed

lemma pb_decode_inner_fits:
  "pb_decode_inner fs slots bs = Some slots' \<Longrightarrow> ok_fields fs \<Longrightarrow> fits_slots fs slots \<Longrightarrow> one_member fs slots \<Longrightarrow>
     fits_slots fs slots' \<and> one_member fs slots'"
proof (induction bs arbitrary: fs slots slots' rule: measure_induct_rule [of length])
  case (less bs)
  note sel = select_fits [OF less.prems(2-4)]
  from less.prems(1) show ?case
  proof (cases rule: pb_decode_inner_cases)
    case (submsg i sub subs substream subs' bs2)
    have "ok_fields sub" "fits_slots sub subs" "one_member sub subs"
      using ok_fields_nth [OF less.prems(2) submsg(1)] sel [OF submsg(1)] submsg(1-3) by (auto simp: fits_slots_iff)
    with less.IH [OF submsg(4,6)] submsg(2) have "fits (field_type (fs ! i)) (V_msg subs')" by simp
    with update_fits [OF _ _ submsg(1)] sel [OF submsg(1)] less.IH [OF submsg(5,7) less.prems(2)]
    show ?thesis by blast
  next
    case (basic i v bs2)
    with update_fits [OF _ _ basic(1)] sel [OF basic(1)] less.IH [OF basic(2,4) less.prems(2)]
    show ?thesis by blast
  qed (use less in blast)+
qed

lemma pb_decode_fits:
  assumes "ok_type (MESSAGE fs)" and "pb_decode fs bs = Some slots"
  shows "fits (MESSAGE fs) (V_msg slots)"
  using pb_decode_inner_fits [OF assms(2) [unfolded pb_decode_def]] zero_fits(1) [OF assms(1)] assms(1) by simp

subsection \<open>The largest encoding\<close>

text \<open>
  The bound the generator computes for a type: a string of \<open>char[n]\<close> is counted with the length prefix
  of \<open>n\<close>, an enum with its largest enumerator, a oneof with its largest member.
\<close>

fun type_max :: "pb_type \<Rightarrow> nat" and plain_max :: "pb_field list \<Rightarrow> nat" and oneof_max :: "pb_field list \<Rightarrow> nat" where
  "type_max (UENUM m) = length (leb128 m)"
| "type_max INT32 = 10"
| "type_max UINT32 = 5"
| "type_max UINT64 = 10"
| "type_max (BYTES n) = length (leb128 n) + n"
| "type_max (STRING n) = length (leb128 n) + (n - 1)"
| "type_max (MESSAGE fs) =
     length (leb128 (plain_max fs + oneof_max fs)) + (plain_max fs + oneof_max fs)"
| "plain_max [] = 0"
| "plain_max (f # fs) =
     (if field_label f = ONEOF then 0
      else length (wire_tag (field_type f) (field_tag f)) + type_max (field_type f)) + plain_max fs"
| "oneof_max [] = 0"
| "oneof_max (f # fs) =
     max (if field_label f = ONEOF
          then length (wire_tag (field_type f) (field_tag f)) + type_max (field_type f) else 0) (oneof_max fs)"

text \<open>The enums of the fields that are present hold an enumerator.\<close>

fun enums_known :: "pb_type \<Rightarrow> pb_val \<Rightarrow> bool" and slots_known :: "pb_field list \<Rightarrow> pb_slot list \<Rightarrow> bool" where
  "enums_known (UENUM m) (V_uint32 w) \<longleftrightarrow> unat w \<le> m"
| "enums_known (MESSAGE fs) (V_msg slots) \<longleftrightarrow> slots_known fs slots"
| "enums_known _ _ \<longleftrightarrow> True"
| "slots_known (f # fs) (slot # slots) \<longleftrightarrow>
     (fst slot \<longrightarrow> enums_known (field_type f) (snd slot)) \<and> slots_known fs slots"
| "slots_known _ _ \<longleftrightarrow> True"

lemma leb128_mono: "m \<le> n \<Longrightarrow> length (leb128 m) \<le> length (leb128 n)"
proof (induction n arbitrary: m rule: leb128.induct)
  case (1 n)
  show ?case
  proof (cases "m < 128")
    case False
    with 1 have "length (leb128 (m div 128)) \<le> length (leb128 (n div 128))" by (intro "1.IH") (auto simp: div_le_mono)
    with False 1(2) show ?thesis by (simp add: leb128_large)
  qed (simp add: leb128_small Suc_le_eq)
qed

lemma leb128_word_length:
  "length (leb128 (unat (w :: uint32))) \<le> 5" "length (leb128 (unat (x :: uint64))) \<le> 10"
proof -
  have "unat w < 2 ^ 32" "unat x < 2 ^ 64" using unsigned_less [of w] unsigned_less [of x] by simp_all
  then show "length (leb128 (unat w)) \<le> 5" "length (leb128 (unat x)) \<le> 10"
    by (auto intro!: leb128_length)
qed

lemma wire_length:
  "fits t v \<Longrightarrow> enums_known t v \<Longrightarrow> length (wire_val t v) \<le> type_max t"
  "fits_slots fs slots \<Longrightarrow> one_member fs slots \<Longrightarrow> slots_known fs slots \<Longrightarrow>
     length (wire_slots fs slots) \<le> plain_max fs +
       (if \<exists>i < length fs. selected fs slots i then oneof_max fs else 0)"
proof (induction t v and fs slots rule: fits_fits_slots.induct)
  case (7 fs slots)
  then have "length (wire_slots fs slots) \<le> plain_max fs + oneof_max fs" by (auto split: if_splits)
  with leb128_mono [OF this] show ?case by simp
next
  case (6 n bs)
  then have "length (leb128 (length bs)) \<le> length (leb128 n)" by (intro leb128_mono) simp
  with 6 show ?case by (cases n) auto
next
  case (10 f fs slot slots)
  let ?b = "if pb_check_proto3_default_value f slot then []
    else wire_tag (field_type f) (field_tag f) @ wire_val (field_type f) (snd slot)"
  let ?max = "length (wire_tag (field_type f) (field_tag f)) + type_max (field_type f)"
  have ex: "(\<exists>i < length (f # fs). selected (f # fs) (slot # slots) i) \<longleftrightarrow>
      field_label f = ONEOF \<and> fst slot \<or> (\<exists>i < length fs. selected fs slots i)"
    by (auto simp: Ex_less_Suc2 selected_def)
  have default: "\<not> fst slot \<Longrightarrow> pb_check_proto3_default_value f slot"
    using 10(3) by (cases f, cases slot, cases "field_label f") auto
  then have b: "length ?b \<le> (if fst slot then ?max else 0)" using 10 by auto
  have tail: "length (wire_slots fs slots) \<le> plain_max fs +
      (if \<exists>i < length fs. selected fs slots i then oneof_max fs else 0)"
    using 10 by (auto simp: one_member_Cons)
  have "field_label f = ONEOF \<and> fst slot \<Longrightarrow> \<not> (\<exists>i < length fs. selected fs slots i)"
    using 10(4) by (auto simp: one_member_Cons)
  with b tail show ?case unfolding ex by (auto split: if_splits)
qed (auto simp: leb128_word_length intro!: add_mono leb128_mono)

end
