(* ===== verification/Ipc_Messages.thy ===== *)
theory Ipc_Messages
  imports Ipc_Server Nanopb_Codec
begin

text \<open>
  The messages of \<open>src/generated_pb/agentx_ipc.pb.h\<close> as nanopb sees them: the field lists, the layout of
  the structs, and the two calls of the IPC server into nanopb, \<open>pb_encode\<close> and \<open>pb_decode\<close> at
  \<open>agentx_ipc_v1_Envelope_fields\<close>. With them the codec that \<open>Ipc_Server\<close> takes as a parameter becomes
  concrete. The name of a member of the oneof is its member name.
\<close>

subsection \<open>Field lists\<close>

definition Value_FIELDLIST :: "pb_field list" where
  "Value_FIELDLIST =
     [Field SINGULAR (UENUM 4) ''type'' 1,
      Field SINGULAR INT32 ''int32_val'' 2,
      Field SINGULAR UINT32 ''uint32_val'' 3,
      Field SINGULAR UINT64 ''uint64_val'' 4,
      Field SINGULAR (BYTES 256) ''bytes_val'' 5]"

definition WriteConfigRequest_FIELDLIST :: "pb_field list" where
  "WriteConfigRequest_FIELDLIST =
     [Field SINGULAR (STRING 64) ''key'' 1,
      Field OPTIONAL (MESSAGE Value_FIELDLIST) ''value'' 2]"

definition WriteConfigResponse_FIELDLIST :: "pb_field list" where
  "WriteConfigResponse_FIELDLIST =
     [Field SINGULAR (UENUM 6) ''status'' 1,
      Field SINGULAR (STRING 128) ''message'' 2]"

definition ReadConfigRequest_FIELDLIST :: "pb_field list" where
  "ReadConfigRequest_FIELDLIST = [Field SINGULAR (STRING 64) ''key'' 1]"

definition ReadConfigResponse_FIELDLIST :: "pb_field list" where
  "ReadConfigResponse_FIELDLIST =
     [Field SINGULAR (UENUM 6) ''status'' 1,
      Field OPTIONAL (MESSAGE Value_FIELDLIST) ''value'' 2,
      Field SINGULAR (STRING 128) ''message'' 3]"

definition SendTrapRequest_FIELDLIST :: "pb_field list" where
  "SendTrapRequest_FIELDLIST = [Field SINGULAR (STRING 64) ''trap_name'' 1]"

definition SendTrapResponse_FIELDLIST :: "pb_field list" where
  "SendTrapResponse_FIELDLIST =
     [Field SINGULAR (UENUM 6) ''status'' 1,
      Field SINGULAR (STRING 128) ''message'' 2]"

definition PingRequest_FIELDLIST :: "pb_field list" where
  "PingRequest_FIELDLIST = [Field SINGULAR UINT32 ''nonce'' 1]"

definition PingResponse_FIELDLIST :: "pb_field list" where
  "PingResponse_FIELDLIST = [Field SINGULAR UINT32 ''nonce'' 1]"

definition Envelope_FIELDLIST :: "pb_field list" where
  "Envelope_FIELDLIST =
     [Field SINGULAR UINT32 ''request_id'' 1,
      Field ONEOF (MESSAGE WriteConfigRequest_FIELDLIST) ''write_config_request'' 10,
      Field ONEOF (MESSAGE WriteConfigResponse_FIELDLIST) ''write_config_response'' 11,
      Field ONEOF (MESSAGE ReadConfigRequest_FIELDLIST) ''read_config_request'' 12,
      Field ONEOF (MESSAGE ReadConfigResponse_FIELDLIST) ''read_config_response'' 13,
      Field ONEOF (MESSAGE SendTrapRequest_FIELDLIST) ''send_trap_request'' 14,
      Field ONEOF (MESSAGE SendTrapResponse_FIELDLIST) ''send_trap_response'' 15,
      Field ONEOF (MESSAGE PingRequest_FIELDLIST) ''ping_request'' 16,
      Field ONEOF (MESSAGE PingResponse_FIELDLIST) ''ping_response'' 17]"

lemmas body_fieldlists = WriteConfigRequest_FIELDLIST_def WriteConfigResponse_FIELDLIST_def
  ReadConfigRequest_FIELDLIST_def ReadConfigResponse_FIELDLIST_def SendTrapRequest_FIELDLIST_def
  SendTrapResponse_FIELDLIST_def PingRequest_FIELDLIST_def PingResponse_FIELDLIST_def
lemmas fieldlists = Value_FIELDLIST_def body_fieldlists Envelope_FIELDLIST_def

text \<open>The \<open>_size\<close> macros.\<close>

definition Value_size :: nat where "Value_size = 289"
definition WriteConfigRequest_size :: nat where "WriteConfigRequest_size = 357"
definition WriteConfigResponse_size :: nat where "WriteConfigResponse_size = 132"
definition ReadConfigRequest_size :: nat where "ReadConfigRequest_size = 65"
definition ReadConfigResponse_size :: nat where "ReadConfigResponse_size = 424"
definition SendTrapRequest_size :: nat where "SendTrapRequest_size = 65"
definition SendTrapResponse_size :: nat where "SendTrapResponse_size = 132"
definition PingRequest_size :: nat where "PingRequest_size = 6"
definition PingResponse_size :: nat where "PingResponse_size = 6"
definition Envelope_size :: nat where "Envelope_size = 433"

lemmas message_sizes = Value_size_def WriteConfigRequest_size_def WriteConfigResponse_size_def
  ReadConfigRequest_size_def ReadConfigResponse_size_def SendTrapRequest_size_def SendTrapResponse_size_def
  PingRequest_size_def PingResponse_size_def Envelope_size_def

subsection \<open>Struct layout\<close>

definition char_array :: "string \<Rightarrow> bytes" where
  "char_array s = map (\<lambda>c. of_nat (of_char c)) s"

definition of_char_array :: "bytes \<Rightarrow> string" where
  "of_char_array bs = map (\<lambda>b. char_of (unat b)) bs"

text \<open>An enum is an \<open>unsigned int\<close> on the wire; the code prints it as an \<open>int\<close>.\<close>

definition ValueType_of :: "uint32 \<Rightarrow> ValueType" where
  "ValueType_of w =
     (if w = 0 then VALUE_TYPE_UNSPECIFIED else if w = 1 then VALUE_TYPE_INT32
      else if w = 2 then VALUE_TYPE_UINT32 else if w = 3 then VALUE_TYPE_UINT64
      else if w = 4 then VALUE_TYPE_BYTES else VALUE_TYPE_OTHER (sint w))"

fun status_code :: "ipc_status \<Rightarrow> int" where
  "status_code STATUS_UNSPECIFIED = 0"
| "status_code STATUS_OK = 1"
| "status_code STATUS_NOT_FOUND = 2"
| "status_code STATUS_TYPE_MISMATCH = 3"
| "status_code STATUS_INVALID = 4"
| "status_code STATUS_READ_ONLY = 5"
| "status_code STATUS_STORAGE_ERROR = 6"
| "status_code (STATUS_OTHER i) = i"

definition Status_of :: "uint32 \<Rightarrow> ipc_status" where
  "Status_of w =
     (if w = 0 then STATUS_UNSPECIFIED else if w = 1 then STATUS_OK
      else if w = 2 then STATUS_NOT_FOUND else if w = 3 then STATUS_TYPE_MISMATCH
      else if w = 4 then STATUS_INVALID else if w = 5 then STATUS_READ_ONLY
      else if w = 6 then STATUS_STORAGE_ERROR else STATUS_OTHER (sint w))"

definition value_struct :: "ipc_value \<Rightarrow> pb_val" where
  "value_struct v = V_msg [(True, V_uint32 (word_of_int (value_type_code (v_type v)))), (True, V_int32 (v_int32 v)),
     (True, V_uint32 (v_uint32 v)), (True, V_uint64 (v_uint64 v)), (True, V_data (v_bytes v))]"

fun struct_value :: "pb_val \<Rightarrow> ipc_value" where
  "struct_value (V_msg [(_, V_uint32 t), (_, V_int32 i), (_, V_uint32 u), (_, V_uint64 l), (_, V_data b)]) =
     \<lparr>v_type = ValueType_of t, v_int32 = i, v_uint32 = u, v_uint64 = l, v_bytes = b\<rparr>"
| "struct_value _ = value_init_zero"

text \<open>The union \<open>body\<close>: the tag in \<open>which_body\<close>, and the struct of the member.\<close>

fun body_tag :: "envelope_body \<Rightarrow> nat" where
  "body_tag Body_None = 0"
| "body_tag (Write_Config_Request _) = 10"
| "body_tag (Write_Config_Response _) = 11"
| "body_tag (Read_Config_Request _) = 12"
| "body_tag (Read_Config_Response _) = 13"
| "body_tag (Send_Trap_Request _) = 14"
| "body_tag (Send_Trap_Response _) = 15"
| "body_tag (Ping_Request _) = 16"
| "body_tag (Ping_Response _) = 17"

definition status_struct :: "ipc_status \<Rightarrow> pb_slot" where
  "status_struct s = (True, V_uint32 (word_of_int (status_code s)))"

definition string_struct :: "string \<Rightarrow> pb_slot" where
  "string_struct s = (True, V_data (char_array s))"

fun body_struct :: "envelope_body \<Rightarrow> pb_val" where
  "body_struct (Write_Config_Request r) =
     V_msg [string_struct (wreq_key r), (wreq_has_value r, value_struct (wreq_value r))]"
| "body_struct (Write_Config_Response r) =
     V_msg [status_struct (wresp_status r), string_struct (wresp_message r)]"
| "body_struct (Read_Config_Request r) = V_msg [string_struct (rreq_key r)]"
| "body_struct (Read_Config_Response r) =
     V_msg [status_struct (rresp_status r), (rresp_has_value r, value_struct (rresp_value r)),
       string_struct (rresp_message r)]"
| "body_struct (Send_Trap_Request r) = V_msg [string_struct (treq_trap_name r)]"
| "body_struct (Send_Trap_Response r) =
     V_msg [status_struct (tresp_status r), string_struct (tresp_message r)]"
| "body_struct (Ping_Request n) = V_msg [(True, V_uint32 n)]"
| "body_struct (Ping_Response n) = V_msg [(True, V_uint32 n)]"
| "body_struct Body_None = V_msg []"

definition envelope_struct :: "envelope \<Rightarrow> pb_slot list" where
  "envelope_struct e = (True, V_uint32 (request_id e)) #
     map (\<lambda>f. if field_tag f = body_tag (body e) then (True, body_struct (body e))
              else (False, pb_zero (field_type f))) (tl Envelope_FIELDLIST)"

fun struct_body :: "nat \<Rightarrow> pb_val \<Rightarrow> envelope_body" where
  "struct_body tag (V_msg [(_, V_data k), (has, v)]) =
     Write_Config_Request \<lparr>wreq_key = of_char_array k, wreq_has_value = has, wreq_value = struct_value v\<rparr>"
| "struct_body tag (V_msg [(_, V_uint32 s), (_, V_data m)]) =
     (if tag = 11 then Write_Config_Response \<lparr>wresp_status = Status_of s, wresp_message = of_char_array m\<rparr>
      else Send_Trap_Response \<lparr>tresp_status = Status_of s, tresp_message = of_char_array m\<rparr>)"
| "struct_body tag (V_msg [(_, V_data k)]) =
     (if tag = 12 then Read_Config_Request \<lparr>rreq_key = of_char_array k\<rparr>
      else Send_Trap_Request \<lparr>treq_trap_name = of_char_array k\<rparr>)"
| "struct_body tag (V_msg [(_, V_uint32 s), (has, v), (_, V_data m)]) =
     Read_Config_Response \<lparr>rresp_status = Status_of s, rresp_has_value = has, rresp_value = struct_value v,
       rresp_message = of_char_array m\<rparr>"
| "struct_body tag (V_msg [(_, V_uint32 n)]) = (if tag = 16 then Ping_Request n else Ping_Response n)"
| "struct_body tag _ = Body_None"

fun struct_envelope :: "pb_slot list \<Rightarrow> envelope" where
  "struct_envelope ((_, V_uint32 i) # members) =
     \<lparr>request_id = i, body = (case filter (\<lambda>(f, has, v). has) (zip (tl Envelope_FIELDLIST) members) of
        [] \<Rightarrow> Body_None
      | (f, has, v) # _ \<Rightarrow> struct_body (field_tag f) v)\<rparr>"
| "struct_envelope _ = \<lparr>request_id = 0, body = Body_None\<rparr>"

subsection \<open>The calls of the IPC server\<close>

definition nanopb_encode :: "nat \<Rightarrow> envelope \<Rightarrow> bytes option" where
  "nanopb_encode bufsize env =
     map_option os_out (pb_encode Envelope_FIELDLIST (envelope_struct env) (pb_ostream_from_buffer bufsize))"

definition nanopb_decode :: "bytes \<Rightarrow> envelope option" where
  "nanopb_decode data = map_option struct_envelope (pb_decode Envelope_FIELDLIST data)"

subsection \<open>Envelopes in bounds\<close>

text \<open>The strings of an envelope have room in their arrays, and its enums are enumerators.\<close>

definition fits_string :: "nat \<Rightarrow> string \<Rightarrow> bool" where
  "fits_string n s \<longleftrightarrow> length s < n \<and> CHR 0x00 \<notin> set s"

definition value_in_bounds :: "ipc_value \<Rightarrow> bool" where
  "value_in_bounds v \<longleftrightarrow> length (v_bytes v) \<le> 256"

fun body_in_bounds :: "envelope_body \<Rightarrow> bool" where
  "body_in_bounds (Write_Config_Request r) \<longleftrightarrow> fits_string 64 (wreq_key r) \<and> value_in_bounds (wreq_value r)"
| "body_in_bounds (Write_Config_Response r) \<longleftrightarrow> fits_string 128 (wresp_message r)"
| "body_in_bounds (Read_Config_Request r) \<longleftrightarrow> fits_string 64 (rreq_key r)"
| "body_in_bounds (Read_Config_Response r) \<longleftrightarrow>
     value_in_bounds (rresp_value r) \<and> fits_string 128 (rresp_message r)"
| "body_in_bounds (Send_Trap_Request r) \<longleftrightarrow> fits_string 64 (treq_trap_name r)"
| "body_in_bounds (Send_Trap_Response r) \<longleftrightarrow> fits_string 128 (tresp_message r)"
| "body_in_bounds _ \<longleftrightarrow> True"

definition known_type :: "ValueType \<Rightarrow> bool" where
  "known_type t \<longleftrightarrow> (\<forall>i. t \<noteq> VALUE_TYPE_OTHER i)"

definition known_status :: "ipc_status \<Rightarrow> bool" where
  "known_status s \<longleftrightarrow> (\<forall>i. s \<noteq> STATUS_OTHER i)"

fun body_enumerated :: "envelope_body \<Rightarrow> bool" where
  "body_enumerated (Write_Config_Request r) \<longleftrightarrow> wreq_has_value r \<longrightarrow> known_type (v_type (wreq_value r))"
| "body_enumerated (Write_Config_Response r) \<longleftrightarrow> known_status (wresp_status r)"
| "body_enumerated (Read_Config_Response r) \<longleftrightarrow>
     known_status (rresp_status r) \<and> (rresp_has_value r \<longrightarrow> known_type (v_type (rresp_value r)))"
| "body_enumerated (Send_Trap_Response r) \<longleftrightarrow> known_status (tresp_status r)"
| "body_enumerated _ \<longleftrightarrow> True"

text \<open>What the peer sees of an envelope: a value that is not present arrives as zero.\<close>

fun body_arrives :: "envelope_body \<Rightarrow> envelope_body" where
  "body_arrives (Write_Config_Request r) =
     Write_Config_Request (if wreq_has_value r then r else r\<lparr>wreq_value := value_init_zero\<rparr>)"
| "body_arrives (Read_Config_Response r) =
     Read_Config_Response (if rresp_has_value r then r else r\<lparr>rresp_value := value_init_zero\<rparr>)"
| "body_arrives b = b"

definition arrives :: "envelope \<Rightarrow> envelope" where
  "arrives e = e\<lparr>body := body_arrives (body e)\<rparr>"

lemma envelope_ok: "ok_type (MESSAGE Envelope_FIELDLIST)"
  by (simp add: fieldlists)

lemma field_bounds:
  "plain_max Value_FIELDLIST + oneof_max Value_FIELDLIST = Value_size"
  "plain_max WriteConfigRequest_FIELDLIST + oneof_max WriteConfigRequest_FIELDLIST = WriteConfigRequest_size"
  "plain_max WriteConfigResponse_FIELDLIST + oneof_max WriteConfigResponse_FIELDLIST = WriteConfigResponse_size"
  "plain_max ReadConfigRequest_FIELDLIST + oneof_max ReadConfigRequest_FIELDLIST = ReadConfigRequest_size"
  "plain_max ReadConfigResponse_FIELDLIST + oneof_max ReadConfigResponse_FIELDLIST = ReadConfigResponse_size"
  "plain_max SendTrapRequest_FIELDLIST + oneof_max SendTrapRequest_FIELDLIST = SendTrapRequest_size"
  "plain_max SendTrapResponse_FIELDLIST + oneof_max SendTrapResponse_FIELDLIST = SendTrapResponse_size"
  "plain_max PingRequest_FIELDLIST + oneof_max PingRequest_FIELDLIST = PingRequest_size"
  "plain_max PingResponse_FIELDLIST + oneof_max PingResponse_FIELDLIST = PingResponse_size"
  "plain_max Envelope_FIELDLIST + oneof_max Envelope_FIELDLIST = Envelope_size"
  by code_simp+

subsection \<open>Structs and envelopes\<close>

lemma unat_char [simp]: "unat (of_nat (of_char c) :: byte) = of_char c"
proof -
  have "(of_char c :: nat) < 256" by (metis nat_of_char_less_256)
  then show ?thesis by (simp only: unat_of_nat) simp
qed

lemma char_array [simp]: "length (char_array s) = length s" "of_char_array (char_array s) = s"
  "length (of_char_array b) = length b"
  by (simp_all add: char_array_def of_char_array_def comp_def)

lemma char_array_nul:
  "0 \<in> set (char_array s) \<longleftrightarrow> CHR 0x00 \<in> set s" "CHR 0x00 \<in> set (of_char_array b) \<longleftrightarrow> 0 \<in> set b"
proof -
  have nul: "(of_char c :: nat) = 0 \<longleftrightarrow> c = CHR 0x00" for c
    using of_char_eq_iff [of c "CHR 0x00", where 'a = nat] by simp
  have "of_nat (of_char c) = (0 :: byte) \<longleftrightarrow> (of_char c :: nat) = 0" for c
    using unat_char [of c] unat_eq_zero [of "of_nat (of_char c) :: byte"] by simp
  then show "0 \<in> set (char_array s) \<longleftrightarrow> CHR 0x00 \<in> set s"
    using nul unfolding char_array_def set_map image_iff by metis
  have "char_of (unat b) = CHR 0x00 \<longleftrightarrow> b = 0" for b :: byte
    using nul [of "char_of (unat b)"] unat_byte_bound [of b] unat_eq_zero [of b] by simp
  then show "CHR 0x00 \<in> set (of_char_array b) \<longleftrightarrow> 0 \<in> set b"
    unfolding of_char_array_def set_map image_iff by metis
qed

lemma fits_iff:
  "(fits (UENUM m) v \<longleftrightarrow> (\<exists>w. v = V_uint32 w)) \<and> (fits UINT32 v \<longleftrightarrow> (\<exists>w. v = V_uint32 w)) \<and>
   (fits UINT64 v \<longleftrightarrow> (\<exists>w. v = V_uint64 w)) \<and> (fits INT32 v \<longleftrightarrow> (\<exists>w. v = V_int32 w)) \<and>
   (fits (BYTES n) v \<longleftrightarrow> (\<exists>b. v = V_data b \<and> length b \<le> n)) \<and>
   (fits (STRING n) v \<longleftrightarrow> (\<exists>b. v = V_data b \<and> length b < n \<and> 0 \<notin> set b)) \<and>
   (fits (MESSAGE fs) v \<longleftrightarrow> (\<exists>slots. v = V_msg slots \<and> fits_slots fs slots \<and> one_member fs slots))"
  by (cases v) simp_all

lemma fits_slots_Cons:
  "fits_slots (f # fs) slots \<longleftrightarrow> (\<exists>slot rest. slots = slot # rest \<and> (field_label f = SINGULAR \<longrightarrow> fst slot) \<and>
     fits (field_type f) (snd slot) \<and> fits_slots fs rest)"
  by (cases slots) simp_all

lemma struct_body_in_bounds:
  assumes "fits t v" and "t \<in> {MESSAGE WriteConfigRequest_FIELDLIST, MESSAGE WriteConfigResponse_FIELDLIST,
    MESSAGE ReadConfigRequest_FIELDLIST, MESSAGE ReadConfigResponse_FIELDLIST, MESSAGE SendTrapRequest_FIELDLIST,
    MESSAGE SendTrapResponse_FIELDLIST, MESSAGE PingRequest_FIELDLIST, MESSAGE PingResponse_FIELDLIST}"
  shows "body_in_bounds (struct_body tag v)"
  using assms
  by (auto simp: fieldlists fits_iff fits_slots_Cons fits_string_def value_in_bounds_def char_array_nul)

lemma envelope_members:
  "f \<in> set (tl Envelope_FIELDLIST) \<Longrightarrow> field_label f = ONEOF \<and> field_type f \<in>
    {MESSAGE WriteConfigRequest_FIELDLIST, MESSAGE WriteConfigResponse_FIELDLIST,
     MESSAGE ReadConfigRequest_FIELDLIST, MESSAGE ReadConfigResponse_FIELDLIST, MESSAGE SendTrapRequest_FIELDLIST,
     MESSAGE SendTrapResponse_FIELDLIST, MESSAGE PingRequest_FIELDLIST, MESSAGE PingResponse_FIELDLIST}"
  by (auto simp: Envelope_FIELDLIST_def)

lemma struct_envelope_in_bounds:
  assumes "fits_slots Envelope_FIELDLIST slots"
  shows "body_in_bounds (body (struct_envelope slots))"
proof -
  let ?fs = "tl Envelope_FIELDLIST"
  have F: "Envelope_FIELDLIST = Field SINGULAR UINT32 ''request_id'' 1 # ?fs" by (simp add: Envelope_FIELDLIST_def)
  obtain h i members where s: "slots = (h, V_uint32 i) # members" "fits_slots ?fs members"
    using assms by (subst (asm) F) (auto simp: fits_slots_Cons fits_iff)
  show ?thesis
  proof (cases "filter (\<lambda>(f, has, v). has) (zip ?fs members)")
    case Nil
    with s(1) show ?thesis by simp
  next
    case (Cons x xs)
    obtain f has v where x: "x = (f, has, v)" by (cases x) auto
    have "x \<in> set (filter (\<lambda>(f, has, v). has) (zip ?fs members))" unfolding Cons by simp
    then have "(f, has, v) \<in> set (zip ?fs members)" using x by auto
    then obtain k where "k < length ?fs" "?fs ! k = f" "members ! k = (has, v)"
      using s(2) by (auto simp: set_zip fits_slots_iff)
    with s(2) have "f \<in> set ?fs" "fits (field_type f) v" by (auto simp: fits_slots_iff)
    with envelope_members struct_body_in_bounds Cons x s(1) show ?thesis by fastforce
  qed
qed

lemma known_codes:
  "known_type t \<Longrightarrow> ValueType_of (word_of_int (value_type_code t)) = t \<and>
     unat (word_of_int (value_type_code t) :: uint32) \<le> 4"
  "known_status s \<Longrightarrow> Status_of (word_of_int (status_code s)) = s \<and>
     unat (word_of_int (status_code s) :: uint32) \<le> 6"
  by (cases t; simp add: known_type_def ValueType_of_def) (cases s; simp add: known_status_def Status_of_def)

lemma no_oneof: "\<forall>f \<in> set fs. field_label f \<noteq> ONEOF \<Longrightarrow> one_member fs slots"
  by (auto simp: one_member_def selected_def)

lemma value_struct:
  "value_in_bounds v \<Longrightarrow> fits (MESSAGE Value_FIELDLIST) (value_struct v)"
  "known_type (v_type v) \<Longrightarrow> enums_known (MESSAGE Value_FIELDLIST) (value_struct v)"
  "known_type (v_type v) \<Longrightarrow> struct_value (seen (MESSAGE Value_FIELDLIST) (value_struct v)) = v"
  by (simp_all add: value_struct_def Value_FIELDLIST_def value_in_bounds_def no_oneof known_codes)

lemma value_struct_zero: "struct_value (V_msg (map pb_zero_slot Value_FIELDLIST)) = value_init_zero"
  by (simp add: Value_FIELDLIST_def value_init_zero_def ValueType_of_def)

text \<open>The struct of a body under the field of its tag.\<close>

definition member_of :: "envelope_body \<Rightarrow> pb_field \<Rightarrow> bool" where
  "member_of b f \<longleftrightarrow> f \<in> set (tl Envelope_FIELDLIST) \<and> field_tag f = body_tag b"

lemmas body_layout = member_of_def Envelope_FIELDLIST_def body_fieldlists string_struct_def status_struct_def

lemma body_struct_fits: "member_of b f \<Longrightarrow> body_in_bounds b \<Longrightarrow> fits (field_type f) (body_struct b)"
  by (cases b) (auto simp: body_layout fits_string_def char_array_nul value_struct(1) no_oneof)

lemma body_struct_known: "member_of b f \<Longrightarrow> body_enumerated b \<Longrightarrow> enums_known (field_type f) (body_struct b)"
  by (cases b) (auto simp: body_layout value_struct(2) known_codes)

lemma struct_body_seen:
  "member_of b f \<Longrightarrow> body_enumerated b \<Longrightarrow>
     struct_body (body_tag b) (seen (field_type f) (body_struct b)) = body_arrives b"
  by (cases b)
    (auto simp: body_layout value_struct(3) value_struct_zero known_codes
      intro!: WriteConfigRequest.equality ReadConfigResponse.equality)

lemma body_none_or_member: "body e = Body_None \<or> (\<exists>f. member_of (body e) f)"
  by (cases "body e") (simp_all add: member_of_def Envelope_FIELDLIST_def conj_disj_distribR ex_disj_distrib)

lemma Envelope_FIELDLIST_Cons:
  "Envelope_FIELDLIST = Field SINGULAR UINT32 ''request_id'' 1 # tl Envelope_FIELDLIST"
  by (simp add: Envelope_FIELDLIST_def)

lemma envelope_tags: "distinct (map field_tag (tl Envelope_FIELDLIST))" "0 \<notin> field_tag ` set (tl Envelope_FIELDLIST)"
  by (simp_all add: Envelope_FIELDLIST_def)

text \<open>The oneof of the struct of an envelope.\<close>

definition members :: "envelope \<Rightarrow> pb_slot list" where
  "members e = map (\<lambda>f. if field_tag f = body_tag (body e) then (True, body_struct (body e))
     else (False, pb_zero (field_type f))) (tl Envelope_FIELDLIST)"

lemma envelope_struct_members: "envelope_struct e = (True, V_uint32 (request_id e)) # members e"
  by (simp add: envelope_struct_def members_def)

lemma members_fit:
  assumes "body_in_bounds (body e)"
  shows "fits_slots (tl Envelope_FIELDLIST) (members e)"
proof -
  have "fits (field_type f) (pb_zero (field_type f))" if "f \<in> set (tl Envelope_FIELDLIST)" for f
    using that envelope_ok zero_fits(1) ok_fields_nth by (metis in_set_conv_nth list.set_sel(2) ok_type.simps(1) list.sel(2))
  moreover have "member_of (body e) f \<Longrightarrow> fits (field_type f) (body_struct (body e))" for f
    using assms by (rule body_struct_fits [rotated])
  ultimately show ?thesis
    using envelope_members nth_mem by (fastforce simp: fits_slots_iff members_def member_of_def)
qed

lemma members_one: "one_member Envelope_FIELDLIST (envelope_struct e)"
proof -
  have "one_member (tl Envelope_FIELDLIST) (members e)"
    unfolding one_member_def
  proof (intro allI impI)
    fix i j
    assume ij: "i < length (tl Envelope_FIELDLIST)" "j < length (tl Envelope_FIELDLIST)"
      "selected (tl Envelope_FIELDLIST) (members e) i \<and> selected (tl Envelope_FIELDLIST) (members e) j"
    then have "map field_tag (tl Envelope_FIELDLIST) ! i = map field_tag (tl Envelope_FIELDLIST) ! j"
      by (auto simp: selected_def members_def split: if_splits)
    with envelope_tags(1) ij(1,2) show "i = j" by (simp only: nth_eq_iff_index_eq length_map)
  qed
  then show ?thesis
    by (subst Envelope_FIELDLIST_Cons) (simp add: envelope_struct_members one_member_Cons)
qed

lemma envelope_struct_fits:
  assumes "body_in_bounds (body e)"
  shows "fits (MESSAGE Envelope_FIELDLIST) (V_msg (envelope_struct e))"
proof -
  have "fits_slots Envelope_FIELDLIST (envelope_struct e)"
    using members_fit [OF assms] by (subst Envelope_FIELDLIST_Cons) (simp add: envelope_struct_members)
  with members_one show ?thesis by simp
qed

lemma slots_known_map:
  "slots_known fs (map g fs) \<longleftrightarrow> (\<forall>f \<in> set fs. fst (g f) \<longrightarrow> enums_known (field_type f) (snd (g f)))"
  "seen_slots fs (map g fs) = map (\<lambda>f. seen_slot f (g f)) fs"
  "filter (\<lambda>(f, has, v). has) (zip fs (map g fs)) = map (\<lambda>f. (f, g f)) (filter (\<lambda>f. fst (g f)) fs)"
  by (induction fs) (auto simp: seen_slot_def split: prod.splits)

lemma envelope_struct_known:
  assumes "body_enumerated (body e)"
  shows "enums_known (MESSAGE Envelope_FIELDLIST) (V_msg (envelope_struct e))"
proof -
  have "slots_known (tl Envelope_FIELDLIST) (members e)"
    using body_struct_known [OF _ assms] by (simp add: members_def slots_known_map(1) member_of_def)
  then show ?thesis by (subst Envelope_FIELDLIST_Cons) (simp add: envelope_struct_members)
qed

lemma filter_tag:
  "distinct (map field_tag fs) \<Longrightarrow> f \<in> set fs \<Longrightarrow> filter (\<lambda>g. field_tag g = field_tag f) fs = [f]"
proof (induction fs)
  case (Cons g fs)
  then show ?case by (cases "field_tag g = field_tag f") (auto simp: filter_empty_conv rev_image_eqI)
qed simp

lemma struct_envelope_seen:
  assumes "body_enumerated (body e)"
  shows "struct_envelope (seen_slots Envelope_FIELDLIST (envelope_struct e)) = arrives e"
proof -
  let ?fs = "tl Envelope_FIELDLIST"
  let ?sel = "filter (\<lambda>f. field_tag f = body_tag (body e)) ?fs"
  have seen: "seen_slots Envelope_FIELDLIST (envelope_struct e) =
      (True, V_uint32 (request_id e)) # seen_slots ?fs (members e)"
    by (subst Envelope_FIELDLIST_Cons) (simp add: envelope_struct_members)
  have sel: "filter (\<lambda>(f, has, v). has) (zip ?fs (seen_slots ?fs (members e))) =
      map (\<lambda>f. (f, True, seen (field_type f) (body_struct (body e)))) ?sel"
    unfolding members_def slots_known_map(2,3)
    by (auto simp: seen_slot_def intro!: map_cong filter_cong)
  show ?thesis
  proof (cases "body e = Body_None")
    case True
    then have "?sel = []" using envelope_tags(2) by (auto simp: filter_empty_conv)
    with seen sel True show ?thesis by (simp add: arrives_def)
  next
    case False
    then obtain f where f: "member_of (body e) f" using body_none_or_member by blast
    with filter_tag [OF envelope_tags(1), of f] have "?sel = [f]" by (simp add: member_of_def)
    with seen sel f struct_body_seen [OF f assms] show ?thesis by (simp add: arrives_def member_of_def)
  qed
qed

subsection \<open>The codec of the IPC server\<close>

lemma nanopb_round_trip:
  assumes "body_in_bounds (body e)" and "body_enumerated (body e)" and "Envelope_size \<le> n"
  shows "\<exists>b. nanopb_encode n e = Some b \<and> length b \<le> Envelope_size \<and> nanopb_decode b = Some (arrives e)"
proof -
  let ?F = Envelope_FIELDLIST and ?S = "envelope_struct e"
  note fit = envelope_struct_fits [OF assms(1)]
  have len: "length (wire_slots ?F ?S) \<le> Envelope_size"
    using wire_length(2) [of ?F ?S] fit envelope_struct_known [OF assms(2)] field_bounds(10)
    by (auto split: if_splits)
  then have "length (wire_slots ?F ?S) < 2 ^ 32" by (simp add: Envelope_size_def)
  note codec = pb_encode_decode [OF envelope_ok fit this]
  have "nanopb_encode n e = Some (wire_slots ?F ?S)"
    unfolding nanopb_encode_def codec(1) using len assms(3) by simp
  moreover have "nanopb_decode (wire_slots ?F ?S) = Some (arrives e)"
    unfolding nanopb_decode_def codec(2) using struct_envelope_seen [OF assms(2)] by simp
  ultimately show ?thesis using len by blast
qed

lemma nanopb_decode_in_bounds: "nanopb_decode b = Some e \<Longrightarrow> body_in_bounds (body e)"
  using pb_decode_fits [OF envelope_ok] struct_envelope_in_bounds by (auto simp: nanopb_decode_def)

text \<open>For any envelope at all: what was encoded fits the buffer, and is not empty unless it has no body.\<close>

lemma nanopb_encode_fits:
  assumes "nanopb_encode n e = Some b"
  shows "length b \<le> n" and "body e \<noteq> Body_None \<Longrightarrow> b \<noteq> []"
proof -
  let ?os = "pb_ostream_from_buffer n"
  from assms obtain os where os: "pb_encode Envelope_FIELDLIST (envelope_struct e) ?os = Some os" "b = os_out os"
    by (auto simp: nanopb_encode_def)
  from encode_extends(2) [OF os(1)] have b: "length b = os_written os" "os_written os \<le> n"
    by (auto simp: os(2) extends_def pb_ostream_from_buffer_def)
  then show "length b \<le> n" by simp
  assume "body e \<noteq> Body_None"
  then obtain f where "member_of (body e) f" using body_none_or_member by blast
  then obtain i where i: "i < length (tl Envelope_FIELDLIST)" "tl Envelope_FIELDLIST ! i = f" "field_tag f = body_tag (body e)"
    by (auto simp: member_of_def in_set_conv_nth)
  then have "selected (tl Envelope_FIELDLIST) (members e) i"
    using envelope_members [OF nth_mem [OF i(1)]] by (simp add: selected_def members_def)
  then have "selected Envelope_FIELDLIST (envelope_struct e) (Suc i)"
    by (subst Envelope_FIELDLIST_Cons) (simp add: selected_def envelope_struct_members)
  moreover have "length (envelope_struct e) = length Envelope_FIELDLIST" "Suc i < length Envelope_FIELDLIST"
    using i(1) by (simp_all add: envelope_struct_def Envelope_FIELDLIST_def)
  ultimately have "0 < os_written os" using encode_selected [OF os(1)] by fastforce
  with b(1) show "b \<noteq> []" by auto
qed

end
