(* ===== verification/Ipc_Codec.thy ===== *)
theory Ipc_Codec
  imports Ipc_Messages Ipc_Sockets
begin

text \<open>
  The IPC server with the codec of nanopb: its answers always fit the buffer, the laws that
  \<open>Ipc_Sockets\<close> asks of a codec hold, and a peer decodes from an answer frame the response the handler
  made.
\<close>

subsection \<open>The answers of the server\<close>

text \<open>No text of an answer contains a NUL, so that its length is the one of the string.\<close>

definition no_nul :: "string \<Rightarrow> bool" where
  "no_nul s \<longleftrightarrow> CHR 0x00 \<notin> set s"

lemma no_nul_append [simp]: "no_nul (s @ t) \<longleftrightarrow> no_nul s \<and> no_nul t"
  and no_nul_Nil [simp]: "no_nul []"
  and no_nul_Cons [simp]: "no_nul (c # s) \<longleftrightarrow> c \<noteq> CHR 0x00 \<and> no_nul s"
  by (auto simp: no_nul_def)

lemma no_nul_dec [simp]: "no_nul (dec_string n)" "no_nul (sdec i)"
proof -
  show dec: "no_nul (dec_string n)" for n
    using dec_string_digits [of "CHR 0x00" n] by (auto simp: no_nul_def is_digit_def)
  show "no_nul (sdec i)" by (simp add: sdec_def dec)
qed

lemma no_nul_texts [simp]: "no_nul (quoted s) \<longleftrightarrow> no_nul s" "no_nul (storage_strerror rc)"
  by (simp add: quoted_def) (cases rc; simp)

lemma no_nul_names [simp]: "obj \<in> set g_config_objects \<Longrightarrow> no_nul (co_name obj)"
  by (auto simp: g_config_objects_def)

lemma fits_snprintf: "no_nul s \<Longrightarrow> fits_string 128 (snprintf 128 s)"
  by (auto simp: fits_string_def snprintf_def no_nul_def dest: in_set_takeD)

lemma known_rc_status [simp]: "known_status (storage_rc_to_status rc)"
  by (cases rc) (simp_all add: known_status_def)

lemma known_status_simps [simp]: "known_status STATUS_OK" "known_status STATUS_INVALID"
  "known_status STATUS_TYPE_MISMATCH" "known_status STATUS_STORAGE_ERROR"
  by (simp_all add: known_status_def)

definition sendable :: "ipc_status \<Rightarrow> string \<Rightarrow> bool" where
  "sendable s m \<longleftrightarrow> known_status s \<and> fits_string 128 m"

lemma wresp_sendable [simp]:
  "known_status s \<Longrightarrow> no_nul m \<Longrightarrow> sendable (wresp_status (wresp s m)) (wresp_message (wresp s m))"
  by (simp add: wresp_def fits_snprintf sendable_def)

lemma write_done_sendable [simp]: "sendable (wresp_status (write_done rc)) (wresp_message (write_done rc))"
  by (simp add: write_done_def Let_def del: wresp_simps)

lemma write_sendable:
  assumes "handle_write_config L st req = (resp, st')" and "no_nul (wreq_key req)"
  shows "sendable (wresp_status resp) (wresp_message resp)"
proof (cases "find_config_object (wreq_key req)")
  case None
  then have "resp = wresp STATUS_INVALID (''unknown config key '' @ quoted (wreq_key req))"
    using assms(1) by (simp add: handle_write_config_def)
  then show ?thesis using assms(2) by (simp del: wresp_simps)
next
  case (Some obj)
  then have obj: "obj \<in> set g_config_objects" using find_config_object_some by blast
  show ?thesis
    using assms(1) Some obj config_objects_types [OF obj]
    by (auto simp: handle_write_config_def out_of_range_def Let_def
        simp del: wresp_simps write_done_status split: if_splits prod.splits)
qed

lemma trap_sendable:
  assumes "handle_send_trap L S st req = (resp, st')" and "no_nul (treq_trap_name req)"
  shows "sendable (tresp_status resp) (tresp_message resp)"
  using assms by (auto simp: handle_send_trap_def tresp_def sendable_def fits_snprintf split: if_splits prod.splits)

lemma decode_bytes_short: "decode_bytes n d = (STORAGE_OK, Some b) \<Longrightarrow> length b \<le> n"
  by (auto simp: decode_bytes_def split: if_splits prod.splits)

context lmdb_laws
begin

lemma read_sendable:
  assumes "handle_read_config L st req = (resp, st')" and "no_nul (rreq_key req)"
  shows "sendable (rresp_status resp) (rresp_message resp) \<and>
    value_in_bounds (rresp_value resp) \<and> known_type (v_type (rresp_value resp))"
proof (cases "find_config_object (rreq_key req)")
  case None
  with assms show ?thesis
    by (auto simp: handle_read_config_def rresp_init_def sendable_def fits_snprintf value_in_bounds_def value_init_zero_def known_type_def)
next
  case (Some obj)
  then have obj: "obj \<in> set g_config_objects" using find_config_object_some by blast
  obtain rc v st1 where g: "get_object L st obj = (rc, v, st1)" by (cases "get_object L st obj")
  have v: "v_type v = co_type obj" "rc \<noteq> STORAGE_OK \<Longrightarrow> v_bytes v = []"
    using g config_objects_types [OF obj]
    by (auto simp: get_object_def value_init_zero_def Let_def split: prod.splits if_splits)
  have "value_in_bounds v"
  proof (cases "rc = STORAGE_OK")
    case True
    have "co_type obj \<noteq> VALUE_TYPE_BYTES \<Longrightarrow> v_bytes v = []"
      using g config_objects_types [OF obj] by (auto simp: get_object_def value_init_zero_def split: prod.splits)
    moreover have "co_type obj = VALUE_TYPE_BYTES \<Longrightarrow> length (v_bytes v) \<le> 256"
      using get_object_reads(2) [OF obj g True] decode_bytes_short by (auto simp: cell_holds_def)
    ultimately show ?thesis by (cases "co_type obj = VALUE_TYPE_BYTES") (simp_all add: value_in_bounds_def)
  qed (simp add: v(2) value_in_bounds_def)
  moreover have "fits_string 128 (rresp_message (read_done rc v))"
    by (auto simp: read_done_def rresp_init_def Let_def fits_snprintf) (simp add: fits_string_def)
  moreover have "known_type (v_type v)" using v(1) config_objects_types [OF obj] by (auto simp: known_type_def)
  moreover have "resp = read_done rc v" using assms(1) handle_read_known [OF Some, of L st] g by simp
  ultimately show ?thesis by (simp add: sendable_def)
qed

end

lemma unexpected_no_nul [simp]: "no_nul unexpected"
  by (simp add: unexpected_def)

lemma fits_string_no_nul: "fits_string n s \<Longrightarrow> no_nul s"
  by (simp add: fits_string_def no_nul_def)

context lmdb_laws
begin

text \<open>Whatever is received, the answer can be sent.\<close>

lemma respond_sendable:
  assumes "respond L S st req = (Some resp, st')" and "body_in_bounds (body req)"
  shows "request_id resp = request_id req \<and> body_in_bounds (body resp) \<and> body_enumerated (body resp) \<and>
    body resp \<noteq> Body_None"
proof (cases "body req")
  case (Write_Config_Request r)
  with assms write_sendable [of L st r] show ?thesis
    by (auto simp: respond_def sendable_def fits_string_no_nul split: prod.splits)
next
  case (Read_Config_Request r)
  with assms read_sendable [of st r] show ?thesis
    by (auto simp: respond_def sendable_def fits_string_no_nul split: prod.splits)
next
  case (Send_Trap_Request r)
  with assms trap_sendable [of L S st r] show ?thesis
    by (auto simp: respond_def sendable_def fits_string_no_nul split: prod.splits)
qed (use assms in \<open>auto simp: respond_def wresp_def tresp_def rresp_init_def fits_snprintf value_in_bounds_def
    value_init_zero_def\<close>)

end

subsection \<open>The laws of the codec\<close>

text \<open>A byte stream under the codec of nanopb: what \<open>wire\<close> asks of a codec are theorems about it.\<close>

locale nanopb_stream = byte_stream +
  assumes decodes: "pb_decode_envelope K = nanopb_decode"
    and encodes: "pb_encode_envelope K = nanopb_encode"

sublocale nanopb_stream \<subseteq> wire
  by unfold_locales (auto simp: encodes nanopb_encode_fits dest: nanopb_encode_fits(2))

text \<open>The demo network with this codec.\<close>

definition net_pb :: "net_world ipc_api" where
  "net_pb = net_demo\<lparr>pb_decode_envelope := nanopb_decode, pb_encode_envelope := nanopb_encode\<rparr>"

interpretation net_pb: nanopb_stream net_pb nw_sent
  by unfold_locales (auto simp: net_pb_def net_demo_def nw_sent_def Let_def fun_eq_iff)

interpretation net_pb: finite_work net_pb nw_work
  by unfold_locales
    (use net_demo.write_work net_demo.read_work net_demo.accept_work net_demo.other_work in \<open>auto simp: net_pb_def\<close>)

lemma net_pb_ops:
  "os_write net_pb = os_write net_demo" "os_poll_out net_pb = os_poll_out net_demo"
  "pb_decode_envelope net_pb = nanopb_decode" "pb_encode_envelope net_pb = nanopb_encode"
  by (simp_all add: net_pb_def)

text \<open>This network takes every byte.\<close>

lemma send_all_net_pb: "\<exists>w'. send_all net_pb w fd buf off = Some (0, w')"
  by (rule send_all_demo) (simp add: net_pb_ops)

subsection \<open>Exchanges\<close>

text \<open>The answers to a list of requests, each on the state the requests before it left.\<close>

fun exchange ::
  "('e, 't, 'c) platform \<Rightarrow> ('r, 'i, 'v) snmp_api \<Rightarrow> ('e, 'v) agent \<Rightarrow> envelope list \<Rightarrow>
   (envelope list \<times> ('e, 'v) agent) option" where
  "exchange L S st [] = Some ([], st)"
| "exchange L S st (req # reqs) =
     (case respond L S st req of
        (None, st) \<Rightarrow> None
      | (Some resp, st) \<Rightarrow> map_option (\<lambda>(resps, st). (resp # resps, st)) (exchange L S st reqs))"

text \<open>An envelope that a client may put on the wire.\<close>

definition transmissible :: "envelope \<Rightarrow> bool" where
  "transmissible e \<longleftrightarrow> body_in_bounds (body e) \<and> body_enumerated (body e) \<and> body e \<noteq> Body_None"

lemma answers_exchange:
  "map (pb_decode_envelope K) ps = map Some reqs \<Longrightarrow> answers L S K st ps = exchange L S st reqs"
proof (induction ps arbitrary: reqs st)
  case (Cons p ps)
  from Cons.prems obtain req reqs' where r: "reqs = req # reqs'" "pb_decode_envelope K p = Some req"
    "map (pb_decode_envelope K) ps = map Some reqs'"
    by (cases reqs) auto
  show ?case using Cons.IH [OF r(3)] r(1,2) by (auto split: prod.splits option.splits)
qed simp

lemma split_payloads:
  "\<forall>p \<in> set ps. frame_ok p \<Longrightarrow> split_frames (concat (map frame_of ps)) = (ps, [], True)"
  by (induction ps) (simp_all add: split_frames_incomplete split_frames_cons)

context lmdb_laws
begin

lemma exchange_transmissible:
  "exchange L S st reqs = Some (resps, st') \<Longrightarrow> \<forall>req \<in> set reqs. body_in_bounds (body req) \<Longrightarrow>
     map request_id resps = map request_id reqs \<and> (\<forall>resp \<in> set resps. transmissible resp)"
proof (induction reqs arbitrary: st resps)
  case (Cons req reqs)
  from Cons.prems(1) obtain resp st1 resps' where r: "respond L S st req = (Some resp, st1)"
    "exchange L S st1 reqs = Some (resps', st')" "resps = resp # resps'"
    by (auto split: prod.splits option.splits)
  with Cons.IH [OF r(2)] Cons.prems(2) respond_sendable [OF r(1)] show ?case
    by (simp add: transmissible_def)
qed simp

end

lemma decoded_in_bounds: "map nanopb_decode ps = map Some es \<Longrightarrow> \<forall>e \<in> set es. body_in_bounds (body e)"
  by (metis (no_types, opaque_lifting) image_iff list.set_map nanopb_decode_in_bounds)

context nanopb_stream
begin

lemma stream_wire: "wire K sent"
  by (rule wire_axioms)

lemma encoded_transmissible:
  assumes "transmissible e"
  shows "pb_encode_envelope K 1024 e \<noteq> None" and "nanopb_decode (encoded K e) = Some (arrives e)"
    and "length (encoded K e) \<le> Envelope_size" and "encoded K e \<noteq> []"
proof -
  from assms nanopb_round_trip [of e 1024] obtain b where b: "nanopb_encode 1024 e = Some b"
    "length b \<le> Envelope_size" "nanopb_decode b = Some (arrives e)"
    by (auto simp: transmissible_def Envelope_size_def)
  then show "pb_encode_envelope K 1024 e \<noteq> None" "nanopb_decode (encoded K e) = Some (arrives e)"
    "length (encoded K e) \<le> Envelope_size" "encoded K e \<noteq> []"
    using nanopb_encode_fits(2) [OF b(1)] assms by (auto simp: encoded_def encodes transmissible_def)
qed

lemma frames_transmissible:
  assumes "\<forall>e \<in> set es. transmissible e"
  shows "\<forall>p \<in> set (map (encoded K) es). frame_ok p" and "map nanopb_decode (map (encoded K) es) = map (Some \<circ> arrives) es"
proof -
  have "frame_ok (encoded K e)" if "e \<in> set es" for e
    using encoded_transmissible(3,4) [of e] assms that by (simp add: frame_ok_def Envelope_size_def)
  then show "\<forall>p \<in> set (map (encoded K) es). frame_ok p" by simp
  show "map nanopb_decode (map (encoded K) es) = map (Some \<circ> arrives) es"
    using encoded_transmissible(2) assms by simp
qed

end

end
