(* ===== verification/Codec_Properties.thy ===== *)
theory Codec_Properties
  imports Ipc_Properties Ipc_Codec
begin

text \<open>
  The properties of the messages on the wire (\<open>src/generated_pb/agentx_ipc.pb.h\<close> and the part of
  \<open>third_party/nanopb\<close> that encodes and decodes them), and of the IPC server that uses them.
\<close>

subsection \<open>Envelopes\<close>

text \<open>
  C8. An envelope whose strings and bytes fit their arrays and whose enums are enumerators is encoded
  into the send buffer of the server in at most \<open>Envelope_size\<close> bytes, and decoding these bytes gives
  the same envelope, with a value that is not present as zero.
\<close>

theorem envelope_round_trip:
  assumes "body_in_bounds (body e)" and "body_enumerated (body e)"
  shows "\<exists>b. nanopb_encode IPC_SEND_BUF_SIZE e = Some b \<and> length b \<le> Envelope_size \<and>
    nanopb_decode b = Some (arrives e)"
  by (rule nanopb_round_trip [OF assms]) (simp add: Envelope_size_def)

theorem envelope_round_trip_witness:
  "\<exists>b. nanopb_encode 1024 \<lparr>request_id = 300, body = Write_Config_Request (set_interval 30)\<rparr> = Some b \<and>
    nanopb_decode b = Some \<lparr>request_id = 300, body = Write_Config_Request (set_interval 30)\<rparr>"
  using envelope_round_trip [of "\<lparr>request_id = 300, body = Write_Config_Request (set_interval 30)\<rparr>"]
  by (auto simp: set_interval_def fits_string_def value_in_bounds_def known_type_def arrives_def
      value_init_zero_def)

text \<open>
  C13. Whatever bytes arrive, what the decoder stores stays inside the arrays of the struct: each string
  of a decoded envelope is shorter than its array and free of NUL, and a byte value has at most 256
  bytes.
\<close>

theorem envelope_decode_safe:
  assumes "nanopb_decode data = Some e"
  shows "body_in_bounds (body e)"
  using nanopb_decode_in_bounds [OF assms] .

theorem envelope_decode_safe_witness:
  "nanopb_decode [8, 7, 98, 3, 10, 1, 97] = Some \<lparr>request_id = 7, body = Read_Config_Request \<lparr>rreq_key = ''a''\<rparr>\<rparr> \<and>
   body_in_bounds (Read_Config_Request \<lparr>rreq_key = ''a''\<rparr>)"
proof -
  have d: "nanopb_decode [8, 7, 98, 3, 10, 1, 97] = Some \<lparr>request_id = 7, body = Read_Config_Request \<lparr>rreq_key = ''a''\<rparr>\<rparr>"
    by code_simp
  show ?thesis using envelope_decode_safe [OF d] d by simp
qed

text \<open>
  C37. The sizes of the generated header are right: for each of the ten messages, any struct whose fields
  fit and whose enums are enumerators is encoded into a buffer of that many bytes.
\<close>

theorem message_sizes_bound:
  assumes "(fs, n) \<in> set [(Value_FIELDLIST, Value_size), (WriteConfigRequest_FIELDLIST, WriteConfigRequest_size),
      (WriteConfigResponse_FIELDLIST, WriteConfigResponse_size), (ReadConfigRequest_FIELDLIST, ReadConfigRequest_size),
      (ReadConfigResponse_FIELDLIST, ReadConfigResponse_size), (SendTrapRequest_FIELDLIST, SendTrapRequest_size),
      (SendTrapResponse_FIELDLIST, SendTrapResponse_size), (PingRequest_FIELDLIST, PingRequest_size),
      (PingResponse_FIELDLIST, PingResponse_size), (Envelope_FIELDLIST, Envelope_size)]"
    and "fits (MESSAGE fs) (V_msg slots)" and "slots_known fs slots"
  shows "\<exists>os. pb_encode fs slots (pb_ostream_from_buffer n) = Some os \<and> length (os_out os) \<le> n"
proof -
  have fs: "plain_max fs + oneof_max fs = n" using assms(1) field_bounds by auto
  have small: "n < 2 ^ 32" using assms(1) by (auto simp: message_sizes)
  have ok: "ok_type (MESSAGE fs)" using assms(1) by (auto simp: fieldlists)
  have len: "length (wire_slots fs slots) \<le> n"
    using wire_length(2) [of fs slots] assms(2,3) fs by (auto split: if_splits)
  with small have "length (wire_slots fs slots) < 2 ^ 32" by linarith
  from pb_encode_decode(1) [OF ok assms(2) this, of n] len show ?thesis by auto
qed

theorem message_sizes_bound_witness:
  "\<exists>os. pb_encode PingRequest_FIELDLIST [(True, V_uint32 0xFFFFFFFF)] (pb_ostream_from_buffer 6) = Some os \<and>
    length (os_out os) \<le> 6"
  using message_sizes_bound [of PingRequest_FIELDLIST 6 "[(True, V_uint32 0xFFFFFFFF)]"]
  by (simp add: PingRequest_size_def) (simp add: PingRequest_FIELDLIST_def one_member_def)

text \<open>
  C34. The 64 bit encoder on 32 bit halves is the base 128 representation of the number, at most ten
  bytes, and the decoders read it back and leave what follows, the one for 32 bit values where the
  number has 32 bits.
\<close>

theorem varint_reference:
  "pb_varint v = leb128 (unat v) \<and> length (pb_varint v) \<le> 10 \<and>
   pb_decode_varint (pb_varint v @ bs) = Some (v, bs) \<and>
   pb_decode_varint32 (pb_varint (ucast (w :: uint32)) @ bs) = Some (w, bs)"
proof -
  have v: "unat v < 2 ^ 64" using unsigned_less [of v, where 'a = nat] by simp
  have w: "unat w < 2 ^ 32" using unsigned_less [of w, where 'a = nat] by simp
  have "length (leb128 (unat v)) \<le> 10" by (rule leb128_length) (use v in simp_all)
  then show ?thesis
    by (simp add: pb_varint_leb128 pb_decode_varint_leb128 [OF v] pb_decode_varint32_leb128 [OF w])
qed

subsection \<open>The server\<close>

text \<open>
  C19. Every decodable frame that is not a ping response and has a body is answered: the answer has the
  request's id, it is encoded into the send buffer, the peer decodes it, and the connection is closed
  only when sending it fails.
\<close>

theorem ipc_frame_answered:
  assumes "lmdb_laws L env_map live_txns live_cursors txn_map txn_ro cur_map cur_pos"
    and "nanopb_stream K sent" and "cl_in_use c" and "nanopb_decode data = Some req"
    and "body req \<noteq> Body_None" and "\<And>n. body req \<noteq> Ping_Response n"
  shows "\<exists>resp st' payload. respond L S st req = (Some resp, st') \<and> request_id resp = request_id req \<and>
    nanopb_encode IPC_SEND_BUF_SIZE resp = Some payload \<and> payload \<noteq> [] \<and> length payload \<le> Envelope_size \<and>
    nanopb_decode payload = Some (arrives resp) \<and>
    handle_frame L S K c w st data =
      map_option (\<lambda>(r, w'). if r = 0 then (True, c, w', st') else (False, free_client, os_close K w' (cl_fd c), st'))
        (send_all K w (cl_fd c) (frame_of payload) 0)"
proof -
  obtain resp st' where r: "respond L S st req = (Some resp, st')"
    using assms(5,6) by (cases "body req") (auto simp: respond_def split_beta)
  have ok: "request_id resp = request_id req" "transmissible resp"
    using lmdb_laws.respond_sendable [OF assms(1) r nanopb_decode_in_bounds [OF assms(4)]]
    by (simp_all add: transmissible_def)
  let ?p = "encoded K resp"
  note K = nanopb_stream.decodes [OF assms(2)] nanopb_stream.encodes [OF assms(2)]
  note enc = nanopb_stream.encoded_transmissible [OF assms(2) ok(2)]
  have p: "nanopb_encode 1024 resp = Some ?p" using enc(1) by (auto simp: encoded_def K)
  have "handle_frame L S K c w st data =
      map_option (\<lambda>(r, w'). if r = 0 then (True, c, w', st') else (False, free_client, os_close K w' (cl_fd c), st'))
        (send_all K w (cl_fd c) (frame_of ?p) 0)"
    using p by (auto simp: handle_frame_serve [OF assms(3)] serve_frame_def K assms(4) r option.map_comp
        intro!: option.map_cong)
  with r ok(1) p enc show ?thesis by (intro exI [of _ resp] exI [of _ st'] exI [of _ ?p]) auto
qed

definition pb_ping :: bytes where "pb_ping = [8, 7, 130, 1, 2, 8, 5]"

lemma pb_ping_decode: "nanopb_decode pb_ping = Some \<lparr>request_id = 7, body = Ping_Request 5\<rparr>"
  unfolding pb_ping_def by code_simp

theorem ipc_frame_answered_witness:
  "\<exists>w' st'. handle_frame (memdb no_limits) snmp_demo net_pb (demo_client []) demo_world (ipc_agent []) pb_ping =
     Some (True, demo_client [], w', st')"
proof -
  let ?L = "memdb no_limits" and ?c = "demo_client []"
  have u: "cl_in_use ?c" by (simp add: demo_client_def)
  obtain st' payload where
    h: "handle_frame ?L snmp_demo net_pb ?c demo_world (ipc_agent []) pb_ping =
      map_option (\<lambda>(r, w'). if r = 0 then (True, ?c, w', st') else (False, free_client, os_close net_pb w' (cl_fd ?c), st'))
        (send_all net_pb demo_world (cl_fd ?c) (frame_of payload) 0)"
    using ipc_frame_answered [OF mem.lmdb_laws_axioms [of no_limits] net_pb.nanopb_stream_axioms u pb_ping_decode,
        where S = snmp_demo and st = "ipc_agent []" and w = demo_world] by auto
  obtain w' where "send_all net_pb demo_world (cl_fd ?c) (frame_of payload) 0 = Some (0, w')"
    using send_all_net_pb by blast
  with h show ?thesis by auto
qed

text \<open>
  C5. An exchange on the wire: when a client sends frames that decode to requests and the connection
  stays open, then nothing of them is left in the buffer, the requests were answered one after the
  other, each on the state the ones before it left, what was sent on this connection (and on no
  other) are frames that the client can split again, and they decode to the answers, in order and
  with the ids of the requests.
\<close>

theorem ipc_exchange_on_the_wire:
  assumes "lmdb_laws L env_map live_txns live_cursors txn_map txn_ro cur_map cur_pos"
    and "nanopb_stream K sent" and "cl_in_use c"
    and "cl_buf c = concat (map frame_of payloads)" and "\<forall>p \<in> set payloads. frame_ok p"
    and "map nanopb_decode payloads = map Some reqs"
    and "drain_frames L S K c w st = Some (True, c', w', st')"
  shows "\<exists>resps frames. exchange L S st reqs = Some (resps, st') \<and> cl_buf c' = [] \<and>
    map request_id resps = map request_id reqs \<and>
    sent w' = (sent w)(cl_fd c := sent w (cl_fd c) @ concat (map frame_of frames)) \<and>
    split_frames (concat (map frame_of frames)) = (frames, [], True) \<and>
    map nanopb_decode frames = map (Some \<circ> arrives) resps"
proof -
  note K = nanopb_stream.decodes [OF assms(2)] nanopb_stream.encodes [OF assms(2)]
  obtain ok w1 st1 where s: "serve_frames L S K (cl_fd c) payloads w st = Some (ok, w1, st1)"
    and d: "drained K c [] True (ok, w1, st1) = (True, c', w', st')"
    using assms(7) by (auto simp: drain_frames_serve [OF assms(3)] assms(4) split_payloads [OF assms(5)])
  from d have ok: ok "w1 = w'" "st1 = st'" "cl_buf c' = []" by (auto split: if_splits)
  from wire.serve_frames_answers [OF nanopb_stream.stream_wire [OF assms(2)] s [unfolded ok(2,3) eqTrueI [OF ok(1)]]]
  obtain es where es: "answers L S K st payloads = Some (es, st')"
    "sent w' = (sent w)(cl_fd c := sent w (cl_fd c) @ concat (map (frame_of \<circ> encoded K) es))" by blast
  have ex: "exchange L S st reqs = Some (es, st')"
    using es(1) answers_exchange [of K payloads reqs L S st] assms(6) by (simp add: K)
  from lmdb_laws.exchange_transmissible [OF assms(1) ex decoded_in_bounds [OF assms(6)]]
  have tr: "map request_id es = map request_id reqs" "\<forall>e \<in> set es. transmissible e" by blast+
  note fr = nanopb_stream.frames_transmissible [OF assms(2) tr(2)]
  show ?thesis
    using ex ok(4) tr(1) es(2) split_payloads [OF fr(1)] fr(2)
    by (intro exI [of _ es] exI [of _ "map (encoded K) es"]) (simp add: map_map)
qed

lemma drain_pb_ping:
  "\<exists>c' w' st'. drain_frames (memdb no_limits) snmp_demo net_pb (demo_client (frame_of pb_ping)) demo_world (ipc_agent []) =
     Some (True, c', w', st')"
proof -
  let ?c = "demo_client (frame_of pb_ping)"
  have u: "cl_in_use ?c" and b: "cl_buf ?c = concat (map frame_of [pb_ping])" by (simp_all add: demo_client_def)
  have sp: "split_frames (cl_buf ?c) = ([pb_ping], [], True)"
    unfolding b by (rule split_payloads) (simp add: frame_ok_def pb_ping_def)
  have "\<exists>w'. serve_frame (memdb no_limits) snmp_demo net_pb fd pb_ping w st = Some (True, w', st)" for fd w st
  proof -
    obtain p where "nanopb_encode 1024 \<lparr>request_id = 7, body = Ping_Response 5\<rparr> = Some p"
      using nanopb_round_trip [of "\<lparr>request_id = 7, body = Ping_Response 5\<rparr>" 1024] by (auto simp: Envelope_size_def)
    moreover obtain w' where "send_all net_pb w fd (frame_of p) 0 = Some (0, w')" using send_all_net_pb by blast
    ultimately show ?thesis by (simp add: serve_frame_def net_pb_ops pb_ping_decode respond_def)
  qed
  then obtain w' where "serve_frame (memdb no_limits) snmp_demo net_pb (cl_fd ?c) pb_ping demo_world (ipc_agent []) =
    Some (True, w', ipc_agent [])" by blast
  then show ?thesis unfolding drain_frames_serve [OF u] sp prod.case by simp
qed

theorem ipc_exchange_on_the_wire_witness:
  "\<exists>c' w' st' frames. drain_frames (memdb no_limits) snmp_demo net_pb (demo_client (frame_of pb_ping)) demo_world
      (ipc_agent []) = Some (True, c', w', st') \<and>
    nw_sent w' 4 = concat (map frame_of frames) \<and>
    map nanopb_decode frames = [Some \<lparr>request_id = 7, body = Ping_Response 5\<rparr>]"
proof -
  let ?c = "demo_client (frame_of pb_ping)"
  obtain c' w' st' where p: "drain_frames (memdb no_limits) snmp_demo net_pb ?c demo_world (ipc_agent []) =
    Some (True, c', w', st')" using drain_pb_ping by blast
  have c: "cl_in_use ?c" "cl_buf ?c = concat (map frame_of [pb_ping])" "\<forall>p \<in> set [pb_ping]. frame_ok p"
    "map nanopb_decode [pb_ping] = map Some [\<lparr>request_id = 7, body = Ping_Request 5\<rparr>]"
    by (simp_all add: demo_client_def pb_ping_decode) (simp add: frame_ok_def pb_ping_def)
  have "nw_sent demo_world 4 = []" "cl_fd ?c = 4" by (simp_all add: demo_world_def nw_sent_def demo_client_def)
  moreover obtain resps frames where "nw_sent w' = (nw_sent demo_world)(cl_fd ?c := nw_sent demo_world (cl_fd ?c) @
      concat (map frame_of frames))" "map nanopb_decode frames = map (Some \<circ> arrives) resps"
    "exchange (memdb no_limits) snmp_demo (ipc_agent []) [\<lparr>request_id = 7, body = Ping_Request 5\<rparr>] = Some (resps, st')"
    using ipc_exchange_on_the_wire [OF mem.lmdb_laws_axioms net_pb.nanopb_stream_axioms c p] by blast
  ultimately show ?thesis
    using p by (intro exI [of _ c'] exI [of _ w'] exI [of _ st'] exI [of _ frames]) (auto simp: respond_def arrives_def)
qed

end
