(* ===== verification/Configuration.thy ===== *)
theory Configuration
  imports Scalar_Objects Ipc_Loop
begin

text \<open>
  The configuration as its two interfaces see it. The four read-write scalars of
  \<open>src/generated/demo_config.c\<close> are the four objects of the allowlist of \<open>src/ipc_server.c\<close>: same key, same
  environment, and the values one interface stores are the values the other one accepts and reads.
  \<open>agent_step\<close> is one event of the running agent; its steps keep the configuration typed and in range.
\<close>

subsection \<open>One object, two interfaces\<close>

text \<open>The value of an SNMP request as a value of the protocol, and the SNMP answer for such a value.\<close>

fun request_value :: "('r, 'i, 'v) snmp_api \<Rightarrow> scalar \<Rightarrow> 'r \<Rightarrow> ipc_value" where
  "request_value S DeviceName r = value_init_zero\<lparr>v_type := VALUE_TYPE_BYTES,
     v_bytes := payload_of (vb_string S r) (vb_val_len S r)\<rparr>"
| "request_value S SampleIntervalSec r = value_init_zero\<lparr>v_type := VALUE_TYPE_UINT32,
     v_uint32 := word_of_int (sint (vb_integer S r))\<rparr>"
| "request_value S _ r = value_init_zero\<lparr>v_type := VALUE_TYPE_INT32,
     v_int32 := word_of_int (sint (vb_integer S r))\<rparr>"

fun value_answer :: "scalar \<Rightarrow> ipc_value \<Rightarrow> asn_type \<times> (clong + bytes)" where
  "value_answer DeviceName v = (ASN_OCTET_STR, Inr (v_bytes v))"
| "value_answer SampleIntervalSec v = (ASN_UNSIGNED, Inl (word_of_int (uint (v_uint32 v))))"
| "value_answer _ v = (ASN_INTEGER, Inl (word_of_int (sint (v_int32 v))))"

definition scalar_object :: "scalar \<Rightarrow> config_object" where
  "scalar_object ob = the (find_config_object (scalar_key ob))"

lemma scalar_object_simps:
  "scalar_object DeviceName = \<lparr>co_name = ''deviceName'', co_type = VALUE_TYPE_BYTES,
     co_env = CFG_ENV_CONFIG, co_min = 0, co_max = 63\<rparr>"
  "scalar_object TempThresholdMilliC = \<lparr>co_name = ''tempThresholdMilliC'', co_type = VALUE_TYPE_INT32,
     co_env = CFG_ENV_CACHE, co_min = - 40000, co_max = 125000\<rparr>"
  "scalar_object AdminStatusExt = \<lparr>co_name = ''adminStatusExt'', co_type = VALUE_TYPE_INT32,
     co_env = CFG_ENV_CONFIG, co_min = 1, co_max = 3\<rparr>"
  "scalar_object SampleIntervalSec = \<lparr>co_name = ''sampleIntervalSec'', co_type = VALUE_TYPE_UINT32,
     co_env = CFG_ENV_CONFIG, co_min = 1, co_max = 86400\<rparr>"
  by (code_simp, simp?)+

lemma config_scalars_cases:
  assumes "ob \<in> config_scalars"
  obtains "ob = DeviceName" | "ob = TempThresholdMilliC" | "ob = AdminStatusExt" | "ob = SampleIntervalSec"
  using assms by (auto simp: config_scalars_def)

lemma objects_of_scalars: "g_config_objects = map scalar_object [DeviceName, TempThresholdMilliC, AdminStatusExt,
    SampleIntervalSec]"
  by (simp add: scalar_object_simps g_config_objects_def cfg_env_def)

lemma scalar_object:
  assumes "ob \<in> config_scalars"
  shows "find_config_object (scalar_key ob) = Some (scalar_object ob)" "scalar_object ob \<in> set g_config_objects"
    "co_name (scalar_object ob) = scalar_key ob" "object_env (scalar_object ob) = scalar_env ob"
proof -
  show "scalar_object ob \<in> set g_config_objects"
    using assms by (auto simp: objects_of_scalars config_scalars_def)
  show n: "co_name (scalar_object ob) = scalar_key ob"
    using assms by (cases rule: config_scalars_cases) (simp_all add: scalar_object_simps)
  show "object_env (scalar_object ob) = scalar_env ob"
    using assms by (cases rule: config_scalars_cases)
      (simp_all add: scalar_object_simps object_env_def env_for_def scalar_env_def)
  have "find_config_object (scalar_key ob) \<noteq> None"
    using assms by (cases rule: config_scalars_cases)
      (simp_all add: find_config_object_def objects_of_scalars scalar_object_simps)
  then show "find_config_object (scalar_key ob) = Some (scalar_object ob)"
    by (auto simp: scalar_object_def)
qed

lemma object_scalar:
  assumes "obj \<in> set g_config_objects"
  obtains ob where "ob \<in> config_scalars" "obj = scalar_object ob"
  using assms by (auto simp: objects_of_scalars config_scalars_def)

lemma payload_of_length: "length (payload_of b n) \<le> n"
  by (auto simp: payload_of_def split: option.splits)

lemma sint_word_of_sint:
  "- (2 ^ 31) \<le> sint v \<Longrightarrow> sint v < 2 ^ 31 \<Longrightarrow> sint (word_of_int (sint v) :: int32) = sint (v :: clong)"
  unfolding sint_sbintrunc' by (rule signed_take_bit_int_eq_self) simp_all

lemma uint_word_of_sint:
  "0 \<le> sint v \<Longrightarrow> sint v < 2 ^ 32 \<Longrightarrow> uint (word_of_int (sint v) :: uint32) = sint (v :: clong)"
  unfolding uint_word_of_int by simp

text \<open>A value SNMP accepts is one the protocol admits, stored as the same bytes.\<close>

lemma request_admitted:
  assumes "ob \<in> config_scalars" and "scalar_legal S ob r"
  shows "admits (scalar_object ob) (request_value S ob r)"
    and "scalar_cell S ob r = value_cell (co_type (scalar_object ob)) (request_value S ob r)"
proof -
  note words = sint_word_of_sint [of "vb_integer S r"] uint_word_of_sint [of "vb_integer S r"]
    payload_of_length [of "vb_string S r" "vb_val_len S r"]
  from assms show "admits (scalar_object ob) (request_value S ob r)"
    by (cases rule: config_scalars_cases) (use words in \<open>auto simp: scalar_object_simps admits_def\<close>)
  from assms show "scalar_cell S ob r = value_cell (co_type (scalar_object ob)) (request_value S ob r)"
    by (cases rule: config_scalars_cases) (simp_all add: scalar_object_simps)
qed

text \<open>A value the protocol admits is answered by SNMP.\<close>

lemma admitted_answered:
  assumes "ob \<in> config_scalars" and "admits (scalar_object ob) v"
  shows "scalar_answer ob (value_cell (co_type (scalar_object ob)) v) = Some (value_answer ob v)"
  using assms by (cases rule: config_scalars_cases) (simp_all add: scalar_object_simps admits_def answered_def)


subsection \<open>Reading a configuration value\<close>

text \<open>
  What both interfaces answer for one object: nothing when the key is absent, and the value when the
  cell holds a value the object admits.
\<close>

definition both_read ::
  "('r \<Rightarrow> snmp_err) \<Rightarrow> ('r \<Rightarrow> (asn_type \<times> (clong + bytes)) option) \<Rightarrow> scalar \<Rightarrow> bytes option \<Rightarrow>
   'r \<Rightarrow> ReadConfigResponse \<Rightarrow> bool" where
  "both_read err result ob cell r rr \<longleftrightarrow>
     (cell = None \<longrightarrow>
        err r = SNMP_NOSUCHINSTANCE \<and> rresp_status rr = STATUS_NOT_FOUND \<and> \<not> rresp_has_value rr) \<and>
     (\<forall>v. admits (scalar_object ob) v \<longrightarrow> cell = Some (value_cell (co_type (scalar_object ob)) v) \<longrightarrow>
        err r = SNMP_ERR_NOERROR \<and> result r = Some (value_answer ob v) \<and>
        rresp_status rr = STATUS_OK \<and> rresp_has_value rr \<and>
        rresp_value rr = value_view (co_type (scalar_object ob)) v)"

context lmdb_reliable
begin

lemma get_object_absent:
  assumes "obj \<in> set g_config_objects" and "ag_envs st (object_env obj) \<noteq> None"
    and "contents st (object_env obj) (co_name obj) = None"
  shows "fst (get_object L st obj) = STORAGE_ERR_NOTFOUND"
proof -
  note t = ag_get_total(1,2) [OF config_objects_keys [OF assms(1)] assms(2)]
    ag_get_total(3) [OF config_objects_keys [OF assms(1)] assms(2), of 256]
  show ?thesis
    using config_objects_types [OF assms(1)] t assms(3)
    by (auto simp: get_object_def Let_def split: prod.splits)
qed

end

context subagent_reliable
begin

text \<open>Neither interface changes anything and both answer for the same cell.\<close>

lemma both_interfaces_read:
  assumes "ob \<in> config_scalars" and "ag_envs st (scalar_env ob) \<noteq> None" and "req_error r = SNMP_ERR_NOERROR"
  shows "\<exists>st1 r' rr st2. scalar_handler L S ob MODE_GET st r = (SNMP_ERR_NOERROR, st1, r') \<and>
    handle_read_config L st \<lparr>rreq_key = scalar_key ob\<rparr> = (rr, st2) \<and> effect keep st st1 \<and> effect keep st st2 \<and>
    both_read req_error req_result ob (contents st (scalar_env ob) (scalar_key ob)) r' rr"
proof -
  note o = scalar_object [OF assms(1)]
  let ?cell = "contents st (scalar_env ob) (scalar_key ob)"
  obtain rc v st2 where g: "get_object L st (scalar_object ob) = (rc, v, st2)"
    by (cases "get_object L st (scalar_object ob)")
  have h: "handle_read_config L st \<lparr>rreq_key = scalar_key ob\<rparr> = (read_done rc v, st2)"
    using handle_read_known [of "\<lparr>rreq_key = scalar_key ob\<rparr>" "scalar_object ob" L st] o(1) g by simp
  note reads = get_object_reads [OF o(2) g, unfolded o(3,4)]
  have absent: "rc = STORAGE_ERR_NOTFOUND" if "?cell = None"
    using get_object_absent [OF o(2), of st] assms(2) that o(3,4) g by simp
  have present: "rc = STORAGE_OK \<and> v = value_view (co_type (scalar_object ob)) u"
    if u: "admits (scalar_object ob) u" "?cell = Some (value_cell (co_type (scalar_object ob)) u)" for u
    using get_object_total [OF o(2) u(1), of st] cell_holds_value [OF o(2) u(1)] reads(2) u(2) o(3,4) g by simp
  from scalar_get [OF assms(2,3)] obtain st1 r' where
    s: "scalar_handler L S ob MODE_GET st r = (SNMP_ERR_NOERROR, st1, r')" "effect keep st st1"
    "get_outcome req_error req_result ?cell (scalar_answer ob) r'" by blast
  have "both_read req_error req_result ob ?cell r' (read_done rc v)"
    using s(3) absent present admitted_answered [OF assms(1)] by (auto simp: both_read_def get_outcome_def)
  with s(1,2) h reads(1) show ?thesis by blast
qed

end

lemma in_range_cell:
  assumes "config_in_range emap st" and "ob \<in> config_scalars"
  shows "ag_map emap st (scalar_env ob) (scalar_key ob) = None \<or>
    (\<exists>v. admits (scalar_object ob) v \<and> ag_map emap st (scalar_env ob) (scalar_key ob) =
       Some (value_cell (co_type (scalar_object ob)) v))"
  using assms(1) scalar_object [OF assms(2)]
  by (cases "ag_map emap st (scalar_env ob) (scalar_key ob)") (auto simp: config_in_range_def)

subsection \<open>The steps of the agent\<close>

text \<open>
  One event: an IPC request, a GET of a scalar, a SET of a scalar with any outcome, a check of the
  alarm, or anything that leaves the four configuration keys alone (a SET of a table cell, a sample
  stored by the application). The UNDO of a SET of an absent object is left out: it stores zero.
\<close>

inductive agent_step ::
  "('e, 't, 'c) platform \<Rightarrow> ('r, 'i, 'v) snmp_api \<Rightarrow> ('e \<Rightarrow> store) \<Rightarrow> ('r \<Rightarrow> snmp_err) \<Rightarrow>
   ('e, 'v) agent \<Rightarrow> ('e, 'v) agent \<Rightarrow> bool"
  for L S emap err where
  ipc_request: "respond L S st req = (e, st') \<Longrightarrow> agent_step L S emap err st st'"
| snmp_get: "scalar_handler L S ob MODE_GET st r = (c, st', r') \<Longrightarrow> agent_step L S emap err st st'"
| snmp_set: "ob \<in> config_scalars \<Longrightarrow> scalar_stash S ob r = None \<Longrightarrow>
    set_run (scalar_handler L S ob) err st r oc st' r' \<Longrightarrow>
    oc = Undone \<longrightarrow> ag_map emap st (scalar_env ob) (scalar_key ob) \<noteq> None \<Longrightarrow> agent_step L S emap err st st'"
| alarm_check: "demo_check_temp_alarm L S st = (ret, st') \<Longrightarrow> agent_step L S emap err st st'"
| elsewhere: "\<forall>i. (ag_envs st' i = None) = (ag_envs st i = None) \<Longrightarrow>
    \<forall>ob \<in> config_scalars. ag_map emap st' (scalar_env ob) (scalar_key ob) =
      ag_map emap st (scalar_env ob) (scalar_key ob) \<Longrightarrow> agent_step L S emap err st st'"

lemma value_cell_canonical:
  "obj \<in> set g_config_objects \<Longrightarrow> canonical_value (value_cell (co_type obj) v)"
  using config_objects_types [of obj] by auto

lemma in_range_keep:
  "config_in_range emap st \<Longrightarrow> envs_effect emap txns cursors keep (ag_envs st) (ag_envs st') \<Longrightarrow>
     config_in_range emap st'"
  by (simp add: config_in_range_def envs_keep_map)

lemma envs_effect_open:
  "envs_effect emap txns cursors G a b \<Longrightarrow> (b i = None) = (a i = None)"
  by (auto simp: envs_effect_def dest!: spec [of _ i] elim!: option.rel_cases)

lemma in_range_upd:
  assumes "config_in_range emap st" and "ob \<in> config_scalars" and "admits (scalar_object ob) v"
    and "envs_effect emap txns cursors
      (upd (scalar_env ob) (scalar_key ob) (Some (value_cell (co_type (scalar_object ob)) v))) (ag_envs st) (ag_envs st')"
  shows "config_in_range emap st'"
  unfolding config_in_range_def
proof (intro ballI allI impI)
  fix obj d assume o: "obj \<in> set g_config_objects" "ag_map emap st' (object_env obj) (co_name obj) = Some d"
  have "ag_envs st' (object_env obj) \<noteq> None" using o(2) by (rule ag_map_open)
  then have "ag_envs st (object_env obj) \<noteq> None"
    using envs_effect_open [OF assms(4)] by simp
  from envs_effect_map [OF assms(4) this] o(2)
  have "ag_map emap st (object_env obj) (co_name obj) = Some d \<or>
      co_name obj = scalar_key ob \<and> d = value_cell (co_type (scalar_object ob)) v"
    by (auto simp: upd_def split: if_splits)
  then show "\<exists>v. admits obj v \<and> d = value_cell (co_type obj) v"
    using assms(1,3) o(1) scalar_object(2,3) [OF assms(2)] config_objects_distinct [of obj "scalar_object ob"]
    by (auto simp: config_in_range_def)
qed

context subagent
begin

text \<open>The effect of a SET on the environments, whatever its outcome.\<close>

lemma set_effect:
  assumes "config_in_range env_map st" and "ob \<in> config_scalars" and "scalar_stash S ob r = None"
    and "set_run (scalar_handler L S ob) req_error st r oc st' r'"
    and "oc = Undone \<longrightarrow> contents st (scalar_env ob) (scalar_key ob) \<noteq> None"
  shows "echanges keep (ag_envs st) (ag_envs st') \<or> scalar_legal S ob r \<and>
    echanges (upd (scalar_env ob) (scalar_key ob) (Some (scalar_cell S ob r))) (ag_envs st) (ag_envs st')"
proof (cases oc)
  case Freed
  then show ?thesis using assms(4) scalar_freed [OF assms(2)] by blast
next
  case Committed
  then show ?thesis using assms(4) scalar_committed [OF assms(2)] by blast
next
  case Undone
  with assms(5) obtain d where d: "contents st (scalar_env ob) (scalar_key ob) = Some d" by auto
  with in_range_cell [OF assms(1,2)] value_cell_canonical [OF scalar_object(2) [OF assms(2)]]
  have "canonical_value d" by auto
  with scalar_undone_cases [OF assms(2) _ assms(3) d] assms(4) Undone show ?thesis by blast
qed

text \<open>Every step keeps the configuration in range and both environments open.\<close>

lemma step_in_range:
  assumes "agent_step L S env_map req_error st st'" and "config_in_range env_map st"
  shows "config_in_range env_map st' \<and> (\<forall>i. (ag_envs st' i = None) = (ag_envs st i = None))"
  using assms
proof (induction rule: agent_step.induct)
  case (ipc_request st req e st')
  then show ?case using respond_in_range respond_open by blast
next
  case (snmp_get ob st r c st' r')
  then have "echanges keep (ag_envs st) (ag_envs st')" using effect_envs scalar_get_keeps by blast
  with snmp_get show ?case using in_range_keep envs_effect_open by blast
next
  case (snmp_set ob r st oc st' r')
  from set_effect [OF snmp_set(5) snmp_set(1-4)] show ?case
  proof
    assume "echanges keep (ag_envs st) (ag_envs st')"
    with snmp_set(5) show ?thesis using in_range_keep envs_effect_open by blast
  next
    assume a: "scalar_legal S ob r \<and>
      echanges (upd (scalar_env ob) (scalar_key ob) (Some (scalar_cell S ob r))) (ag_envs st) (ag_envs st')"
    note req = request_admitted [OF snmp_set(1) conjunct1 [OF a]]
    show ?thesis
      using in_range_upd [OF snmp_set(5,1) req(1)] a req(2) envs_effect_open by simp blast
  qed
next
  case (alarm_check st ret st')
  then have "echanges keep (ag_envs st) (ag_envs st')"
    using demo_check_spec [of st S] by (simp add: check_result_def envs_effect_keep)
  with alarm_check show ?case using in_range_keep envs_effect_open by blast
next
  case (elsewhere st' st)
  have "ag_map env_map st' (object_env obj) (co_name obj) = ag_map env_map st (object_env obj) (co_name obj)"
    if "obj \<in> set g_config_objects" for obj
    using that elsewhere(2) by (rule_tac object_scalar [OF that]) (simp add: scalar_object)
  with elsewhere(1,3) show ?case by (auto simp: config_in_range_def)
qed

lemma steps_in_range:
  assumes "(agent_step L S env_map req_error)\<^sup>*\<^sup>* st st'" and "config_in_range env_map st"
  shows "config_in_range env_map st' \<and> (\<forall>i. (ag_envs st' i = None) = (ag_envs st i = None))"
  using assms by (induction rule: rtranclp_induct) (use step_in_range in blast)+

end

subsection \<open>Table cells are elsewhere\<close>

text \<open>The keys of table cells have a dot, those of the scalars have none.\<close>

definition dotted_keys :: "(env_id \<times> string) set" where
  "dotted_keys = {(i, k). CHR ''.'' \<in> set k}"

lemma key_of_dotted: "key_of col row = (STORAGE_OK, key) \<Longrightarrow> CHR ''.'' \<in> set key"
  by (auto simp: key_of_def table_cell_key_def Let_def split: option.splits prod.splits if_splits)

lemma port_cell_dotted: "port_cell S r = Some (env, col, key) \<Longrightarrow> (env, key) \<in> dotted_keys"
  by (auto simp: port_cell_def dotted_keys_def split: option.splits prod.splits if_splits dest: key_of_dotted)

lemma scalar_key_undotted: "(i, scalar_key ob) \<notin> dotted_keys"
  by (cases ob) (simp_all add: dotted_keys_def)

lemma agree_but_dotted:
  assumes "agree_but emap txns cursors dotted_keys (ag_envs st) (ag_envs st')"
  shows "(ag_envs st' i = None) = (ag_envs st i = None)"
    and "ag_map emap st' i (scalar_key ob) = ag_map emap st i (scalar_key ob)"
  using assms scalar_key_undotted [of i ob]
  by (auto simp: agree_but_def ag_map_def dest!: spec [of _ i] elim!: option.rel_cases)

context subagent
begin

text \<open>The ACTION phase of a SET of table cells, with any number of cells.\<close>

lemma port_action_agrees:
  assumes "each_request (portConfigTable_action L S) st rs = (st', rs')"
    and "\<forall>r \<in> set rs. req_error r = SNMP_ERR_NOERROR"
    and "agree_but env_map live_txns live_cursors dotted_keys a (ag_envs st)"
  shows "agree_but env_map live_txns live_cursors dotted_keys a (ag_envs st')"
  using assms
proof (induction rs arbitrary: st st' rs')
  case (Cons r rs)
  obtain st1 r1 where 1: "portConfigTable_action L S st r = (st1, r1)" by fastforce
  obtain st2 rs2 where 2: "each_request (portConfigTable_action L S) st1 rs = (st2, rs2)" by fastforce
  have "cells [r1] \<subseteq> dotted_keys" using port_cell_dotted by (auto simp: cells_def)
  with action_writes_cell [OF 1 _ Cons.prems(3)] Cons.prems(2)
  have "agree_but env_map live_txns live_cursors dotted_keys a (ag_envs st1)" by (simp add: Un_absorb1)
  from Cons.IH [OF 2 _ this] Cons.prems(1,2) 1 2 show ?case by simp
qed simp

lemma port_action_step:
  assumes "handle_portConfigTable L S MODE_SET_ACTION st rs = (c, st', rs')"
    and "\<forall>r \<in> set rs. req_error r = SNMP_ERR_NOERROR"
  shows "agent_step L S env_map req_error st st'"
proof (rule agent_step.elsewhere)
  have "agree_but env_map live_txns live_cursors dotted_keys (ag_envs st) (ag_envs st)"
    using agree_but_mono [of env_map live_txns live_cursors "{}" "ag_envs st" "ag_envs st"]
    by (simp add: agree_but_nothing)
  with assms have "agree_but env_map live_txns live_cursors dotted_keys (ag_envs st) (ag_envs st')"
    using port_action_agrees [of st rs st' rs'] by (auto simp: handle_portConfigTable_def)
  from agree_but_dotted [OF this]
  show "\<forall>i. (ag_envs st' i = None) = (ag_envs st i = None)"
    "\<forall>ob \<in> config_scalars. ag_map env_map st' (scalar_env ob) (scalar_key ob) =
      ag_map env_map st (scalar_env ob) (scalar_key ob)" by blast+
qed

end


subsection \<open>Writing through one interface, reading through the other\<close>

context subagent_reliable
begin

lemma ipc_write_get:
  assumes "ob \<in> config_scalars" and "ag_writable st (scalar_env ob)" and "req_error r = SNMP_ERR_NOERROR"
    and "wreq_key req = scalar_key ob" and "wreq_has_value req" and "admits (scalar_object ob) (wreq_value req)"
  shows "\<exists>wr st1 st2 r'. handle_write_config L st req = (wr, st1) \<and> wresp_status wr = STATUS_OK \<and>
    scalar_handler L S ob MODE_GET st1 r = (SNMP_ERR_NOERROR, st2, r') \<and> req_error r' = SNMP_ERR_NOERROR \<and>
    req_result r' = Some (value_answer ob (wreq_value req))"
proof -
  note o = scalar_object [OF assms(1)]
  have adm: "admissible req = Some (scalar_object ob)" using assms(4-6) o(1) by (simp add: admissible_def)
  have "ag_writable st (object_env (scalar_object ob))" using assms(2) o(4) by simp
  from write_read [OF adm this] obtain wr st1 where
    w: "handle_write_config L st req = (wr, st1)" "wresp_status wr = STATUS_OK" by blast
  note eff = handle_write_spec [OF w(1), simplified w(2) adm, simplified]
  have "ag_envs st (scalar_env ob) \<noteq> None"
    using assms(2) by (auto simp: ag_writable_def split: option.splits)
  then have cell: "contents st1 (scalar_env ob) (scalar_key ob) =
      Some (value_cell (co_type (scalar_object ob)) (wreq_value req))"
    using eff ag_effect_map [of env_map live_txns live_cursors _ st st1] assms(4) o(4) by (auto simp: upd_def)
  then have "ag_envs st1 (scalar_env ob) \<noteq> None" by (rule ag_map_open)
  from both_interfaces_read [OF assms(1) this assms(3)] cell assms(6) w show ?thesis
    by (auto simp: both_read_def)
qed

lemma snmp_set_read:
  assumes "ob \<in> config_scalars" and "ag_writable st (scalar_env ob)"
    and "set_run (scalar_handler L S ob) req_error st q Committed st1 q'"
    and "req_error r = SNMP_ERR_NOERROR"
  shows "\<exists>rr st2. handle_read_config L st1 \<lparr>rreq_key = scalar_key ob\<rparr> = (rr, st2) \<and> rresp_status rr = STATUS_OK \<and>
    rresp_value rr = value_view (co_type (scalar_object ob)) (request_value S ob q)"
proof -
  note c = scalar_committed [OF assms(1,3)]
  then have legal: "scalar_legal S ob q" by blast
  note req = request_admitted [OF assms(1) legal]
  have "ag_envs st (scalar_env ob) \<noteq> None"
    using assms(2) by (auto simp: ag_writable_def split: option.splits)
  then have cell: "contents st1 (scalar_env ob) (scalar_key ob) =
      Some (value_cell (co_type (scalar_object ob)) (request_value S ob q))"
    using c envs_effect_map [of env_map live_txns live_cursors _ st st1] req(2) by (auto simp: upd_def)
  then have "ag_envs st1 (scalar_env ob) \<noteq> None" by (rule ag_map_open)
  from both_interfaces_read [OF assms(1) this assms(4)] cell req(1) show ?thesis
    by (auto simp: both_read_def)
qed

end

end
