(* ===== verification/Storage_Bootstrap.thy ===== *)
theory Storage_Bootstrap
  imports Table_Handlers
begin

text \<open>
  \<open>src/generated/storage_bootstrap.c\<close>: seeding the defaults of both environments, each in one
  write transaction. A block of the C code is a step on the open transaction; the steps run in
  order and the first error aborts. \<open>#if STORAGE_MODE_x == ...\<close> selects whether a step is there.
\<close>

abbreviation (input) TABLE_ROWS_portConfigTable :: nat where "TABLE_ROWS_portConfigTable \<equiv> 4"

type_synonym 't seed = "'t storage_txn option \<Rightarrow> storage_rc \<times> 't storage_txn option"

definition c_string :: "string \<Rightarrow> bytes" where "c_string s = map of_char s"

text \<open>The block of an object: probe unless overwriting, write if absent.\<close>

definition seed_int :: "('e, 't, 'c) platform \<Rightarrow> bool \<Rightarrow> string \<Rightarrow> int32 \<Rightarrow> 't seed" where
  "seed_int L overwrite key defval txn =
     (let exists_rc = (if \<not> overwrite then fst (storage_txn_get_int L txn (Some key) (Some 0))
                       else STORAGE_ERR_NOTFOUND) in
      if overwrite \<or> exists_rc = STORAGE_ERR_NOTFOUND
      then storage_txn_set_int L txn (Some key) defval else (STORAGE_OK, txn))"

definition seed_uint :: "('e, 't, 'c) platform \<Rightarrow> bool \<Rightarrow> string \<Rightarrow> uint32 \<Rightarrow> 't seed" where
  "seed_uint L overwrite key defval txn =
     (let exists_rc = (if \<not> overwrite then fst (storage_txn_get_uint L txn (Some key) (Some 0))
                       else STORAGE_ERR_NOTFOUND) in
      if overwrite \<or> exists_rc = STORAGE_ERR_NOTFOUND
      then storage_txn_set_uint L txn (Some key) defval else (STORAGE_OK, txn))"

text \<open>Byte strings are probed with a one byte buffer; only the code matters.\<close>

definition seed_bytes :: "('e, 't, 'c) platform \<Rightarrow> bool \<Rightarrow> string \<Rightarrow> bytes \<Rightarrow> 't seed" where
  "seed_bytes L overwrite key defval txn =
     (let exists_rc = (if \<not> overwrite
                       then fst (storage_txn_get_bytes L txn (Some key) (Some [0]) (Some 1))
                       else STORAGE_ERR_NOTFOUND) in
      if overwrite \<or> exists_rc = STORAGE_ERR_NOTFOUND
      then storage_txn_set_bytes L txn (Some key) (Some defval) (length defval)
      else (STORAGE_OK, txn))"

text \<open>The \<open>for\<close> loop of a column: one cell per provisioned row, \<open>inst = { { row }, 1 }\<close>.\<close>

definition seed_cell :: "string \<Rightarrow> (string \<Rightarrow> 't seed) \<Rightarrow> uint32 \<Rightarrow> 't seed" where
  "seed_cell column f row txn =
     (case key_of column (inst_of [row]) of (rc, key) \<Rightarrow>
        if rc \<noteq> STORAGE_OK then (rc, txn) else f key txn)"

definition seed_column :: "string \<Rightarrow> (string \<Rightarrow> 't seed) \<Rightarrow> 't seed list" where
  "seed_column column f =
     map (\<lambda>row. seed_cell column f (of_nat row)) [1..<Suc TABLE_ROWS_portConfigTable]"

text \<open>\<open>if (rc != STORAGE_OK) { storage_txn_abort(txn); return rc; }\<close> after every step.\<close>

fun run_seeds :: "'t seed list \<Rightarrow> 't seed" where
  "run_seeds [] txn = (STORAGE_OK, txn)"
| "run_seeds (f # fs) txn =
     (case f txn of (rc, txn) \<Rightarrow> if rc \<noteq> STORAGE_OK then (rc, txn) else run_seeds fs txn)"

definition when_mode :: "storage_mode \<Rightarrow> storage_mode \<Rightarrow> 'a list \<Rightarrow> 'a list" where
  "when_mode actual wanted steps = (if actual = wanted then steps else [])"

definition seed_config_scalars ::
  "('e, 't, 'c) platform \<Rightarrow> storage_mode \<Rightarrow> bool \<Rightarrow> 't seed list" where
  "seed_config_scalars L wanted overwrite =
     when_mode STORAGE_MODE_deviceName wanted
       [seed_bytes L overwrite ''deviceName'' (c_string ''agentx-demo'')] @
     when_mode STORAGE_MODE_tempThresholdMilliC wanted
       [seed_int L overwrite ''tempThresholdMilliC'' 70000] @
     when_mode STORAGE_MODE_adminStatusExt wanted
       [seed_int L overwrite ''adminStatusExt'' 1] @
     when_mode STORAGE_MODE_sampleIntervalSec wanted
       [seed_uint L overwrite ''sampleIntervalSec'' 60]"

definition seed_status_scalars :: "('e, 't, 'c) platform \<Rightarrow> bool \<Rightarrow> 't seed list" where
  "seed_status_scalars L overwrite =
     [seed_int L overwrite ''cpuTempMilliC'' 0,
      seed_uint L overwrite ''sampleCount'' 0,
      seed_uint L overwrite ''lastUpdateEpoch'' 0,
      seed_bytes L overwrite ''statusText'' (c_string ''initialising'')]"

definition seed_port_columns ::
  "('e, 't, 'c) platform \<Rightarrow> storage_mode \<Rightarrow> bool \<Rightarrow> 't seed list" where
  "seed_port_columns L wanted overwrite =
     when_mode STORAGE_MODE_portDescr wanted
       (seed_column ''portDescr'' (\<lambda>key. seed_bytes L overwrite key (c_string ''port''))) @
     when_mode STORAGE_MODE_portAdminStatus wanted
       (seed_column ''portAdminStatus'' (\<lambda>key. seed_int L overwrite key 1)) @
     when_mode STORAGE_MODE_portAlarmThresholdMilliC wanted
       (seed_column ''portAlarmThresholdMilliC'' (\<lambda>key. seed_int L overwrite key 80000))"

text \<open>Begin, run the steps, commit; abort on the first error.\<close>

definition bootstrap ::
  "('e, 't, 'c) platform \<Rightarrow> 'e storage_env option \<Rightarrow> 't seed list \<Rightarrow>
   storage_rc \<times> 'e storage_env option" where
  "bootstrap L envp seeds =
     (case storage_txn_begin L envp False (Some None) of (rc, out, envp) \<Rightarrow>
        if rc \<noteq> STORAGE_OK then (rc, envp)
        else (case run_seeds seeds (the out) of (rc, txn) \<Rightarrow>
          if rc \<noteq> STORAGE_OK then (rc, map_option (storage_txn_abort L txn) envp)
          else (case storage_txn_commit L txn (the envp) of (rc, env) \<Rightarrow> (rc, Some env))))"

definition cache_bootstrap_defaults ::
  "('e, 't, 'c) platform \<Rightarrow> 'e storage_env option \<Rightarrow> bool \<Rightarrow> storage_rc \<times> 'e storage_env option" where
  "cache_bootstrap_defaults L cache overwrite =
     bootstrap L cache
       (seed_config_scalars L STORAGE_MODE_VOLATILE overwrite @ seed_status_scalars L overwrite @
        seed_port_columns L STORAGE_MODE_VOLATILE overwrite)"

definition config_bootstrap_defaults ::
  "('e, 't, 'c) platform \<Rightarrow> 'e storage_env option \<Rightarrow> storage_rc \<times> 'e storage_env option" where
  "config_bootstrap_defaults L config =
     bootstrap L config
       (seed_config_scalars L STORAGE_MODE_PERSISTENT False @
        seed_port_columns L STORAGE_MODE_PERSISTENT False)"

subsection \<open>The defaults\<close>

definition cache_defaults :: "(string \<times> bytes) list" where
  "cache_defaults =
     [(''tempThresholdMilliC'', encode_int 70000), (''cpuTempMilliC'', encode_int 0),
      (''sampleCount'', encode_uint 0), (''lastUpdateEpoch'', encode_uint 0),
      (''statusText'', encode_bytes (c_string ''initialising'')),
      (''portAlarmThresholdMilliC.1'', encode_int 80000), (''portAlarmThresholdMilliC.2'', encode_int 80000),
      (''portAlarmThresholdMilliC.3'', encode_int 80000), (''portAlarmThresholdMilliC.4'', encode_int 80000)]"

definition config_defaults :: "(string \<times> bytes) list" where
  "config_defaults =
     [(''deviceName'', encode_bytes (c_string ''agentx-demo'')), (''adminStatusExt'', encode_int 1),
      (''sampleIntervalSec'', encode_uint 60),
      (''portDescr.1'', encode_bytes (c_string ''port'')), (''portDescr.2'', encode_bytes (c_string ''port'')),
      (''portDescr.3'', encode_bytes (c_string ''port'')), (''portDescr.4'', encode_bytes (c_string ''port'')),
      (''portAdminStatus.1'', encode_int 1), (''portAdminStatus.2'', encode_int 1),
      (''portAdminStatus.3'', encode_int 1), (''portAdminStatus.4'', encode_int 1)]"

lemma key_of_inst:
  assumes "valid_oid xs" and "col \<noteq> []" and "length (cell_key col xs) \<le> STORAGE_KEY_MAX"
  shows "key_of col (inst_of xs) = (STORAGE_OK, cell_key col xs)"
proof -
  have "inst_wf (inst_of xs)" "0 < ti_len (inst_of xs)"
    using assms(1) by (auto simp: valid_oid_def inst_of_def inst_wf_def)
  from table_cell_key_spec [OF this, of col "''''" "STORAGE_KEY_MAX + 1" "cell_key col xs"] assms
  have "table_cell_key (Some col) (Some (inst_of xs)) (Some '''') (STORAGE_KEY_MAX + 1) =
      (STORAGE_OK, Some (cell_key col xs))" by simp
  then show ?thesis unfolding key_of_def by simp
qed

lemma digit_chars:
  "digit_char (Suc 0) = CHR ''1''" "digit_char 2 = CHR ''2''" "digit_char 3 = CHR ''3''" "digit_char 4 = CHR ''4''"
  by code_simp+

lemma small_rows:
  "cell_key ''portDescr'' [1] = ''portDescr.1''" "cell_key ''portDescr'' [2] = ''portDescr.2''"
  "cell_key ''portDescr'' [3] = ''portDescr.3''" "cell_key ''portDescr'' [4] = ''portDescr.4''"
  "cell_key ''portAdminStatus'' [1] = ''portAdminStatus.1''"
  "cell_key ''portAdminStatus'' [2] = ''portAdminStatus.2''"
  "cell_key ''portAdminStatus'' [3] = ''portAdminStatus.3''"
  "cell_key ''portAdminStatus'' [4] = ''portAdminStatus.4''"
  "cell_key ''portAlarmThresholdMilliC'' [1] = ''portAlarmThresholdMilliC.1''"
  "cell_key ''portAlarmThresholdMilliC'' [2] = ''portAlarmThresholdMilliC.2''"
  "cell_key ''portAlarmThresholdMilliC'' [3] = ''portAlarmThresholdMilliC.3''"
  "cell_key ''portAlarmThresholdMilliC'' [4] = ''portAlarmThresholdMilliC.4''"
  by (simp_all add: cell_key_def dec_string.simps digit_chars)

lemma seed_cell_row:
  "valid_oid [row] \<Longrightarrow> col \<noteq> [] \<Longrightarrow> length (cell_key col [row]) \<le> STORAGE_KEY_MAX \<Longrightarrow>
     seed_cell col f row = f (cell_key col [row])"
  by (rule ext) (simp add: seed_cell_def key_of_inst)

lemma seed_port_column:
  "seed_column ''portDescr'' f = map f [''portDescr.1'', ''portDescr.2'', ''portDescr.3'', ''portDescr.4'']"
  "seed_column ''portAdminStatus'' f =
     map f [''portAdminStatus.1'', ''portAdminStatus.2'', ''portAdminStatus.3'', ''portAdminStatus.4'']"
  "seed_column ''portAlarmThresholdMilliC'' f =
     map f [''portAlarmThresholdMilliC.1'', ''portAlarmThresholdMilliC.2'',
            ''portAlarmThresholdMilliC.3'', ''portAlarmThresholdMilliC.4'']"
  by (simp_all add: seed_column_def upt_rec seed_cell_row valid_oid_def small_rows
      numeral_2_eq_2 [symmetric])

subsection \<open>Seeding fills in, and nothing else\<close>

text \<open>
  What the steps may do to the contents \<open>m\<close>: a key of the defaults gets its default; without
  \<open>overwrite\<close> only when it is absent.
\<close>

definition filled :: "bool \<Rightarrow> (string \<times> bytes) list \<Rightarrow> store \<Rightarrow> store \<Rightarrow> bool" where
  "filled overwrite defaults m m' \<longleftrightarrow>
     (\<forall>k. m' k = m k \<or> (\<exists>d. (k, d) \<in> set defaults \<and> m' k = Some d \<and> (overwrite \<or> m k = None)))"

lemma filled_refl [simp]: "filled ov ds m m"
  by (simp add: filled_def)

lemma filled_trans: "filled ov ds m m' \<Longrightarrow> filled ov es m' m'' \<Longrightarrow> filled ov (ds @ es) m m''"
  unfolding filled_def by (metis Un_iff set_append)

definition fill :: "bool \<Rightarrow> (string \<times> bytes) list \<Rightarrow> store \<Rightarrow> store" where
  "fill overwrite defaults m =
     foldl (\<lambda>m (k, d). if overwrite \<or> m k = None then m(k \<mapsto> d) else m) m defaults"

lemma fill_simps [simp]:
  "fill ov [] m = m"
  "fill ov ((k, d) # ds) m = fill ov ds (if ov \<or> m k = None then m(k \<mapsto> d) else m)"
  by (simp_all add: fill_def)

context lmdb_laws
begin

text \<open>A step that seeds \<open>d\<close> under \<open>k\<close>, on a transaction that can write.\<close>

definition seeds :: "bool \<Rightarrow> string \<times> bytes \<Rightarrow> 't seed \<Rightarrow> bool" where
  "seeds ov kd f \<longleftrightarrow>
     (\<forall>txn rc txnp. \<not> stx_readonly txn \<longrightarrow> \<not> txn_ro (stx_txn txn) \<longrightarrow> f (Some txn) = (rc, txnp) \<longrightarrow>
        (\<exists>t'. txnp = Some t' \<and>
          (rc = STORAGE_OK \<longrightarrow> \<not> stx_readonly t' \<and> \<not> txn_ro (stx_txn t') \<and>
             filled ov [kd] (txn_map (stx_txn txn)) (txn_map (stx_txn t')))))"

lemma txn_put_fills:
  assumes "txn_put_raw L t (Some k) d = (STORAGE_OK, t')" and "ov \<or> txn_map t k = None"
  shows "filled ov [(k, d)] (txn_map t) (txn_map t') \<and> txn_ro t' = txn_ro t"
  using txn_put_raw_stores [OF assms(1)] assms(2) by (auto simp: filled_def)

lemma probe_notfound:
  "fst (storage_txn_get_int L (Some txn) (Some k) (Some i)) = STORAGE_ERR_NOTFOUND \<Longrightarrow>
     txn_map (stx_txn txn) k = None"
  "fst (storage_txn_get_uint L (Some txn) (Some k) (Some u)) = STORAGE_ERR_NOTFOUND \<Longrightarrow>
     txn_map (stx_txn txn) k = None"
  "fst (storage_txn_get_bytes L (Some txn) (Some k) (Some b) (Some n)) = STORAGE_ERR_NOTFOUND \<Longrightarrow>
     txn_map (stx_txn txn) k = None"
proof -
  obtain rrc d where raw: "txn_get_raw L (stx_txn txn) (Some k) = (rrc, d)" by fastforce
  have hd: "decode_header d ty \<noteq> (STORAGE_ERR_NOTFOUND, p)" for ty p
    using decode_header_rc [of d ty] by auto
  note defs = storage_txn_get_int_def storage_txn_get_uint_def storage_txn_get_bytes_def
    txn_reader_def txn_get_int_impl_def txn_get_uint_impl_def txn_get_bytes_impl_def
  show "fst (storage_txn_get_int L (Some txn) (Some k) (Some i)) = STORAGE_ERR_NOTFOUND \<Longrightarrow>
      txn_map (stx_txn txn) k = None"
    using txn_get_raw_cases(2) [OF raw] hd by (auto simp: defs raw split: prod.splits if_splits)
  show "fst (storage_txn_get_uint L (Some txn) (Some k) (Some u)) = STORAGE_ERR_NOTFOUND \<Longrightarrow>
      txn_map (stx_txn txn) k = None"
    using txn_get_raw_cases(2) [OF raw] hd by (auto simp: defs raw split: prod.splits if_splits)
  show "fst (storage_txn_get_bytes L (Some txn) (Some k) (Some b) (Some n)) = STORAGE_ERR_NOTFOUND \<Longrightarrow>
      txn_map (stx_txn txn) k = None"
    using txn_get_raw_cases(2) [OF raw] hd by (auto simp: defs raw split: prod.splits if_splits)
qed

lemma seeds_writer:
  fixes f :: "'t seed" and probe :: "'t storage_txn option \<Rightarrow> storage_rc"
  assumes "\<And>t t'. g t = (STORAGE_OK, t') \<Longrightarrow> txn_put_raw L t (Some k) d = (STORAGE_OK, t')"
    and "\<And>txn. probe (Some txn) = STORAGE_ERR_NOTFOUND \<Longrightarrow> txn_map (stx_txn txn) k = None"
    and "\<And>txn. f txn = (let exists_rc = (if \<not> ov then probe txn else STORAGE_ERR_NOTFOUND) in
           if ov \<or> exists_rc = STORAGE_ERR_NOTFOUND then txn_writer txn g else (STORAGE_OK, txn))"
  shows "seeds ov (k, d) f"
  unfolding seeds_def
proof (intro allI impI)
  fix txn rc txnp
  assume w: "\<not> stx_readonly txn" "\<not> txn_ro (stx_txn txn)" and f: "f (Some txn) = (rc, txnp)"
  show "\<exists>t'. txnp = Some t' \<and> (rc = STORAGE_OK \<longrightarrow> \<not> stx_readonly t' \<and> \<not> txn_ro (stx_txn t') \<and>
      filled ov [(k, d)] (txn_map (stx_txn txn)) (txn_map (stx_txn t')))"
  proof (cases "ov \<or> probe (Some txn) = STORAGE_ERR_NOTFOUND")
    case False
    with f w assms(3) [of "Some txn"] show ?thesis by auto
  next
    case True
    then have absent: "ov \<or> txn_map (stx_txn txn) k = None" by (auto dest: assms(2))
    obtain grc t' where g: "g (stx_txn txn) = (grc, t')" by fastforce
    have "f (Some txn) = txn_writer (Some txn) g"
      using True by (subst assms(3)) (auto simp: Let_def)
    then have "txnp = Some (txn\<lparr>stx_txn := t'\<rparr>)" "rc = grc"
      using f w g by (auto simp: txn_writer_def)
    with g w txn_put_fills [OF assms(1) absent] show ?thesis by auto
  qed
qed

lemma seeds_int: "seeds ov (k, encode_int v) (seed_int L ov k v)"
  by (rule seeds_writer [where g = "\<lambda>t. txn_set_int_impl L t (Some k) v"
        and probe = "\<lambda>txn. fst (storage_txn_get_int L txn (Some k) (Some 0))"])
    (auto simp: seed_int_def storage_txn_set_int_def txn_set_int_impl_def encode_int_def
      intro: probe_notfound)

lemma seeds_uint: "seeds ov (k, encode_uint v) (seed_uint L ov k v)"
  by (rule seeds_writer [where g = "\<lambda>t. txn_set_uint_impl L t (Some k) v"
        and probe = "\<lambda>txn. fst (storage_txn_get_uint L txn (Some k) (Some 0))"])
    (auto simp: seed_uint_def storage_txn_set_uint_def txn_set_uint_impl_def encode_uint_def
      intro: probe_notfound)

lemma seeds_bytes: "seeds ov (k, encode_bytes v) (seed_bytes L ov k v)"
  by (rule seeds_writer [where g = "\<lambda>t. txn_set_bytes_impl L t (Some k) (Some v) (length v)"
        and probe = "\<lambda>txn. fst (storage_txn_get_bytes L txn (Some k) (Some [0]) (Some 1))"])
    (auto simp: seed_bytes_def storage_txn_set_bytes_def txn_set_bytes_impl_def encode_bytes_def
      split: if_splits intro: probe_notfound)

lemma run_seeds_fills:
  assumes "list_all2 (seeds ov) ds fs" and "run_seeds fs (Some txn) = (rc, txnp)"
    and "\<not> stx_readonly txn" and "\<not> txn_ro (stx_txn txn)"
  shows "\<exists>t'. txnp = Some t' \<and> (rc = STORAGE_OK \<longrightarrow> \<not> txn_ro (stx_txn t') \<and>
    filled ov ds (txn_map (stx_txn txn)) (txn_map (stx_txn t')))"
  using assms
proof (induction arbitrary: txn rule: list_all2_induct)
  case (Cons kd ds f fs)
  obtain rc1 p1 where f: "f (Some txn) = (rc1, p1)" by fastforce
  with Cons.hyps(1) Cons.prems(2,3) obtain t1 where t1: "p1 = Some t1"
    "rc1 = STORAGE_OK \<Longrightarrow> \<not> stx_readonly t1 \<and> \<not> txn_ro (stx_txn t1) \<and>
       filled ov [kd] (txn_map (stx_txn txn)) (txn_map (stx_txn t1))"
    unfolding seeds_def by blast
  show ?case
  proof (cases "rc1 = STORAGE_OK")
    case False
    with Cons.prems(1) f t1 show ?thesis by auto
  next
    case True
    with Cons.IH [of t1] Cons.prems(1) f t1 show ?thesis
      by (auto dest: filled_trans [of ov "[kd]"])
  qed
qed auto

text \<open>The whole function: all of the steps or nothing, and no handle is left behind.\<close>

lemma bootstrap_fills:
  assumes "list_all2 (seeds ov) ds fs" and "bootstrap L (Some env) fs = (rc, envp)"
  shows "\<exists>env'. envp = Some env' \<and> same_handle live_txns live_cursors env env' \<and>
    (if rc = STORAGE_OK then filled ov ds (env_map (se_env env)) (env_map (se_env env'))
     else env_map (se_env env') = env_map (se_env env))"
proof -
  obtain brc t e where b: "mdb_txn_begin L (se_env env) False = (brc, t, e)"
    by (cases "mdb_txn_begin L (se_env env) False")
  note bg = begin_env [OF b]
  show ?thesis
  proof (cases "se_readonly env \<or> brc \<noteq> MDB_SUCCESS \<or> \<not> malloc_ok L sizeof_storage_txn")
    case True
    with assms(2) b bg show ?thesis
      by (auto simp: bootstrap_def storage_txn_begin_def same_handle_def abort_txn_def abort_env Let_def
          split: if_splits)
  next
    case False
    let ?txn = "\<lparr>stx_txn = t, stx_readonly = False\<rparr>"
    obtain rc1 p where r: "run_seeds fs (Some ?txn) = (rc1, p)" by fastforce
    have view: "txn_map t = env_map (se_env env)" "\<not> txn_ro t"
      using begin_view [of "se_env env" False t e] b False by auto
    from run_seeds_fills [OF assms(1) r] view obtain t' where t': "p = Some t'"
      "rc1 = STORAGE_OK \<Longrightarrow> \<not> txn_ro (stx_txn t') \<and> filled ov ds (env_map (se_env env)) (txn_map (stx_txn t'))"
      by auto
    obtain crc e' where c: "mdb_txn_commit L (stx_txn t') e = (crc, e')" by fastforce
    from assms(2) False b r t'(1) c have "rc = (if rc1 = STORAGE_OK then map_mdb_rc crc else rc1)"
      "envp = Some (env\<lparr>se_env := if rc1 = STORAGE_OK then e' else mdb_txn_abort L (stx_txn t') e\<rparr>)"
      by (auto simp: bootstrap_def storage_txn_begin_def storage_txn_commit_def commit_write_txn_def
          storage_txn_abort_def abort_txn_def Let_def split: if_splits)
    with bg False t'(2) commit_env [OF c] show ?thesis
      by (auto simp: same_handle_def abort_env)
  qed
qed

end

context lmdb_laws
begin

lemma cache_seeds:
  "overwrite = ov \<Longrightarrow> list_all2 (seeds ov) cache_defaults
     (seed_config_scalars L STORAGE_MODE_VOLATILE overwrite @ seed_status_scalars L overwrite @
      seed_port_columns L STORAGE_MODE_VOLATILE overwrite)"
  by (simp add: cache_defaults_def seed_config_scalars_def seed_status_scalars_def
      seed_port_columns_def when_mode_def seed_port_column seeds_int seeds_uint seeds_bytes)

lemma config_seeds:
  "list_all2 (seeds False) config_defaults
     (seed_config_scalars L STORAGE_MODE_PERSISTENT False @
      seed_port_columns L STORAGE_MODE_PERSISTENT False)"
  by (simp add: config_defaults_def seed_config_scalars_def seed_port_columns_def when_mode_def
      seed_port_column seeds_int seeds_uint seeds_bytes)

end

subsection \<open>While the platform has resources every default is there afterwards\<close>

context lmdb_reliable
begin

definition seeds_exactly :: "bool \<Rightarrow> string \<times> bytes \<Rightarrow> 'b seed \<Rightarrow> bool" where
  "seeds_exactly ov kd f \<longleftrightarrow>
     (\<forall>txn. \<not> stx_readonly txn \<longrightarrow> \<not> txn_ro (stx_txn txn) \<longrightarrow>
        (\<exists>t'. f (Some txn) = (STORAGE_OK, Some t') \<and> \<not> stx_readonly t' \<and> \<not> txn_ro (stx_txn t') \<and>
           txn_map (stx_txn t') = fill ov [kd] (txn_map (stx_txn txn))))"

lemma probe_total:
  assumes "key_ok k"
  shows "fst (storage_txn_get_int L (Some txn) (Some k) (Some i)) = STORAGE_ERR_NOTFOUND \<longleftrightarrow>
      txn_map (stx_txn txn) k = None"
    and "fst (storage_txn_get_uint L (Some txn) (Some k) (Some u)) = STORAGE_ERR_NOTFOUND \<longleftrightarrow>
      txn_map (stx_txn txn) k = None"
    and "fst (storage_txn_get_bytes L (Some txn) (Some k) (Some b) (Some n)) = STORAGE_ERR_NOTFOUND \<longleftrightarrow>
      txn_map (stx_txn txn) k = None"
  by (simp_all add: storage_txn_get_int_def storage_txn_get_uint_def storage_txn_get_bytes_def
      txn_reader_def txn_get_total [OF assms] decode_not_notfound split: option.splits)

lemma seeds_exactly_writer:
  fixes f :: "'b seed" and probe :: "'b storage_txn option \<Rightarrow> storage_rc"
  assumes "\<And>t. \<not> txn_ro t \<Longrightarrow> \<exists>t'. g t = (STORAGE_OK, t') \<and> txn_put_raw L t (Some k) d = (STORAGE_OK, t')"
    and "\<And>txn. probe (Some txn) = STORAGE_ERR_NOTFOUND \<longleftrightarrow> txn_map (stx_txn txn) k = None"
    and "\<And>txn. f txn = (let exists_rc = (if \<not> ov then probe txn else STORAGE_ERR_NOTFOUND) in
           if ov \<or> exists_rc = STORAGE_ERR_NOTFOUND then txn_writer txn g else (STORAGE_OK, txn))"
  shows "seeds_exactly ov (k, d) f"
  unfolding seeds_exactly_def
proof (intro allI impI)
  fix txn :: "'b storage_txn"
  assume w: "\<not> stx_readonly txn" "\<not> txn_ro (stx_txn txn)"
  show "\<exists>t'. f (Some txn) = (STORAGE_OK, Some t') \<and> \<not> stx_readonly t' \<and> \<not> txn_ro (stx_txn t') \<and>
      txn_map (stx_txn t') = fill ov [(k, d)] (txn_map (stx_txn txn))"
  proof (cases "ov \<or> txn_map (stx_txn txn) k = None")
    case False
    then have "f (Some txn) = (STORAGE_OK, Some txn)"
      using assms(2) [of txn] by (subst assms(3)) (auto simp: Let_def)
    with False w show ?thesis by auto
  next
    case True
    then have "f (Some txn) = txn_writer (Some txn) g"
      using assms(2) [of txn] by (subst assms(3)) (auto simp: Let_def)
    moreover obtain t' where g: "g (stx_txn txn) = (STORAGE_OK, t')"
      "txn_put_raw L (stx_txn txn) (Some k) d = (STORAGE_OK, t')" using assms(1) w by blast
    ultimately show ?thesis
      using True w txn_put_raw_stores [OF g(2)] by (auto simp: txn_writer_def)
  qed
qed

lemma seeds_exactly_ops:
  assumes "key_ok k"
  shows "seeds_exactly ov (k, encode_int v) (seed_int L ov k v)"
    and "seeds_exactly ov (k, encode_uint u) (seed_uint L ov k u)"
    and "seeds_exactly ov (k, encode_bytes b) (seed_bytes L ov k b)"
proof -
  have put: "\<exists>t'. txn_put_raw L t (Some k) d = (STORAGE_OK, t')" if "\<not> txn_ro t" for t d
    using txn_put_raw_total [OF assms that, of d] by (cases "txn_put_raw L t (Some k) d") auto
  show "seeds_exactly ov (k, encode_int v) (seed_int L ov k v)"
    by (rule seeds_exactly_writer [where g = "\<lambda>t. txn_set_int_impl L t (Some k) v"
          and probe = "\<lambda>txn. fst (storage_txn_get_int L txn (Some k) (Some 0))"])
      (use put in \<open>auto simp: seed_int_def storage_txn_set_int_def txn_set_int_impl_def encode_int_def
        probe_total [OF assms]\<close>)
  show "seeds_exactly ov (k, encode_uint u) (seed_uint L ov k u)"
    by (rule seeds_exactly_writer [where g = "\<lambda>t. txn_set_uint_impl L t (Some k) u"
          and probe = "\<lambda>txn. fst (storage_txn_get_uint L txn (Some k) (Some 0))"])
      (use put in \<open>auto simp: seed_uint_def storage_txn_set_uint_def txn_set_uint_impl_def
        encode_uint_def probe_total [OF assms]\<close>)
  show "seeds_exactly ov (k, encode_bytes b) (seed_bytes L ov k b)"
    by (rule seeds_exactly_writer [where g = "\<lambda>t. txn_set_bytes_impl L t (Some k) (Some b) (length b)"
          and probe = "\<lambda>txn. fst (storage_txn_get_bytes L txn (Some k) (Some [0]) (Some 1))"])
      (use put in \<open>auto simp: seed_bytes_def storage_txn_set_bytes_def txn_set_bytes_impl_def
        encode_bytes_def malloc_total probe_total [OF assms]\<close>)
qed

lemma run_seeds_exactly:
  "list_all2 (seeds_exactly ov) ds fs \<Longrightarrow> \<not> stx_readonly txn \<Longrightarrow> \<not> txn_ro (stx_txn txn) \<Longrightarrow>
     \<exists>t'. run_seeds fs (Some txn) = (STORAGE_OK, Some t') \<and> \<not> txn_ro (stx_txn t') \<and>
       txn_map (stx_txn t') = fill ov ds (txn_map (stx_txn txn))"
proof (induction arbitrary: txn rule: list_all2_induct)
  case (Cons kd ds f fs)
  from Cons.hyps(1) Cons.prems obtain t1 where "f (Some txn) = (STORAGE_OK, Some t1)"
    "\<not> stx_readonly t1" "\<not> txn_ro (stx_txn t1)"
    "txn_map (stx_txn t1) = fill ov [kd] (txn_map (stx_txn txn))"
    unfolding seeds_exactly_def by blast
  with Cons.IH [of t1] show ?case by (cases kd) auto
qed simp

lemma bootstrap_exactly:
  assumes "list_all2 (seeds_exactly ov) ds fs" and "\<not> se_readonly env"
  shows "\<exists>env'. bootstrap L (Some env) fs = (STORAGE_OK, Some env') \<and>
    env_map (se_env env') = fill ov ds (env_map (se_env env))"
proof -
  obtain t e where b: "mdb_txn_begin L (se_env env) False = (MDB_SUCCESS, t, e)"
    using begin_total [of "se_env env" False] by (cases "mdb_txn_begin L (se_env env) False") auto
  have view: "txn_map t = env_map (se_env env)" "\<not> txn_ro t" using begin_view [OF b] by auto
  from run_seeds_exactly [OF assms(1), of "\<lparr>stx_txn = t, stx_readonly = False\<rparr>"] view
  obtain t' where r: "run_seeds fs (Some \<lparr>stx_txn = t, stx_readonly = False\<rparr>) = (STORAGE_OK, Some t')"
    "\<not> txn_ro (stx_txn t')" "txn_map (stx_txn t') = fill ov ds (env_map (se_env env))" by auto
  obtain e' where c: "mdb_txn_commit L (stx_txn t') e = (MDB_SUCCESS, e')"
    using commit_total [of "stx_txn t'" e] by (cases "mdb_txn_commit L (stx_txn t') e") auto
  with assms(2) b r commit_env [OF c] malloc_total show ?thesis
    by (auto simp: bootstrap_def storage_txn_begin_def storage_txn_commit_def commit_write_txn_def Let_def)
qed

lemma seeds_exactly_lists:
  "list_all2 (seeds_exactly ov) cache_defaults
     (seed_config_scalars L STORAGE_MODE_VOLATILE ov @ seed_status_scalars L ov @
      seed_port_columns L STORAGE_MODE_VOLATILE ov)"
  "list_all2 (seeds_exactly False) config_defaults
     (seed_config_scalars L STORAGE_MODE_PERSISTENT False @
      seed_port_columns L STORAGE_MODE_PERSISTENT False)"
  by (simp_all add: cache_defaults_def config_defaults_def seed_config_scalars_def
      seed_status_scalars_def seed_port_columns_def when_mode_def seed_port_column
      seeds_exactly_ops key_ok_def)

end

lemma fill_notin: "k \<notin> fst ` set ds \<Longrightarrow> fill ov ds m k = m k"
  by (induction ds arbitrary: m) auto

text \<open>With distinct keys, seeding without \<open>overwrite\<close> is the union with the defaults below.\<close>

lemma fill_union:
  "distinct (map fst ds) \<Longrightarrow>
     fill False ds m k = (case m k of Some d \<Rightarrow> Some d | None \<Rightarrow> map_of ds k)"
proof (induction ds arbitrary: m)
  case (Cons kd ds)
  obtain a d where kd: "kd = (a, d)" by fastforce
  show ?case
  proof (cases "k = a")
    case True
    have "fill False ds m' a = m' a" for m' using Cons.prems kd by (auto intro: fill_notin)
    with True kd show ?thesis by (auto split: option.splits)
  next
    case False
    with Cons kd show ?thesis by (auto split: option.splits)
  qed
qed (simp split: option.splits)

lemma defaults_distinct: "distinct (map fst cache_defaults)" "distinct (map fst config_defaults)"
  by (simp_all add: cache_defaults_def config_defaults_def)

context lmdb_reliable
begin

lemma bootstrap_again:
  assumes "\<not> se_readonly env" and "distinct (map fst ds)"
    and "\<And>env. \<not> se_readonly env \<Longrightarrow> \<exists>env'. boot (Some env) = (STORAGE_OK, Some env') \<and>
      env_map (se_env env') = fill False ds (env_map (se_env env))"
    and "\<And>env rc env'. boot (Some env) = (rc, Some env') \<Longrightarrow> se_readonly env' = se_readonly env"
  shows "\<exists>e1 e2. boot (Some env) = (STORAGE_OK, Some e1) \<and>
    (\<forall>k. env_map (se_env e1) k = (case env_map (se_env env) k of Some d \<Rightarrow> Some d | None \<Rightarrow> map_of ds k)) \<and>
    boot (Some e1) = (STORAGE_OK, Some e2) \<and> env_map (se_env e2) = env_map (se_env e1)"
proof -
  from assms(3) [OF assms(1)] obtain e1 where
    e1: "boot (Some env) = (STORAGE_OK, Some e1)" "env_map (se_env e1) = fill False ds (env_map (se_env env))" by blast
  with assms(1,4) have "\<not> se_readonly e1" by blast
  from assms(3) [OF this] obtain e2 where
    e2: "boot (Some e1) = (STORAGE_OK, Some e2)" "env_map (se_env e2) = fill False ds (env_map (se_env e1))" by blast
  have "fill False ds (fill False ds m) = fill False ds m" for m
    by (rule ext) (simp add: fill_union [OF assms(2)] split: option.splits)
  with e1 e2 fill_union [OF assms(2), of "env_map (se_env env)"] show ?thesis by auto
qed

lemma bootstrap_twice:
  assumes "\<not> se_readonly env"
  shows "\<exists>e1 e2. config_bootstrap_defaults L (Some env) = (STORAGE_OK, Some e1) \<and>
      (\<forall>k. env_map (se_env e1) k =
        (case env_map (se_env env) k of Some d \<Rightarrow> Some d | None \<Rightarrow> map_of config_defaults k)) \<and>
      config_bootstrap_defaults L (Some e1) = (STORAGE_OK, Some e2) \<and> env_map (se_env e2) = env_map (se_env e1)"
    and "\<exists>e1 e2. cache_bootstrap_defaults L (Some env) False = (STORAGE_OK, Some e1) \<and>
      (\<forall>k. env_map (se_env e1) k =
        (case env_map (se_env env) k of Some d \<Rightarrow> Some d | None \<Rightarrow> map_of cache_defaults k)) \<and>
      cache_bootstrap_defaults L (Some e1) False = (STORAGE_OK, Some e2) \<and> env_map (se_env e2) = env_map (se_env e1)"
proof -
  show "\<exists>e1 e2. config_bootstrap_defaults L (Some env) = (STORAGE_OK, Some e1) \<and>
      (\<forall>k. env_map (se_env e1) k =
        (case env_map (se_env env) k of Some d \<Rightarrow> Some d | None \<Rightarrow> map_of config_defaults k)) \<and>
      config_bootstrap_defaults L (Some e1) = (STORAGE_OK, Some e2) \<and> env_map (se_env e2) = env_map (se_env e1)"
    using bootstrap_exactly [OF seeds_exactly_lists(2)] bootstrap_fills [OF config_seeds]
    by (intro bootstrap_again [OF assms defaults_distinct(2)])
      (fastforce simp: config_bootstrap_defaults_def same_handle_def)+
  show "\<exists>e1 e2. cache_bootstrap_defaults L (Some env) False = (STORAGE_OK, Some e1) \<and>
      (\<forall>k. env_map (se_env e1) k =
        (case env_map (se_env env) k of Some d \<Rightarrow> Some d | None \<Rightarrow> map_of cache_defaults k)) \<and>
      cache_bootstrap_defaults L (Some e1) False = (STORAGE_OK, Some e2) \<and> env_map (se_env e2) = env_map (se_env e1)"
    using bootstrap_exactly [OF seeds_exactly_lists(1)] bootstrap_fills [OF cache_seeds [OF refl]]
    by (intro bootstrap_again [OF assms defaults_distinct(1), where boot = "\<lambda>e. cache_bootstrap_defaults L e False"])
      (fastforce simp: cache_bootstrap_defaults_def same_handle_def)+
qed

end

end
