(* ===== verification/Main_Options.thy ===== *)
theory Main_Options
  imports Prelude
begin

text \<open>
  The beginning of \<open>main\<close> in \<open>src/main.c\<close>: the options, the signal handlers and what happens before the
  storage is opened. \<open>getopt\<close> is the POSIX function on the option string \<open>fL:x:C:c:s:h\<close>: it stops at
  the first operand. glibc also looks for options behind operands; \<open>main\<close> refuses a command line
  with operands in either case. The state of \<open>getopt\<close> is the unread rest of the current cluster and
  the arguments behind the current one, so \<open>optind >= argc\<close> is that no argument is left.
\<close>

subsection \<open>getopt\<close>

datatype opt_result = Opt_End | Opt char string | Opt_Unknown

definition opt_flags :: string where "opt_flags = ''fh''"
definition opt_with_arg :: string where "opt_with_arg = ''LxCcs''"

text \<open>One option of a cluster: a flag, or an option whose argument is the rest or the next one.\<close>

fun getopt_cluster :: "string \<Rightarrow> string list \<Rightarrow> opt_result \<times> string \<times> string list" where
  "getopt_cluster [] args = (Opt_End, [], args)"
| "getopt_cluster (c # rest) args =
     (if c \<in> set opt_flags then (Opt c '''', rest, args)
      else if c \<in> set opt_with_arg then
        (if rest \<noteq> [] then (Opt c rest, [], args)
         else (case args of [] \<Rightarrow> (Opt_Unknown, [], []) | a # args \<Rightarrow> (Opt c a, [], args)))
      else (Opt_Unknown, rest, args))"

definition getopt :: "string \<Rightarrow> string list \<Rightarrow> opt_result \<times> string \<times> string list" where
  "getopt cluster args =
     (if cluster \<noteq> [] then getopt_cluster cluster args
      else (case args of
          [] \<Rightarrow> (Opt_End, [], [])
        | a # rest \<Rightarrow>
            if a = ''--'' then (Opt_End, [], rest)
            else if length a \<ge> 2 \<and> hd a = CHR ''-'' then getopt_cluster (tl a) rest
            else (Opt_End, [], args)))"

definition unread :: "string \<Rightarrow> string list \<Rightarrow> nat" where
  "unread cluster args = length cluster + sum_list (map (\<lambda>a. Suc (length a)) args)"

lemma getopt_cluster_reads:
  "getopt_cluster cs args = (r, cs', args') \<Longrightarrow> r \<noteq> Opt_End \<Longrightarrow> unread cs' args' < unread cs args"
  by (cases cs) (auto simp: unread_def split: if_splits list.splits)

lemma getopt_reads:
  assumes "getopt cs args = (r, cs', args')" and "r \<noteq> Opt_End"
  shows "unread cs' args' < unread cs args"
proof (cases "cs = []")
  case False
  with assms getopt_cluster_reads show ?thesis by (simp add: getopt_def)
next
  case True
  with assms obtain a rest where a: "args = a # rest" "getopt_cluster (tl a) rest = (r, cs', args')"
    by (auto simp: getopt_def split: list.splits if_splits)
  from getopt_cluster_reads [OF a(2) assms(2)] a(1) True show ?thesis by (simp add: unread_def)
qed

subsection \<open>The option loop\<close>

datatype log_mode = Log_Default | Log_Stderr | Log_File

record options =
  op_foreground :: bool
  op_agentx_socket :: "string option"
  op_config_path :: "string option"
  op_cache_path :: "string option"
  op_ipc_path :: "string option"
  op_log_file :: "string option"
  op_log_mode :: log_mode

definition no_options :: options where
  "no_options = \<lparr>op_foreground = False, op_agentx_socket = None, op_config_path = None,
     op_cache_path = None, op_ipc_path = None, op_log_file = None, op_log_mode = Log_Default\<rparr>"

text \<open>\<open>main\<close> returns at once, or goes on with the options.\<close>

datatype parsed = Exit int | Proceed options

function parse_options :: "options \<Rightarrow> string \<Rightarrow> string list \<Rightarrow> parsed" where
  "parse_options op cluster args =
     (case getopt cluster args of
        (Opt_End, _, args) \<Rightarrow> if args \<noteq> [] then Exit 1 else Proceed op
      | (Opt_Unknown, _, _) \<Rightarrow> Exit 1
      | (Opt c optarg, cluster, args) \<Rightarrow>
          if c = CHR ''f'' then parse_options (op\<lparr>op_foreground := True\<rparr>) cluster args
          else if c = CHR ''L'' then
            (if optarg = ''o'' then parse_options (op\<lparr>op_log_mode := Log_Stderr\<rparr>) cluster args
             else if optarg = ''f'' then
               (case args of
                  [] \<Rightarrow> Exit 1
                | log # args \<Rightarrow>
                    parse_options (op\<lparr>op_log_mode := Log_File, op_log_file := Some log\<rparr>) cluster args)
             else Exit 1)
          else if c = CHR ''x'' then parse_options (op\<lparr>op_agentx_socket := Some optarg\<rparr>) cluster args
          else if c = CHR ''C'' then parse_options (op\<lparr>op_config_path := Some optarg\<rparr>) cluster args
          else if c = CHR ''c'' then parse_options (op\<lparr>op_cache_path := Some optarg\<rparr>) cluster args
          else if c = CHR ''s'' then parse_options (op\<lparr>op_ipc_path := Some optarg\<rparr>) cluster args
          else if c = CHR ''h'' then Exit 0
          else Exit 1)"
  by pat_completeness auto
termination
  by (relation "measure (\<lambda>(op, cluster, args). unread cluster args)")
    (auto simp: unread_def dest!: getopt_reads [OF sym])

subsection \<open>What the options mean\<close>

text \<open>
  An occurrence of an option on a command line, the ways to write it (argument apart or attached)
  and its effect.
\<close>

datatype occurrence =
    Foreground | Log_To_Stderr | Log_To_File string
  | Agentx_Socket string | Config_Path string | Cache_Path string | Ipc_Path string

fun option_arg :: "occurrence \<Rightarrow> (char \<times> string) option" where
  "option_arg (Agentx_Socket p) = Some (CHR ''x'', p)"
| "option_arg (Config_Path p) = Some (CHR ''C'', p)"
| "option_arg (Cache_Path p) = Some (CHR ''c'', p)"
| "option_arg (Ipc_Path p) = Some (CHR ''s'', p)"
| "option_arg _ = None"

inductive spells :: "occurrence \<Rightarrow> string list \<Rightarrow> bool" where
  "spells Foreground [''-f'']"
| "spells Log_To_Stderr [''-L'', ''o'']"
| "spells Log_To_Stderr [''-Lo'']"
| "spells (Log_To_File p) [''-L'', ''f'', p]"
| "spells (Log_To_File p) [''-Lf'', p]"
| "option_arg oc = Some (c, p) \<Longrightarrow> spells oc [[CHR ''-'', c], p]"
| "option_arg oc = Some (c, p) \<Longrightarrow> p \<noteq> [] \<Longrightarrow> spells oc [CHR ''-'' # c # p]"

fun occur :: "occurrence \<Rightarrow> options \<Rightarrow> options" where
  "occur Foreground op = op\<lparr>op_foreground := True\<rparr>"
| "occur Log_To_Stderr op = op\<lparr>op_log_mode := Log_Stderr\<rparr>"
| "occur (Log_To_File p) op = op\<lparr>op_log_mode := Log_File, op_log_file := Some p\<rparr>"
| "occur (Agentx_Socket p) op = op\<lparr>op_agentx_socket := Some p\<rparr>"
| "occur (Config_Path p) op = op\<lparr>op_config_path := Some p\<rparr>"
| "occur (Cache_Path p) op = op\<lparr>op_cache_path := Some p\<rparr>"
| "occur (Ipc_Path p) op = op\<lparr>op_ipc_path := Some p\<rparr>"

declare parse_options.simps [simp del]

lemmas getopt_simps = getopt_def opt_flags_def opt_with_arg_def

text \<open>A simple operand: not an option and not the end mark.\<close>

definition operand :: "string \<Rightarrow> bool" where
  "operand a \<longleftrightarrow> length a < 2 \<or> hd a \<noteq> CHR ''-''"

lemma option_arg_letter:
  "option_arg oc = Some (c, p) \<Longrightarrow> c \<noteq> CHR ''-'' \<and> c \<notin> set opt_flags \<and> c \<in> set opt_with_arg"
  by (cases oc) (auto simp: opt_flags_def opt_with_arg_def)

lemma getopt_option_arg:
  assumes "option_arg oc = Some (c, p)"
  shows "getopt '''' ([CHR ''-'', c] # p # args) = (Opt c p, '''', args)"
    and "p \<noteq> [] \<Longrightarrow> getopt '''' ((CHR ''-'' # c # p) # args) = (Opt c p, '''', args)"
  using option_arg_letter [OF assms] by (simp_all add: getopt_def)

lemma parse_option_arg:
  assumes "option_arg oc = Some (c, p)" and "getopt '''' args = (Opt c p, '''', rest)"
  shows "parse_options op '''' args = parse_options (occur oc op) '''' rest"
  using assms by (subst parse_options.simps) (cases oc; auto)

lemma parse_spelled:
  "spells oc ws \<Longrightarrow> parse_options op '''' (ws @ args) = parse_options (occur oc op) '''' args"
proof (induction rule: spells.induct)
  case (6 oc c p)
  then show ?case using parse_option_arg [OF 6 getopt_option_arg(1) [OF 6]] by simp
next
  case (7 oc c p)
  then show ?case using parse_option_arg [OF 7(1) getopt_option_arg(2) [OF 7]] by simp
qed (subst parse_options.simps; simp add: getopt_simps)+

lemma parse_occurrences:
  "list_all2 spells ocs wss \<Longrightarrow>
     parse_options op '''' (concat wss @ args) = parse_options (fold occur ocs op) '''' args"
  by (induction ocs wss arbitrary: op rule: list_all2_induct) (simp_all add: parse_spelled)

lemma parse_end:
  "parse_options op '''' [] = Proceed op"
  "parse_options op '''' (''-h'' # args) = Exit 0"
  "parse_options op '''' (''--'' # args) = (if args = [] then Proceed op else Exit 1)"
  "operand a \<Longrightarrow> parse_options op '''' (a # args) = Exit 1"
  by (subst parse_options.simps; auto simp: getopt_simps operand_def)+

end
