(* ===== verification/Mib_Registration.thy ===== *)
theory Mib_Registration
  imports Scalar_Objects
begin

text \<open>
  The registration of the MIB with net-snmp: \<open>init_demo_config\<close>, \<open>init_demo_status\<close> and the \<open>init_table_*\<close>
  functions of \<open>src/generated\<close>. A handler function pointer is the name of the handler. What they call of
  net-snmp is a parameter, the record \<open>registry_api\<close>; the locale \<open>registry\<close> states what the calls do to the
  list of served nodes and to the number of allocations the subagent still owns.
\<close>

subsection \<open>Registrations\<close>

datatype handler_access = HANDLER_CAN_RONLY | HANDLER_CAN_RWRITE

datatype node_handler = Handle_Scalar scalar | Handle_portConfigTable | Handle_sensorTable

record registration =
  rg_name :: string
  rg_handler :: node_handler
  rg_oid :: oid
  rg_access :: handler_access

record table_registration_info =
  tr_indexes :: "asn_type list"
  tr_min_column :: nat
  tr_max_column :: nat

datatype table_hooks = PortConfigTable_Hooks | SensorTable_Hooks

record iterator_info =
  ii_hooks :: table_hooks  \<comment> \<open>the first, next and free callbacks\<close>
  ii_table :: table_registration_info
  ii_sorted :: bool

datatype node = Scalar_Node registration | Table_Node registration iterator_info

fun node_reg :: "node \<Rightarrow> registration" where
  "node_reg (Scalar_Node r) = r"
| "node_reg (Table_Node r i) = r"

record 'w registry_api =
  create_handler_registration :: "'w \<Rightarrow> string \<Rightarrow> node_handler \<Rightarrow> oid \<Rightarrow> handler_access \<Rightarrow> registration option \<times> 'w"
  handler_registration_free :: "'w \<Rightarrow> registration \<Rightarrow> 'w"
  malloc_table_info :: "'w \<Rightarrow> bool \<times> 'w"
  free_table_info :: "'w \<Rightarrow> 'w"
  malloc_iterator_info :: "'w \<Rightarrow> bool \<times> 'w"
  free_iterator_info :: "'w \<Rightarrow> 'w"
  register_scalar :: "'w \<Rightarrow> registration option \<Rightarrow> bool \<times> 'w"
  register_table_iterator :: "'w \<Rightarrow> registration \<Rightarrow> iterator_info \<Rightarrow> bool \<times> 'w"

subsection \<open>The registration functions\<close>

text \<open>\<open>netsnmp_register_scalar(netsnmp_create_handler_registration(...))\<close>, the result unused.\<close>

definition register_scalar_node ::
  "'w registry_api \<Rightarrow> string \<Rightarrow> scalar \<Rightarrow> oid \<Rightarrow> handler_access \<Rightarrow> 'w \<Rightarrow> 'w" where
  "register_scalar_node G name ob oid modes w =
     (case create_handler_registration G w name (Handle_Scalar ob) oid modes of (reg, w) \<Rightarrow>
        snd (register_scalar G w reg))"

definition init_demo_config :: "'w registry_api \<Rightarrow> 'w \<Rightarrow> 'w" where
  "init_demo_config G w =
     (let w = register_scalar_node G ''deviceName'' DeviceName [1,3,6,1,4,1,99999,1,1] HANDLER_CAN_RWRITE w;
          w = register_scalar_node G ''tempThresholdMilliC'' TempThresholdMilliC [1,3,6,1,4,1,99999,1,2]
                HANDLER_CAN_RWRITE w;
          w = register_scalar_node G ''adminStatusExt'' AdminStatusExt [1,3,6,1,4,1,99999,1,3]
                HANDLER_CAN_RWRITE w
      in register_scalar_node G ''sampleIntervalSec'' SampleIntervalSec [1,3,6,1,4,1,99999,1,4]
           HANDLER_CAN_RWRITE w)"

definition init_demo_status :: "'w registry_api \<Rightarrow> 'w \<Rightarrow> 'w" where
  "init_demo_status G w =
     (let w = register_scalar_node G ''cpuTempMilliC'' CpuTempMilliC [1,3,6,1,4,1,99999,2,1] HANDLER_CAN_RONLY w;
          w = register_scalar_node G ''sampleCount'' SampleCount [1,3,6,1,4,1,99999,2,2] HANDLER_CAN_RONLY w;
          w = register_scalar_node G ''lastUpdateEpoch'' LastUpdateEpoch [1,3,6,1,4,1,99999,2,3]
                HANDLER_CAN_RONLY w
      in register_scalar_node G ''statusText'' StatusText [1,3,6,1,4,1,99999,2,4] HANDLER_CAN_RONLY w)"

text \<open>The body both table registrations share.\<close>

definition init_table ::
  "'w registry_api \<Rightarrow> string \<Rightarrow> node_handler \<Rightarrow> oid \<Rightarrow> handler_access \<Rightarrow> iterator_info \<Rightarrow> 'w \<Rightarrow> 'w" where
  "init_table G name h oid modes iinfo w =
     (case create_handler_registration G w name h oid modes of (reg, w) \<Rightarrow>
        (case reg of
           None \<Rightarrow> w
         | Some reg \<Rightarrow>
             (case malloc_table_info G w of (have_table, w) \<Rightarrow>
              case malloc_iterator_info G w of (have_iter, w) \<Rightarrow>
                if \<not> have_table \<or> \<not> have_iter then
                  (let w = (if have_table then free_table_info G w else w);
                       w = (if have_iter then free_iterator_info G w else w)
                   in handler_registration_free G w reg)
                else snd (register_table_iterator G w reg iinfo))))"

definition portConfigTable_iinfo :: iterator_info where
  "portConfigTable_iinfo = \<lparr>ii_hooks = PortConfigTable_Hooks,
     ii_table = \<lparr>tr_indexes = [ASN_UNSIGNED], tr_min_column = COLUMN_PORTDESCR,
       tr_max_column = COLUMN_PORTALARMTHRESHOLDMILLIC\<rparr>, ii_sorted = True\<rparr>"

definition init_table_portConfigTable :: "'w registry_api \<Rightarrow> 'w \<Rightarrow> 'w" where
  "init_table_portConfigTable G w =
     init_table G ''portConfigTable'' Handle_portConfigTable [1,3,6,1,4,1,99999,1,5] HANDLER_CAN_RWRITE
       portConfigTable_iinfo w"

definition sensorTable_iinfo :: iterator_info where
  "sensorTable_iinfo = \<lparr>ii_hooks = SensorTable_Hooks,
     ii_table = \<lparr>tr_indexes = [ASN_UNSIGNED], tr_min_column = COLUMN_SENSORNAME,
       tr_max_column = COLUMN_SENSORSAMPLECOUNT\<rparr>, ii_sorted = True\<rparr>"

definition init_table_sensorTable :: "'w registry_api \<Rightarrow> 'w \<Rightarrow> 'w" where
  "init_table_sensorTable G w =
     init_table G ''sensorTable'' Handle_sensorTable [1,3,6,1,4,1,99999,2,5] HANDLER_CAN_RONLY
       sensorTable_iinfo w"

definition init_demo_config_table :: "'w registry_api \<Rightarrow> 'w \<Rightarrow> 'w" where
  "init_demo_config_table G w = init_table_portConfigTable G w"

definition init_demo_status_table :: "'w registry_api \<Rightarrow> 'w \<Rightarrow> 'w" where
  "init_demo_status_table G w = init_table_sensorTable G w"

text \<open>The order in which \<open>main\<close> calls them.\<close>

definition init_mib :: "'w registry_api \<Rightarrow> 'w \<Rightarrow> 'w" where
  "init_mib G w = init_demo_status_table G (init_demo_status G (init_demo_config_table G (init_demo_config G w)))"

lemmas init_defs = init_mib_def init_demo_config_def init_demo_status_def init_demo_config_table_def
  init_demo_status_table_def init_table_portConfigTable_def init_table_sensorTable_def

subsection \<open>What net-snmp promises\<close>

text \<open>
  \<open>served\<close> lists the nodes in the order of their registration, \<open>held\<close> counts the allocations the caller
  owns. Creating a registration copies the arguments, registering takes over the memory whether or
  not it succeeds, freeing gives it back.
\<close>

locale registry =
  fixes G :: "'w registry_api" and served :: "'w \<Rightarrow> node list" and held :: "'w \<Rightarrow> int"
  assumes create: "create_handler_registration G w name h oid acc = (p, w') \<Longrightarrow>
      served w' = served w \<and> (case p of
        None \<Rightarrow> held w' = held w
      | Some r \<Rightarrow> held w' = held w + 1 \<and>
          r = \<lparr>rg_name = name, rg_handler = h, rg_oid = oid, rg_access = acc\<rparr>)"
    and create_free: "served (handler_registration_free G w r) = served w \<and>
      held (handler_registration_free G w r) = held w - 1"
    and malloc_table: "malloc_table_info G w = (ok, w') \<Longrightarrow>
      served w' = served w \<and> held w' = held w + (if ok then 1 else 0)"
    and free_table: "served (free_table_info G w) = served w \<and> held (free_table_info G w) = held w - 1"
    and malloc_iterator: "malloc_iterator_info G w = (ok, w') \<Longrightarrow>
      served w' = served w \<and> held w' = held w + (if ok then 1 else 0)"
    and free_iterator: "served (free_iterator_info G w) = served w \<and> held (free_iterator_info G w) = held w - 1"
    and register_scalar: "register_scalar G w (Some r) = (ok, w') \<Longrightarrow>
      held w' = held w - 1 \<and> served w' = served w @ (if ok then [Scalar_Node r] else [])"
    and register_table: "register_table_iterator G w r i = (ok, w') \<Longrightarrow>
      held w' = held w - 3 \<and> served w' = served w @ (if ok then [Table_Node r i] else [])"
begin

text \<open>A table is registered with exactly its data or not at all, and no allocation is left behind.\<close>

lemma init_table_owned:
  "held (init_table G name h oid acc i w) = held w \<and>
   (served (init_table G name h oid acc i w) = served w \<or>
    served (init_table G name h oid acc i w) = served w @
      [Table_Node \<lparr>rg_name = name, rg_handler = h, rg_oid = oid, rg_access = acc\<rparr> i])"
proof -
  obtain p w1 where c: "create_handler_registration G w name h oid acc = (p, w1)" by fastforce
  obtain t w2 where t: "malloc_table_info G w1 = (t, w2)" by fastforce
  obtain j w3 where j: "malloc_iterator_info G w2 = (j, w3)" by fastforce
  note laws = create [OF c] malloc_table [OF t] malloc_iterator [OF j]
  show ?thesis
  proof (cases p)
    case None
    with laws(1) show ?thesis by (simp add: init_table_def c)
  next
    case (Some r)
    obtain ok w4 where r: "register_table_iterator G w3 r i = (ok, w4)" by fastforce
    show ?thesis
      unfolding init_table_def c prod.case Some option.case t j r snd_conv Let_def
      using register_table [OF r] laws Some create_free free_table free_iterator by (cases t; cases j) auto
  qed
qed

end

text \<open>While memory lasts and no node is in the way, every call succeeds.\<close>

locale registry_reliable = registry +
  assumes create_total: "\<exists>r w'. create_handler_registration G w name h oid acc = (Some r, w')"
    and malloc_total: "fst (malloc_table_info G w)" "fst (malloc_iterator_info G w)"
    and register_total: "fst (register_scalar G w (Some r))" "fst (register_table_iterator G w r i)"
begin

lemma register_scalar_node_served:
  "served (register_scalar_node G name ob oid acc w) = served w @
     [Scalar_Node \<lparr>rg_name = name, rg_handler = Handle_Scalar ob, rg_oid = oid, rg_access = acc\<rparr>]"
  "held (register_scalar_node G name ob oid acc w) = held w"
proof -
  obtain r w1 where c: "create_handler_registration G w name (Handle_Scalar ob) oid acc = (Some r, w1)"
    using create_total by blast
  obtain ok w2 where r: "register_scalar G w1 (Some r) = (ok, w2)" by fastforce
  with register_total(1) [of w1 r] have ok by simp
  with create [OF c] register_scalar [OF r]
  show "served (register_scalar_node G name ob oid acc w) = served w @
      [Scalar_Node \<lparr>rg_name = name, rg_handler = Handle_Scalar ob, rg_oid = oid, rg_access = acc\<rparr>]"
    "held (register_scalar_node G name ob oid acc w) = held w"
    unfolding register_scalar_node_def c prod.case r snd_conv by simp_all
qed

lemma init_table_served:
  "served (init_table G name h oid acc i w) = served w @
     [Table_Node \<lparr>rg_name = name, rg_handler = h, rg_oid = oid, rg_access = acc\<rparr> i]"
  "held (init_table G name h oid acc i w) = held w"
proof -
  obtain r w1 where c: "create_handler_registration G w name h oid acc = (Some r, w1)"
    using create_total by blast
  obtain w2 where t: "malloc_table_info G w1 = (True, w2)" using malloc_total(1) by (metis prod.collapse)
  obtain w3 where j: "malloc_iterator_info G w2 = (True, w3)" using malloc_total(2) by (metis prod.collapse)
  obtain w4 where r: "register_table_iterator G w3 r i = (True, w4)"
    using register_total(2) by (metis prod.collapse)
  from create [OF c] malloc_table [OF t] malloc_iterator [OF j] register_table [OF r]
  show "served (init_table G name h oid acc i w) = served w @
      [Table_Node \<lparr>rg_name = name, rg_handler = h, rg_oid = oid, rg_access = acc\<rparr> i]"
    "held (init_table G name h oid acc i w) = held w"
    unfolding init_table_def c prod.case option.case t j r snd_conv by simp_all
qed

end

subsection \<open>The registered MIB\<close>

text \<open>The nodes in the order of the calls.\<close>

definition scalar_oid :: "scalar \<Rightarrow> oid" where
  "scalar_oid ob = [1,3,6,1,4,1,99999] @ (case ob of
     DeviceName \<Rightarrow> [1,1] | TempThresholdMilliC \<Rightarrow> [1,2] | AdminStatusExt \<Rightarrow> [1,3] | SampleIntervalSec \<Rightarrow> [1,4]
   | CpuTempMilliC \<Rightarrow> [2,1] | SampleCount \<Rightarrow> [2,2] | LastUpdateEpoch \<Rightarrow> [2,3] | StatusText \<Rightarrow> [2,4])"

definition scalar_node :: "scalar \<Rightarrow> node" where
  "scalar_node ob = Scalar_Node \<lparr>rg_name = scalar_key ob, rg_handler = Handle_Scalar ob, rg_oid = scalar_oid ob,
     rg_access = (if ob \<in> config_scalars then HANDLER_CAN_RWRITE else HANDLER_CAN_RONLY)\<rparr>"

definition port_node :: node where
  "port_node = Table_Node \<lparr>rg_name = ''portConfigTable'', rg_handler = Handle_portConfigTable,
     rg_oid = [1,3,6,1,4,1,99999,1,5], rg_access = HANDLER_CAN_RWRITE\<rparr> portConfigTable_iinfo"

definition sensor_node :: node where
  "sensor_node = Table_Node \<lparr>rg_name = ''sensorTable'', rg_handler = Handle_sensorTable,
     rg_oid = [1,3,6,1,4,1,99999,2,5], rg_access = HANDLER_CAN_RONLY\<rparr> sensorTable_iinfo"

definition mib_nodes :: "node list" where
  "mib_nodes = map scalar_node [DeviceName, TempThresholdMilliC, AdminStatusExt, SampleIntervalSec] @ [port_node] @
     map scalar_node [CpuTempMilliC, SampleCount, LastUpdateEpoch, StatusText] @ [sensor_node]"

context registry_reliable
begin

lemma init_mib_served:
  "served (init_mib G w) = served w @ mib_nodes" "held (init_mib G w) = held w"
  by (simp_all add: init_defs Let_def register_scalar_node_served init_table_served mib_nodes_def scalar_node_def
      scalar_oid_def config_scalars_def port_node_def sensor_node_def)

end


subsection \<open>Consistency of the registrations\<close>

text \<open>No node lies below another one, so every variable has at most one handler.\<close>

definition apart :: "oid list \<Rightarrow> bool" where
  "apart os \<longleftrightarrow> (\<forall>i < length os. \<forall>j < length os. i \<noteq> j \<longrightarrow> \<not> prefix (os ! i) (os ! j))"

lemma apart_length:
  assumes "distinct os" and "\<forall>o1 \<in> set os. length o1 = n"
  shows "apart os"
  unfolding apart_def
proof (intro allI impI notI)
  fix i j assume ij: "i < length os" "j < length os" "i \<noteq> j" "prefix (os ! i) (os ! j)"
  then have "length (os ! i) = length (os ! j)" using assms(2) by simp
  with ij(4) have "os ! i = os ! j" by (auto simp: prefix_def)
  with ij assms(1) show False by (simp add: nth_eq_iff_index_eq)
qed

lemma mib_nodes_distinct:
  "distinct (map (rg_name \<circ> node_reg) mib_nodes)" "distinct (map (rg_handler \<circ> node_reg) mib_nodes)"
  "distinct (map (rg_oid \<circ> node_reg) mib_nodes)"
  "\<forall>d \<in> set (map (rg_oid \<circ> node_reg) mib_nodes). length d = 9"
  by (simp_all add: mib_nodes_def scalar_node_def scalar_oid_def port_node_def sensor_node_def)

lemma scalar_node_member: "scalar_node ob \<in> set mib_nodes"
  by (cases ob) (simp_all add: mib_nodes_def)

text \<open>The handlers of the read-only scalars refuse every phase of a SET.\<close>

lemma read_only_refuses:
  assumes "ob \<notin> config_scalars" and "mode \<noteq> MODE_GET"
  shows "scalar_handler L S ob mode st r = (SNMP_ERR_GENERR, st, r)"
  using assms
  by (cases ob; cases mode) (simp_all add: config_scalars_def handle_cpuTempMilliC_def handle_sampleCount_def
      handle_lastUpdateEpoch_def handle_statusText_def)

subsection \<open>An executable instance\<close>

text \<open>A registry in memory; \<open>mw_room\<close> limits the allocations the caller may hold.\<close>

record mib_world =
  mw_served :: "node list"
  mw_held :: int
  mw_room :: "int option"

definition mw_alloc :: "mib_world \<Rightarrow> bool \<times> mib_world" where
  "mw_alloc w = (if mw_room w = None \<or> mw_held w < the (mw_room w)
     then (True, w\<lparr>mw_held := mw_held w + 1\<rparr>) else (False, w))"

definition mw_drop :: "int \<Rightarrow> mib_world \<Rightarrow> mib_world" where
  "mw_drop n w = w\<lparr>mw_held := mw_held w - n\<rparr>"

definition registry_demo :: "mib_world registry_api" where
  "registry_demo = \<lparr>
     create_handler_registration = (\<lambda>w name h oid acc. case mw_alloc w of (ok, w) \<Rightarrow>
       (if ok then Some \<lparr>rg_name = name, rg_handler = h, rg_oid = oid, rg_access = acc\<rparr> else None, w)),
     handler_registration_free = (\<lambda>w r. mw_drop 1 w),
     malloc_table_info = mw_alloc,
     free_table_info = mw_drop 1,
     malloc_iterator_info = mw_alloc,
     free_iterator_info = mw_drop 1,
     register_scalar = (\<lambda>w r. case r of None \<Rightarrow> (False, w)
       | Some r \<Rightarrow> (True, mw_drop 1 w\<lparr>mw_served := mw_served w @ [Scalar_Node r]\<rparr>)),
     register_table_iterator = (\<lambda>w r i.
       (True, mw_drop 3 w\<lparr>mw_served := mw_served w @ [Table_Node r i]\<rparr>))\<rparr>"

interpretation registry_demo: registry registry_demo mw_served mw_held
  by unfold_locales (auto simp: registry_demo_def mw_alloc_def mw_drop_def split: prod.splits if_splits)

text \<open>The same registry with unlimited memory always succeeds.\<close>

definition registry_roomy :: "mib_world registry_api" where
  "registry_roomy = registry_demo\<lparr>
     create_handler_registration := (\<lambda>w name h oid acc.
       (Some \<lparr>rg_name = name, rg_handler = h, rg_oid = oid, rg_access = acc\<rparr>, mw_drop (- 1) w)),
     malloc_table_info := (\<lambda>w. (True, mw_drop (- 1) w)),
     malloc_iterator_info := (\<lambda>w. (True, mw_drop (- 1) w))\<rparr>"

interpretation registry_roomy: registry_reliable registry_roomy mw_served mw_held
  by unfold_locales (auto simp: registry_roomy_def registry_demo_def mw_drop_def)

end
