(* ===== verification/Subagent_Main.thy ===== *)
theory Subagent_Main
  imports Storage_Bootstrap Ipc_Loop Main_Options Mib_Registration
begin

text \<open>
  \<open>src/main.c\<close>: opening and closing the two environments, the signal handlers, the event loop and
  \<open>main\<close> from its arguments to its exit code. What the loop calls of net-snmp and \<open>select\<close> is a
  parameter, the record \<open>event_api\<close>, and what is called once is the record \<open>host_api\<close>; the loop may run
  forever, so it is a partial function. Log lines and the usage text are left out.
\<close>

subsection \<open>Storage\<close>

definition SUBAGENT_CONFIG_DB_DEFAULT :: string where
  "SUBAGENT_CONFIG_DB_DEFAULT = ''/var/lib/agentx-subagent/config.lmdb''"
definition SUBAGENT_CACHE_DB_DEFAULT :: string where
  "SUBAGENT_CACHE_DB_DEFAULT = ''/run/agentx-subagent/cache.lmdb''"
definition IPC_SOCKET_PATH_DEFAULT :: string where
  "IPC_SOCKET_PATH_DEFAULT = ''/run/agentx-subagent/ipc.sock''"

text \<open>The argument, else the environment variable, else the default; an empty string counts as unset.\<close>

definition pick_path :: "string option \<Rightarrow> string option \<Rightarrow> string \<Rightarrow> string" where
  "pick_path arg var dflt =
     (if arg = None \<or> arg = Some '''' then (if var = None \<or> var = Some '''' then dflt else the var)
      else the arg)"

definition subagent_storage_init ::
  "('e, 't, 'c) platform \<Rightarrow> (string \<Rightarrow> string option) \<Rightarrow> string option \<Rightarrow> string option \<Rightarrow> 'e envs \<Rightarrow>
   int \<times> 'e envs \<times> env_event list" where
  "subagent_storage_init L getenv config_path cache_path envs =
     (let config_path = pick_path config_path (getenv ''AGENTX_CONFIG_DB'') SUBAGENT_CONFIG_DB_DEFAULT;
          cache_path = pick_path cache_path (getenv ''AGENTX_CACHE_DB'') SUBAGENT_CACHE_DB_DEFAULT in
      case storage_env_open L (Some config_path) 0 0 (Some (envs Config_Env)) of (rc, out, ev) \<Rightarrow>
        if rc \<noteq> STORAGE_OK then (- 1, envs(Config_Env := None), ev)
        else (case config_bootstrap_defaults L (the out) of (rc, config) \<Rightarrow>
          if rc \<noteq> STORAGE_OK then (- 1, envs(Config_Env := None), ev @ storage_env_close config)
          else (case storage_env_open L (Some cache_path) 0 STORAGE_ENV_NOSYNC (Some (envs Cache_Env)) of
              (rc, out, ev2) \<Rightarrow>
            if rc \<noteq> STORAGE_OK
            then (- 1, envs(Config_Env := None, Cache_Env := None), ev @ ev2 @ storage_env_close config)
            else (case storage_env_stat L (the out) (Some 0) (Some 0) of (_, _, cache) \<Rightarrow>
              case cache_bootstrap_defaults L cache False of (rc, cache) \<Rightarrow>
                if rc \<noteq> STORAGE_OK
                then (- 1, envs(Cache_Env := None, Config_Env := None),
                      ev @ ev2 @ storage_env_close cache @ storage_env_close config)
                else (case storage_env_stat L cache (Some 0) (Some 0) of (_, _, cache) \<Rightarrow>
                  (0, envs(Config_Env := config, Cache_Env := cache), ev @ ev2))))))"

definition subagent_storage_shutdown :: "'e envs \<Rightarrow> 'e envs \<times> env_event list" where
  "subagent_storage_shutdown envs =
     (envs(Cache_Env := None, Config_Env := None),
      storage_env_close (envs Cache_Env) @ storage_env_close (envs Config_Env))"

subsection \<open>The event loop\<close>

datatype select_result = Sel_Ready "int list" | Sel_Timeout | Sel_EINTR | Sel_Error

record ('s, 'w) event_api =
  ev_stop_requested :: "'w \<Rightarrow> bool"  \<comment> \<open>\<open>g_stop_requested\<close>, set by a signal\<close>
  ev_select_info :: "'w \<Rightarrow> int \<times> int list \<times> bool \<times> 'w"  \<comment> \<open>\<open>numfds\<close>, the set, \<open>block\<close>\<close>
  ev_select :: "'w \<Rightarrow> int \<Rightarrow> int list \<Rightarrow> bool \<Rightarrow> select_result \<times> 'w"
  ev_snmp_read :: "int list \<Rightarrow> 's \<Rightarrow> 'w \<Rightarrow> 's \<times> 'w"
  ev_snmp_timeout :: "'s \<Rightarrow> 'w \<Rightarrow> 's \<times> 'w"
  ev_run_alarms :: "('s \<Rightarrow> 's) \<Rightarrow> 's \<Rightarrow> 'w \<Rightarrow> 's \<times> 'w"  \<comment> \<open>with the registered callback\<close>

definition temp_alarm_alarm_cb ::
  "('e, 't, 'c) platform \<Rightarrow> ('r, 'i, 'v) snmp_api \<Rightarrow> ('e, 'v) agent \<Rightarrow> ('e, 'v) agent" where
  "temp_alarm_alarm_cb L S st = snd (demo_check_temp_alarm L S st)"

text \<open>What \<open>select\<close> is called with: \<open>numfds\<close> and the set.\<close>

definition select_args ::
  "('s, 'w) event_api \<Rightarrow> ipc_server option \<Rightarrow> 'w \<Rightarrow> int \<times> int list \<times> bool \<times> 'w" where
  "select_args E ipc w =
     (case ev_select_info E w of (numfds, fdset, block, w) \<Rightarrow>
        let max_fd = numfds - 1 in
        case ipc_server_fill_fdset ipc fdset max_fd of (max_fd, fdset) \<Rightarrow>
          (max_fd + 1, fdset, block, w))"

text \<open>One turn; the flag is false where the loop is left by \<open>break\<close>.\<close>

definition loop_turn ::
  "('e, 't, 'c) platform \<Rightarrow> ('r, 'i, 'v) snmp_api \<Rightarrow> 'w ipc_api \<Rightarrow> (('e, 'v) agent, 'w) event_api \<Rightarrow>
   ipc_server option \<Rightarrow> 'w \<Rightarrow> ('e, 'v) agent \<Rightarrow>
   (bool \<times> ipc_server option \<times> 'w \<times> ('e, 'v) agent) option" where
  "loop_turn L S K E ipc w st =
     (case select_args E ipc w of (numfds, fdset, block, w) \<Rightarrow>
        case ev_select E w numfds fdset block of (count, w) \<Rightarrow>
          (case count of
             Sel_Ready ready \<Rightarrow>
               (case ev_snmp_read E ready st w of (st, w) \<Rightarrow>
                  (case ipc_server_dispatch L S K ipc ready w st of
                     None \<Rightarrow> None
                   | Some (ipc, w, st) \<Rightarrow>
                       (case ev_run_alarms E (temp_alarm_alarm_cb L S) st w of (st, w) \<Rightarrow>
                          Some (True, ipc, w, st))))
           | Sel_Timeout \<Rightarrow>
               (case ev_snmp_timeout E st w of (st, w) \<Rightarrow>
                  case ev_run_alarms E (temp_alarm_alarm_cb L S) st w of (st, w) \<Rightarrow>
                    Some (True, ipc, w, st))
           | Sel_EINTR \<Rightarrow> Some (True, ipc, w, st)
           | Sel_Error \<Rightarrow> Some (False, ipc, w, st)))"

partial_function (option) event_loop ::
  "('e, 't, 'c) platform \<Rightarrow> ('r, 'i, 'v) snmp_api \<Rightarrow> 'w ipc_api \<Rightarrow> (('e, 'v) agent, 'w) event_api \<Rightarrow>
   ipc_server option \<Rightarrow> 'w \<Rightarrow> ('e, 'v) agent \<Rightarrow> (ipc_server option \<times> 'w \<times> ('e, 'v) agent) option" where
  "event_loop L S K E ipc w st =
     (if ev_stop_requested E w then Some (ipc, w, st)
      else (case loop_turn L S K E ipc w st of
          None \<Rightarrow> None
        | Some (ok, ipc, w, st) \<Rightarrow>
            if ok then event_loop L S K E ipc w st else Some (ipc, w, st)))"

subsection \<open>main\<close>

definition initial_agent :: "('e, 'v) agent" where
  "initial_agent = \<lparr>ag_envs = (\<lambda>_. None), ag_temp_state = TEMP_STATE_CLEAR, ag_traps = [],
     ag_port_skipped = 0, ag_sensor_skipped = 0\<rparr>"

text \<open>The calls of \<open>main\<close> into libc and net-snmp that are made once.\<close>

datatype signal_number = SIGTERM | SIGINT | SIGPIPE
datatype signal_handler = Handle_Stop_Signal | SIG_IGN

record 'w host_api =
  os_sigaction :: "'w \<Rightarrow> signal_number \<Rightarrow> signal_handler \<Rightarrow> bool \<times> 'w"
  snmp_enable_stderrlog :: "'w \<Rightarrow> 'w"
  snmp_enable_filelog :: "'w \<Rightarrow> string option \<Rightarrow> 'w"
  netsnmp_daemonize :: "'w \<Rightarrow> bool \<Rightarrow> 'w"  \<comment> \<open>the surviving child\<close>
  snmp_set_agentx_socket :: "'w \<Rightarrow> string \<Rightarrow> 'w"
  snmp_init_agent :: "'w \<Rightarrow> 'w"  \<comment> \<open>with the role of a subagent\<close>
  snmp_init_snmp :: "'w \<Rightarrow> 'w"
  snmp_register_alarm :: "'w \<Rightarrow> nat \<Rightarrow> 'w"  \<comment> \<open>the period in seconds, repeated\<close>
  snmp_shutdown :: "'w \<Rightarrow> 'w"

definition install_signal_handlers :: "'w host_api \<Rightarrow> 'w \<Rightarrow> int \<times> 'w" where
  "install_signal_handlers H w =
     (case os_sigaction H w SIGTERM Handle_Stop_Signal of (ok, w) \<Rightarrow>
        if \<not> ok then (- 1, w)
        else (case os_sigaction H w SIGINT Handle_Stop_Signal of (ok, w) \<Rightarrow>
          if \<not> ok then (- 1, w)
          else (case os_sigaction H w SIGPIPE SIG_IGN of (ok, w) \<Rightarrow>
            if \<not> ok then (- 1, w) else (0, w))))"

text \<open>
  \<open>main\<close> from \<open>subagent_storage_init\<close> on. The result is the exit code, the world, the agent, the log of
  environments and the registry of net-snmp.
\<close>

definition run_subagent ::
  "('e, 't, 'c) platform \<Rightarrow> ('r, 'i, 'v) snmp_api \<Rightarrow> 'w ipc_api \<Rightarrow> (('e, 'v) agent, 'w) event_api \<Rightarrow>
   'w host_api \<Rightarrow> 'g registry_api \<Rightarrow> (string \<Rightarrow> string option) \<Rightarrow> string option \<Rightarrow> string option \<Rightarrow>
   string \<Rightarrow> 'w \<Rightarrow> 'g \<Rightarrow> (int \<times> 'w \<times> ('e, 'v) agent \<times> env_event list \<times> 'g) option" where
  "run_subagent L S K E H G getenv config_path cache_path ipc_path w g =
     (case subagent_storage_init L getenv config_path cache_path (\<lambda>_. None) of
        (ret, envs, ev) \<Rightarrow>
          let st = initial_agent\<lparr>ag_envs := envs\<rparr> in
          if ret \<noteq> 0 then Some (1, snmp_shutdown H w, st, ev, g)
          else let g = init_demo_config G g;
                   g = init_demo_config_table G g;
                   g = init_demo_status G g;
                   g = init_demo_status_table G g;
                   w = snmp_init_snmp H w in
            (case ipc_server_start K w (Some ipc_path) of (ipc, w) \<Rightarrow>
              if ipc = None then
                (case subagent_storage_shutdown (ag_envs st) of (envs, ev2) \<Rightarrow>
                   Some (1, snmp_shutdown H w, st\<lparr>ag_envs := envs\<rparr>, ev @ ev2, g))
              else let w = snmp_register_alarm H w 5 in
                (case event_loop L S K E ipc w st of
                   None \<Rightarrow> None
                 | Some (ipc, w, st) \<Rightarrow>
                     let w = ipc_server_stop K (snmp_shutdown H w) ipc in
                     (case subagent_storage_shutdown (ag_envs st) of (envs, ev2) \<Rightarrow>
                        Some (0, w, st\<lparr>ag_envs := envs\<rparr>, ev @ ev2, g)))))"

definition main_subagent ::
  "('e, 't, 'c) platform \<Rightarrow> ('r, 'i, 'v) snmp_api \<Rightarrow> 'w ipc_api \<Rightarrow> (('e, 'v) agent, 'w) event_api \<Rightarrow>
   'w host_api \<Rightarrow> 'g registry_api \<Rightarrow> (string \<Rightarrow> string option) \<Rightarrow> string list \<Rightarrow> 'w \<Rightarrow> 'g \<Rightarrow>
   (int \<times> 'w \<times> ('e, 'v) agent \<times> env_event list \<times> 'g) option" where
  "main_subagent L S K E H G getenv args w g =
     (case parse_options no_options '''' args of
        Exit code \<Rightarrow> Some (code, w, initial_agent, [], g)
      | Proceed op \<Rightarrow>
          let ipc_path = pick_path (op_ipc_path op) (getenv ''AGENTX_IPC_SOCKET'') IPC_SOCKET_PATH_DEFAULT;
              w = (case op_log_mode op of
                     Log_Stderr \<Rightarrow> snmp_enable_stderrlog H w
                   | Log_File \<Rightarrow> snmp_enable_filelog H w (op_log_file op)
                   | Log_Default \<Rightarrow> w) in
          (case install_signal_handlers H w of (ret, w) \<Rightarrow>
             if ret \<noteq> 0 then Some (1, w, initial_agent, [], g)
             else let w = (if \<not> op_foreground op
                           then netsnmp_daemonize H w (op_log_mode op \<noteq> Log_Default) else w);
                      w = (case op_agentx_socket op of None \<Rightarrow> w | Some p \<Rightarrow> snmp_set_agentx_socket H w p);
                      w = snmp_init_agent H w in
               run_subagent L S K E H G getenv (op_config_path op) (op_cache_path op) ipc_path w g))"

subsection \<open>Opening and closing the environments\<close>

context lmdb_laws
begin

lemma config_bootstrap_env:
  assumes "config_bootstrap_defaults L (Some env) = (rc, envp)"
  shows "\<exists>env'. envp = Some env' \<and> se_readonly env' = se_readonly env"
  using bootstrap_fills [OF config_seeds assms [unfolded config_bootstrap_defaults_def]]
  by (auto simp: same_handle_def)

lemma cache_bootstrap_env:
  assumes "cache_bootstrap_defaults L (Some env) ov = (rc, envp)"
  shows "\<exists>env'. envp = Some env' \<and> se_readonly env' = se_readonly env"
  using bootstrap_fills [OF cache_seeds [OF refl] assms [unfolded cache_bootstrap_defaults_def]]
  by (auto simp: same_handle_def)

lemma cache_stages:
  obtains x1 x2 cache1 rc cache2 y1 y2 cache where
    "storage_env_stat L (Some cache0) (Some 0) (Some 0) = (x1, x2, Some cache1)"
    "cache_bootstrap_defaults L (Some cache1) False = (rc, Some cache2)"
    "storage_env_stat L (Some cache2) (Some 0) (Some 0) = (y1, y2, Some cache)"
proof -
  have stat: "\<exists>x y env'. storage_env_stat L (Some env) (Some 0) (Some 0) = (x, y, Some env')" for env
    by (cases "storage_env_stat L (Some env) (Some 0) (Some 0)") (use read_frames(8) in blast)
  from stat obtain x1 x2 cache1 where
    1: "storage_env_stat L (Some cache0) (Some 0) (Some 0) = (x1, x2, Some cache1)" by blast
  obtain rc p where "cache_bootstrap_defaults L (Some cache1) False = (rc, p)" by fastforce
  with cache_bootstrap_env obtain cache2 where
    "cache_bootstrap_defaults L (Some cache1) False = (rc, Some cache2)" by blast
  with 1 stat that show thesis by blast
qed

text \<open>A start-up either went through all its stages or left nothing open.\<close>

lemma init_stages:
  assumes "subagent_storage_init L getenv cp ca envs = (ret, envs', ev)"
  obtains (up) config0 config cache0 x cache1 cache2 y cache where "ret = 0"
      "config_bootstrap_defaults L (Some config0) = (STORAGE_OK, Some config)"
      "storage_env_stat L (Some cache0) (Some 0) (Some 0) = (fst x, snd x, Some cache1)"
      "cache_bootstrap_defaults L (Some cache1) False = (STORAGE_OK, Some cache2)"
      "storage_env_stat L (Some cache2) (Some 0) (Some 0) = (fst y, snd y, Some cache)"
      "envs' = envs(Config_Env := Some config, Cache_Env := Some cache)"
      "\<not> se_readonly config0" "\<not> se_readonly cache0" "balance ev = 2"
  | (failed) "ret = - 1" "envs' Config_Env = None"
      "envs' Cache_Env = envs Cache_Env \<or> envs' Cache_Env = None" "balance ev = 0"
proof -
  let ?cp = "pick_path cp (getenv ''AGENTX_CONFIG_DB'') SUBAGENT_CONFIG_DB_DEFAULT"
  let ?ca = "pick_path ca (getenv ''AGENTX_CACHE_DB'') SUBAGENT_CACHE_DB_DEFAULT"
  obtain rc1 out1 ev1 where o1: "storage_env_open L (Some ?cp) 0 0 (Some (envs Config_Env)) = (rc1, out1, ev1)"
    by (cases "storage_env_open L (Some ?cp) 0 0 (Some (envs Config_Env))")
  note init = assms [unfolded subagent_storage_init_def Let_def o1 prod.case]
  show thesis
  proof (cases "rc1 = STORAGE_OK")
    case False
    with init env_open_result [OF o1] show thesis by (intro failed) auto
  next
    case True
    with env_open_result [OF o1] obtain config0 where
      c0: "out1 = Some (Some config0)" "\<not> se_readonly config0" "balance ev1 = 1" by auto
    obtain rc2 configp where b1: "config_bootstrap_defaults L (Some config0) = (rc2, configp)" by fastforce
    from config_bootstrap_env [OF b1] obtain config where c: "configp = Some config" by blast
    obtain rc3 out2 ev2 where
      o2: "storage_env_open L (Some ?ca) 0 1 (Some (envs Cache_Env)) = (rc3, out2, ev2)"
      by (cases "storage_env_open L (Some ?ca) 0 1 (Some (envs Cache_Env))")
    show thesis
    proof (cases "rc2 = STORAGE_OK \<and> rc3 = STORAGE_OK")
      case False
      with True init c0 c b1 o2 env_open_result [OF o2] show thesis
        by (intro failed) (auto split: if_splits)
    next
      case ok: True
      with env_open_result [OF o2] obtain cache0 where
        d0: "out2 = Some (Some cache0)" "\<not> se_readonly cache0" "balance ev2 = 1" by auto
      obtain x1 x2 cache1 rc4 cache2 y1 y2 cache where
        st: "storage_env_stat L (Some cache0) (Some 0) (Some 0) = (x1, x2, Some cache1)"
          "cache_bootstrap_defaults L (Some cache1) False = (rc4, Some cache2)"
          "storage_env_stat L (Some cache2) (Some 0) (Some 0) = (y1, y2, Some cache)"
        by (rule cache_stages)
      note init' = init [unfolded c0 option.sel b1 prod.case c o2 d0 st]
      show thesis
      proof (cases "rc4 = STORAGE_OK")
        case False
        with init' True ok c0(3) d0(3) show thesis by (intro failed) auto
      next
        case up4: True
        with init' True ok have r: "ret = 0" "envs' = envs(Config_Env := Some config, Cache_Env := Some cache)"
          "ev = ev1 @ ev2" by auto
        show thesis
          by (rule up [of config0 config cache0 "(x1, x2)" cache1 cache2 "(y1, y2)" cache])
            (use r b1 c st c0 d0 ok up4 in simp_all)
      qed
    qed
  qed
qed

lemma stat_env:
  "storage_env_stat L (Some env) n m = (rc, z, Some env') \<Longrightarrow>
     se_readonly env' = se_readonly env \<and> env_map (se_env env') = env_map (se_env env)"
  by (drule read_frames(8)) (auto simp: same_handle_def)

lemma init_opens:
  assumes "subagent_storage_init L getenv cp ca (\<lambda>_. None) = (ret, envs, ev)"
  shows "if ret = 0
    then (\<forall>i. \<exists>env. envs i = Some env \<and> \<not> se_readonly env) \<and> balance ev = 2
    else ret = - 1 \<and> envs = (\<lambda>_. None) \<and> balance ev = 0"
  using assms
proof (cases rule: init_stages)
  case (up config0 config cache0 x cache1 cache2 y cache)
  have "\<not> se_readonly config" using config_bootstrap_env [OF up(2)] up(7) by simp
  moreover have "\<not> se_readonly cache"
    using stat_env [OF up(3)] cache_bootstrap_env [OF up(4)] stat_env [OF up(5)] up(8) by simp
  ultimately have "\<exists>env. envs i = Some env \<and> \<not> se_readonly env" for i
    using up(6) by (cases i) auto
  with up(1,9) show ?thesis by simp
next
  case failed
  have "envs i = None" for i using failed(2,3) by (cases i) auto
  with failed show ?thesis by auto
qed

end

context lmdb_reliable
begin

text \<open>After a start-up that succeeded every default that was missing is there.\<close>

lemma init_seeds:
  assumes "subagent_storage_init L getenv cp ca (\<lambda>_. None) = (0, envs, ev)"
  shows "\<exists>config cache m m'. envs Config_Env = Some config \<and> envs Cache_Env = Some cache \<and>
    env_map (se_env config) = fill False config_defaults m \<and>
    env_map (se_env cache) = fill False cache_defaults m'"
  using assms
proof (cases rule: init_stages)
  case (up config0 config cache0 x cache1 cache2 y cache)
  have "env_map (se_env config) = fill False config_defaults (env_map (se_env config0))"
    using bootstrap_exactly [OF seeds_exactly_lists(2) up(7)] up(2)
    by (simp add: config_bootstrap_defaults_def)
  moreover have "\<not> se_readonly cache1" using stat_env [OF up(3)] up(8) by simp
  then have "env_map (se_env cache2) = fill False cache_defaults (env_map (se_env cache1))"
    using bootstrap_exactly [OF seeds_exactly_lists(1) [of False], of cache1] up(4)
    by (auto simp: cache_bootstrap_defaults_def)
  moreover have "env_map (se_env cache) = env_map (se_env cache2)" using stat_env [OF up(5)] by simp
  ultimately show ?thesis using up(6) by auto
qed simp

end

subsection \<open>What select is called with\<close>

lemma fill_clients_spec:
  "fill_clients cs fds maxfd = (m, fds') \<Longrightarrow>
     set fds' = set fds \<union> {cl_fd c | c. c \<in> set cs \<and> cl_in_use c} \<and> maxfd \<le> m \<and>
     (\<forall>c \<in> set cs. cl_in_use c \<longrightarrow> cl_fd c \<le> m) \<and> (m = maxfd \<or> m \<in> set fds')"
proof (induction cs fds maxfd rule: fill_clients.induct)
  case (2 c cs fds maxfd)
  show ?case
  proof (cases "cl_in_use c")
    case True
    then show ?thesis using 2 by (auto split: if_splits)
  next
    case False
    then show ?thesis using 2 by auto
  qed
qed auto

lemma select_args_covers:
  assumes "select_args E (Some srv) w = (numfds, fdset, block, w')"
    and "ev_select_info E w = (n, fds, b, w1)" and "\<forall>fd \<in> set fds. fd < n" and "srv_listen_fd srv \<ge> 0"
  shows "set fdset = set fds \<union> {srv_listen_fd srv} \<union> set (slot_fds (srv_clients srv))"
    and "\<forall>fd \<in> set fdset. fd < numfds" and "numfds = n \<or> numfds - 1 \<in> set fdset"
proof -
  let ?m = "if srv_listen_fd srv > n - 1 then srv_listen_fd srv else n - 1"
  obtain m fds' where f: "fill_clients (srv_clients srv) (srv_listen_fd srv # fds) ?m = (m, fds')" by fastforce
  with assms have r: "numfds = m + 1" "fdset = fds'"
    by (auto simp: select_args_def ipc_server_fill_fdset_def Let_def)
  note spec = fill_clients_spec [OF f]
  show "set fdset = set fds \<union> {srv_listen_fd srv} \<union> set (slot_fds (srv_clients srv))"
    using spec r by (auto simp: slot_fds_def)
  show "\<forall>fd \<in> set fdset. fd < numfds"
    using spec r assms(3) by (force split: if_splits)
  show "numfds = n \<or> numfds - 1 \<in> set fdset"
    using spec r by (auto split: if_splits)
qed

subsection \<open>A run of the process\<close>

text \<open>
  What the loop relies on of net-snmp and \<open>select\<close>: they open and close no descriptor on balance, and
  the MIB handlers they call leave the two environments open.
\<close>

definition opens_same :: "('e, 'v) agent \<Rightarrow> ('e, 'v) agent \<Rightarrow> bool" where
  "opens_same st st' \<longleftrightarrow> (\<forall>i. (ag_envs st' i = None) = (ag_envs st i = None))"

lemma opens_same_refl [simp]: "opens_same st st"
  by (simp add: opens_same_def)

lemma opens_same_trans: "opens_same a b \<Longrightarrow> opens_same b c \<Longrightarrow> opens_same a c"
  by (simp add: opens_same_def)

locale events = descriptors K opened
  for K :: "'w ipc_api" and opened +
  fixes E :: "(('e, 'v) agent, 'w) event_api"
  assumes select_opened: "ev_select_info E w = (n, fds, b, w') \<Longrightarrow> opened w' = opened w"
      "ev_select E w n fds b = (r, w') \<Longrightarrow> opened w' = opened w"
    and snmp_events: "ev_snmp_read E fds st w = (st', w') \<Longrightarrow> opened w' = opened w \<and> opens_same st st'"
      "ev_snmp_timeout E st w = (st', w') \<Longrightarrow> opened w' = opened w \<and> opens_same st st'"
    and alarm_events: "ev_run_alarms E cb st w = (st', w') \<Longrightarrow> (\<And>st. opens_same st (cb st)) \<Longrightarrow>
      opened w' = opened w \<and> opens_same st st'"

text \<open>The state of the loop: the slots own their descriptors and the environments are open.\<close>

definition loop_ok ::
  "('w \<Rightarrow> int set) \<Rightarrow> int set \<Rightarrow> int \<Rightarrow> ('e, 'v) agent \<Rightarrow> ipc_server option \<Rightarrow> 'w \<Rightarrow> ('e, 'v) agent \<Rightarrow> bool" where
  "loop_ok opened base lfd st0 ipc w st \<longleftrightarrow> opens_same st0 st \<and>
     (\<exists>srv. ipc = Some srv \<and> srv_listen_fd srv = lfd \<and> slots_own base (opened w) (srv_clients srv))"

lemma loop_ok_step:
  "loop_ok opened base lfd st0 ipc w st \<Longrightarrow> opened w' = opened w \<Longrightarrow> opens_same st st' \<Longrightarrow>
     loop_ok opened base lfd st0 ipc w' st'"
  by (auto simp: loop_ok_def intro: opens_same_trans)

lemma event_loop_invariant:
  assumes "event_loop L S K E ipc w st = Some (ipc', w', st')" and "P ipc w st"
    and turn: "\<And>ipc w st ok ipc' w' st'. P ipc w st \<Longrightarrow>
      loop_turn L S K E ipc w st = Some (ok, ipc', w', st') \<Longrightarrow> P ipc' w' st'"
  shows "P ipc' w' st'"
proof -
  define Q where "Q L' S' K' E' ipc w st res \<longleftrightarrow> L' = L \<and> S' = S \<and> K' = K \<and> E' = E \<longrightarrow> P ipc w st \<longrightarrow>
      (case res of (ipc', w', st') \<Rightarrow> P ipc' w' st')" for L' S' K' E' ipc w st res
  have "Q L S K E ipc w st (ipc', w', st')"
  proof (rule event_loop.raw_induct [OF _ assms(1)])
    fix f L' S' K' E' ipc w st res
    assume IH: "\<And>L' S' K' E' ipc w st res. f L' S' K' E' ipc w st = Some res \<Longrightarrow> Q L' S' K' E' ipc w st res"
      and step: "(if ev_stop_requested E' w then Some (ipc, w, st)
        else case loop_turn L' S' K' E' ipc w st of None \<Rightarrow> None
          | Some (ok, ipc, w, st) \<Rightarrow> if ok then f L' S' K' E' ipc w st else Some (ipc, w, st)) = Some res"
    have IH: "f L S K E ipc w st = Some res \<Longrightarrow> P ipc w st \<Longrightarrow> (case res of (ipc', w', st') \<Rightarrow> P ipc' w' st')"
      for ipc w st res using IH [of L S K E ipc w st res] by (simp add: Q_def)
    show "Q L' S' K' E' ipc w st res"
      unfolding Q_def
    proof (intro impI)
      assume eqs: "L' = L \<and> S' = S \<and> K' = K \<and> E' = E" and P: "P ipc w st"
      show "case res of (ipc', w', st') \<Rightarrow> P ipc' w' st'"
      proof (cases "ev_stop_requested E w")
        case False
        with step eqs obtain ok ipc1 w1 st1 where t: "loop_turn L S K E ipc w st = Some (ok, ipc1, w1, st1)"
          and rest: "(if ok then f L S K E ipc1 w1 st1 else Some (ipc1, w1, st1)) = Some res"
          by (auto split: option.splits)
        from turn [OF P t] rest IH [of ipc1 w1 st1 res] show ?thesis by (auto split: if_splits)
      qed (use step eqs P in auto)
    qed
  qed
  with assms(2) show ?thesis by (simp add: Q_def)
qed

text \<open>
  The calls made once open and close none of the descriptors the IPC server manages; the AgentX
  session and the log are net-snmp's own.
\<close>

locale host =
  fixes H :: "'w host_api" and opened :: "'w \<Rightarrow> int set"
  assumes sigaction_opened: "os_sigaction H w s h = (ok, w') \<Longrightarrow> opened w' = opened w"
    and host_opened: "opened (snmp_enable_stderrlog H w) = opened w"
      "opened (snmp_enable_filelog H w f) = opened w" "opened (netsnmp_daemonize H w b) = opened w"
      "opened (snmp_set_agentx_socket H w p) = opened w" "opened (snmp_init_agent H w) = opened w"
      "opened (snmp_init_snmp H w) = opened w" "opened (snmp_register_alarm H w n) = opened w"
      "opened (snmp_shutdown H w) = opened w"

locale process = lmdb_laws L env_map live_txns live_cursors txn_map txn_ro cur_map cur_pos +
    events K opened E + host H opened
  for L :: "('e, 't, 'c) platform" and env_map live_txns live_cursors txn_map txn_ro cur_map cur_pos
    and K :: "'w ipc_api" and opened and E :: "(('e, 'v) agent, 'w) event_api" and H :: "'w host_api"
begin

lemma alarm_cb_opens: "opens_same st (temp_alarm_alarm_cb L S st)"
proof -
  have "envs_same env_map live_txns live_cursors (ag_envs st) (ag_envs (temp_alarm_alarm_cb L S st))"
    using demo_check_spec [of st S]
    by (auto simp: temp_alarm_alarm_cb_def check_result_def split: prod.splits)
  then have "(ag_envs (temp_alarm_alarm_cb L S st) i = None) = (ag_envs st i = None)" for i
    by (auto simp: envs_same_def dest!: spec [of _ i] elim!: option.rel_cases)
  then show ?thesis by (simp add: opens_same_def)
qed

lemma dispatch_ok:
  assumes "loop_ok opened base lfd st0 ipc w st" and "ipc_server_dispatch L S K ipc fds w st = Some (ipc', w', st')"
  shows "loop_ok opened base lfd st0 ipc' w' st'"
proof -
  from assms(1) obtain srv where srv: "ipc = Some srv" "srv_listen_fd srv = lfd"
    "slots_own base (opened w) (srv_clients srv)" by (auto simp: loop_ok_def)
  from dispatch_own [OF assms(2) [unfolded srv(1)] srv(3)] obtain srv' where
    d: "ipc' = Some srv'" "slots_own base (opened w') (srv_clients srv')" "srv_listen_fd srv' = srv_listen_fd srv"
    by blast
  have "\<forall>c \<in> set (srv_clients srv). client_ok c" using srv(3) by (simp add: slots_own_def)
  from stays_open.dispatch_keeps [OF assms(2) [unfolded srv(1)] this, of "ag_envs st"]
  have "opens_same st st'" by (simp add: opens_same_def)
  with assms(1) srv d show ?thesis by (auto simp: loop_ok_def intro: opens_same_trans)
qed

lemma turn_ok:
  assumes "loop_ok opened base lfd st0 ipc w st" and "loop_turn L S K E ipc w st = Some (ok, ipc', w', st')"
  shows "loop_ok opened base lfd st0 ipc' w' st'"
proof -
  obtain n fds b w1 where a: "select_args E ipc w = (n, fds, b, w1)" by (cases "select_args E ipc w")
  obtain r w2 where s: "ev_select E w1 n fds b = (r, w2)" by fastforce
  have "opened w1 = opened w"
    using a select_opened(1) [of w] by (auto simp: select_args_def Let_def split: prod.splits)
  with select_opened(2) [OF s] have w2: "opened w2 = opened w" by simp
  have ok2: "loop_ok opened base lfd st0 ipc w2 st" using assms(1) w2 by (rule loop_ok_step) simp
  have alarms: "loop_ok opened base lfd st0 ipc4 w4 st4"
    if "loop_ok opened base lfd st0 ipc4 w3 st3" "ev_run_alarms E (temp_alarm_alarm_cb L S) st3 w3 = (st4, w4)"
    for ipc4 w3 st3 st4 w4
    using alarm_events [OF that(2) alarm_cb_opens] loop_ok_step [OF that(1)] by simp
  show ?thesis
  proof (cases r)
    case (Sel_Ready ready)
    obtain st3 w3 where rd: "ev_snmp_read E ready st w2 = (st3, w3)" by fastforce
    have ok3: "loop_ok opened base lfd st0 ipc w3 st3"
      using snmp_events(1) [OF rd] loop_ok_step [OF ok2] by simp
    from assms(2) a s Sel_Ready rd obtain ipc4 w4 st4 where
      d: "ipc_server_dispatch L S K ipc ready w3 st3 = Some (ipc4, w4, st4)"
      by (auto simp: loop_turn_def split: option.splits)
    with assms(2) a s Sel_Ready rd have "ev_run_alarms E (temp_alarm_alarm_cb L S) st4 w4 = (st', w')" "ipc' = ipc4"
      by (auto simp: loop_turn_def split: prod.splits)
    with alarms dispatch_ok [OF ok3 d] show ?thesis by blast
  next
    case Sel_Timeout
    obtain st3 w3 where t: "ev_snmp_timeout E st w2 = (st3, w3)" by fastforce
    have ok3: "loop_ok opened base lfd st0 ipc w3 st3"
      using snmp_events(2) [OF t] loop_ok_step [OF ok2] by simp
    from assms(2) a s Sel_Timeout t have "ev_run_alarms E (temp_alarm_alarm_cb L S) st3 w3 = (st', w')" "ipc' = ipc"
      by (auto simp: loop_turn_def split: prod.splits)
    with alarms ok3 show ?thesis by blast
  qed (use assms(2) a s ok2 in \<open>auto simp: loop_turn_def\<close>)
qed

text \<open>The shutdown of open environments empties both handles and closes both files.\<close>

lemma shutdown_closes:
  assumes "\<And>i. envs i \<noteq> None"
  shows "fst (subagent_storage_shutdown envs) = (\<lambda>_. None)"
    and "balance (snd (subagent_storage_shutdown envs)) = - 2"
proof -
  have "(envs(Cache_Env := None, Config_Env := None)) i = None" for i by (cases i) auto
  then show "fst (subagent_storage_shutdown envs) = (\<lambda>_. None)"
    by (auto simp: subagent_storage_shutdown_def)
  show "balance (snd (subagent_storage_shutdown envs)) = - 2"
    using assms [of Config_Env] assms [of Cache_Env] by (simp add: subagent_storage_shutdown_def)
qed

text \<open>Whatever way the process ends, it leaves no descriptor and no environment open.\<close>

lemma run_subagent_clean:
  assumes "run_subagent L S K E H G getenv cp ca ip w g = Some (code, w', st', ev, g')"
  shows "opened w' = opened w \<and> ag_envs st' = (\<lambda>_. None) \<and> balance ev = 0"
proof -
  obtain ret envs ev1 where i: "subagent_storage_init L getenv cp ca (\<lambda>_. None) = (ret, envs, ev1)"
    by (cases "subagent_storage_init L getenv cp ca (\<lambda>_. None)")
  note opens = init_opens [OF i]
  note run = assms [unfolded run_subagent_def Let_def, simplified initial_agent_def agent.simps i prod.case]
  show ?thesis
  proof (cases "ret = 0")
    case False
    with run opens show ?thesis by (auto simp: host_opened)
  next
    case True
    have all_open: "envs i \<noteq> None" for i using opens True by (auto dest: spec [of _ i])
    obtain ipc w1 where s: "ipc_server_start K (snmp_init_snmp H w) (Some ip) = (ipc, w1)" by fastforce
    note own = start_own [OF s, unfolded host_opened]
    let ?w1 = "snmp_register_alarm H w1 5"
    show ?thesis
    proof (cases ipc)
      case None
      with run True s own opens shutdown_closes [of envs, OF all_open] show ?thesis
        by (auto simp: host_opened split: prod.splits)
    next
      case (Some srv)
      let ?st = "initial_agent\<lparr>ag_envs := envs\<rparr>"
      let ?base = "insert (srv_listen_fd srv) (opened w)"
      let ?lfd = "srv_listen_fd srv"
      have ok: "loop_ok opened ?base ?lfd ?st ipc ?w1 ?st"
        using own Some by (auto simp: loop_ok_def slots_own_def host_opened)
      obtain ipc2 w2 st2 where l: "event_loop L S K E ipc ?w1 ?st = Some (ipc2, w2, st2)"
        using run True s Some by (auto simp: initial_agent_def split: option.splits)
      have "loop_ok opened ?base ?lfd ?st ipc2 w2 st2"
        using l ok turn_ok by (rule event_loop_invariant [where P = "loop_ok opened ?base ?lfd ?st"])
      then obtain srv2 where srv2: "ipc2 = Some srv2" "srv_listen_fd srv2 = ?lfd"
        "slots_own ?base (opened w2) (srv_clients srv2)" "opens_same ?st st2"
        by (auto simp: loop_ok_def)
      have "slots_own ?base (opened (snmp_shutdown H w2)) (srv_clients srv2)" using srv2(3) by (simp add: host_opened)
      then have "opened (ipc_server_stop K (snmp_shutdown H w2) ipc2) = opened w"
        using stop_closes srv2(1,2) own Some by auto
      moreover have "ag_envs st2 i \<noteq> None" for i using srv2(4) all_open by (auto simp: opens_same_def)
      ultimately show ?thesis
        using run True s Some l opens shutdown_closes [of "ag_envs st2"]
        by (auto simp: initial_agent_def split: prod.splits)
    qed
  qed
qed

lemma signals_opened: "install_signal_handlers H w = (ret, w') \<Longrightarrow> opened w' = opened w"
  by (auto simp: install_signal_handlers_def split: prod.splits if_splits dest!: sigaction_opened)

lemma main_subagent_clean:
  assumes "main_subagent L S K E H G getenv args w g = Some (code, w', st', ev, g')"
  shows "opened w' = opened w \<and> ag_envs st' = (\<lambda>_. None) \<and> balance ev = 0"
proof (cases "parse_options no_options '''' args")
  case (Exit n)
  with assms show ?thesis by (auto simp: main_subagent_def initial_agent_def)
next
  case (Proceed op)
  let ?w0 = "case op_log_mode op of Log_Stderr \<Rightarrow> snmp_enable_stderrlog H w
    | Log_File \<Rightarrow> snmp_enable_filelog H w (op_log_file op) | Log_Default \<Rightarrow> w"
  obtain ret w1 where i: "install_signal_handlers H ?w0 = (ret, w1)" by fastforce
  have "opened w1 = opened w" using signals_opened [OF i] by (simp add: host_opened split: log_mode.splits)
  then show ?thesis
    using assms Proceed i
    by (auto simp: main_subagent_def initial_agent_def Let_def host_opened split: if_splits option.splits
        dest!: run_subagent_clean)
qed

end

subsection \<open>An executable instance\<close>

text \<open>
  \<open>select\<close> reports every descriptor ready until nothing is left to accept or read; net-snmp has no
  descriptors of its own and the alarm fires every turn. Signals are always accepted.
\<close>

definition event_demo :: "(('e, 'v) agent, net_world) event_api" where
  "event_demo = \<lparr>
     ev_stop_requested = (\<lambda>w. nw_waiting w = 0 \<and> list_all (\<lambda>(f, b). b = []) (nw_in w)),
     ev_select_info = (\<lambda>w. (0, [], False, w)),
     ev_select = (\<lambda>w n fds block. (Sel_Ready fds, w)),
     ev_snmp_read = (\<lambda>fds st w. (st, w)),
     ev_snmp_timeout = (\<lambda>st w. (st, w)),
     ev_run_alarms = (\<lambda>cb st w. (cb st, w))\<rparr>"

definition host_demo :: "'w host_api" where
  "host_demo = \<lparr>os_sigaction = (\<lambda>w s h. (True, w)), snmp_enable_stderrlog = id, snmp_enable_filelog = (\<lambda>w f. w),
     netsnmp_daemonize = (\<lambda>w b. w), snmp_set_agentx_socket = (\<lambda>w p. w), snmp_init_agent = id,
     snmp_init_snmp = id, snmp_register_alarm = (\<lambda>w n. w), snmp_shutdown = id\<rparr>"

interpretation event_demo: events net_demo "\<lambda>w. set (nw_open w)" event_demo
  by unfold_locales (auto simp: event_demo_def)

interpretation host_demo: host host_demo opened
  for opened by unfold_locales (auto simp: host_demo_def)

interpretation demo_process: process "memdb lim" mem_map me_txns me_cursors mem_txn_map mt_ro mem_cur_map
    mc_pos net_demo "\<lambda>w. set (nw_open w)" event_demo host_demo
  for lim ..

end
