(* ===== verification/Agent_Properties.thy ===== *)
theory Agent_Properties
  imports Handler_Properties Codec_Properties Configuration Subagent_Main
begin

text \<open>
  The properties of the agent as a whole: the configuration seen through SNMP and IPC
  (\<open>src/generated/demo_config.c\<close>, \<open>src/ipc_server.c\<close>), the registered MIB (\<open>src/generated\<close>) and the command
  line (\<open>src/main.c\<close>).
\<close>



text \<open>
  C12. The two interfaces agree on what they write: an admissible value written over IPC is what a GET of
  the scalar then answers, with the ASN.1 type of the object, and a value committed by an SNMP SET is
  what an IPC read of the key then returns.
\<close>

theorem interfaces_agree:
  assumes "subagent_reliable L env_map live_txns live_cursors txn_map txn_ro cur_map cur_pos S req_error req_result"
    and "ob \<in> config_scalars" and "ag_writable st (scalar_env ob)" and "req_error r = SNMP_ERR_NOERROR"
  shows "(wreq_key req = scalar_key ob \<longrightarrow> wreq_has_value req \<longrightarrow> admits (scalar_object ob) (wreq_value req) \<longrightarrow>
      (\<exists>wr st1 st2 r'. handle_write_config L st req = (wr, st1) \<and> wresp_status wr = STATUS_OK \<and>
        scalar_handler L S ob MODE_GET st1 r = (SNMP_ERR_NOERROR, st2, r') \<and> req_error r' = SNMP_ERR_NOERROR \<and>
        req_result r' = Some (value_answer ob (wreq_value req)))) \<and>
    (set_run (scalar_handler L S ob) req_error st q Committed st' q' \<longrightarrow>
      (\<exists>rr st2. handle_read_config L st' \<lparr>rreq_key = scalar_key ob\<rparr> = (rr, st2) \<and> rresp_status rr = STATUS_OK \<and>
        rresp_value rr = value_view (co_type (scalar_object ob)) (request_value S ob q)))"
  using subagent_reliable.ipc_write_get [OF assms] subagent_reliable.snmp_set_read [OF assms(1-3)] assms(4) by blast

theorem interfaces_agree_witness:
  "\<exists>wr st1 st2 r'. handle_write_config (memdb no_limits) (demo_agent []) (set_interval 30) = (wr, st1) \<and>
    scalar_handler (memdb no_limits) snmp_demo SampleIntervalSec MODE_GET st1 (demo_req ASN_UNSIGNED 0 [] None) =
      (SNMP_ERR_NOERROR, st2, r') \<and> dr_result r' = Some (ASN_UNSIGNED, Inl 30)"
proof -
  have p: "SampleIntervalSec \<in> config_scalars" "ag_writable (demo_agent []) (scalar_env SampleIntervalSec)"
    "dr_error (demo_req ASN_UNSIGNED 0 [] None) = SNMP_ERR_NOERROR"
    by (simp_all add: config_scalars_def ag_writable_def demo_agent_def demo_req_def)
  have "wreq_key (set_interval 30) = scalar_key SampleIntervalSec" "wreq_has_value (set_interval 30)"
    "admits (scalar_object SampleIntervalSec) (wreq_value (set_interval 30))"
    by (simp_all add: set_interval_def admits_def scalar_object_simps)
  with interfaces_agree [OF demo_reliable.subagent_reliable_axioms p, where req = "set_interval 30"
      and q = "demo_req ASN_UNSIGNED 0 [] None" and q' = "demo_req ASN_UNSIGNED 0 [] None" and st' = "demo_agent []"]
  show ?thesis by (auto simp: set_interval_def)
qed







end
