(* ===== verification/Spec2Isabelle.thy ===== *)
theory Spec2Isabelle
  imports Storage_Properties Agent_Properties
begin

text \<open>
  The agentx-subagent is an AgentX subagent for a small demo MIB. One single-threaded process holds
  two LMDB environments: \<open>config.lmdb\<close> (persistent, this process is its only writer) and
  \<open>cache.lmdb\<close> (volatile, filled by a separate Rust application). SNMP requests reach it through
  net-snmp, which calls the generated MIB handlers; the Rust application reaches it through a Unix
  socket with length-prefixed protobuf messages. Handlers and IPC server read and write the
  environments through the storage library; a SET of the temperature threshold, a timer, and an IPC
  request lead to the trap module. This development translates that C code into HOL functions on
  explicit states and proves what makes it correct.

  \<^bold>\<open>Theories and sources.\<close>

  \<^item> \<open>Prelude\<close>: machine types (words of the C widths), the named collections of the component
    proofs, generic lemmas.
  \<^item> \<open>Lmdb\<close>, \<open>Lmdb_Memory\<close>: liblmdb, \<open>malloc\<close> and \<open>mkdir\<close> are not part of the repository. They are a
    record of operations, a parameter of every definition that calls them. \<open>lmdb_laws\<close> states the
    documented behaviour every theorem relies on (snapshots, atomic commit, ordered cursors, any call
    may fail without effect); \<open>lmdb_reliable\<close> adds that calls succeed. \<open>memdb\<close> is an executable
    store with configurable limits that satisfies them and serves the witnesses.
  \<^item> \<open>Storage_Codec\<close>, \<open>Storage_Lmdb\<close>: \<open>src/storage_lmdb.c\<close>, function by function. \<open>Storage_Contract\<close>
    states the library's promise as the locale \<open>cell_store\<close> (a typed cell under a key) and shows that
    the four value types provide it; \<open>Storage_Iter\<close> and \<open>Storage_Txn\<close> do the same for the iterator
    and explicit transactions. Properties: \<open>Storage_Properties\<close>.
  \<^item> \<open>Table_Rows\<close>: \<open>src/table_rows.c\<close>; \<open>Table_Instance_Codec\<close>, \<open>Table_Order\<close> (locale \<open>comparator\<close>)
    and \<open>Table_Rows_Load\<close> prove the instance syntax, the row order and the row discovery correct.
    \<open>Table_Oid\<close>: \<open>src/table_oid.c\<close>. Properties: \<open>Table_Properties\<close>.
  \<^item> \<open>Net_Snmp\<close>: what is used of net-snmp, a parameter with the laws \<open>snmp_laws\<close>,
    \<open>snmp_index_laws\<close>, \<open>snmp_index_syntax\<close> and \<open>snmp_varlists\<close>, and a demo instance.
  \<^item> \<open>Agent\<close>: the globals of \<open>include/subagent_env.h\<close>, the alarm state, the traps sent so far and the
    modes of \<open>include/storage_mode.h\<close>. \<open>Demo_Trap\<close>: \<open>src/demo_trap.c\<close>.
  \<^item> \<open>Scalar_Handlers\<close>: \<open>src/generated/demo_config.c\<close> and \<open>demo_status.c\<close>. \<open>Set_Phases\<close> is the SET
    protocol of net-snmp as a step relation, with the contract \<open>settable\<close> that each handler meets;
    \<open>Scalar_Objects\<close> describes all eight objects uniformly. \<open>Table_Handlers\<close>: \<open>demo_config_table.c\<close>
    and \<open>demo_status_table.c\<close>; \<open>Table_Set\<close> is a SET that is undone, \<open>Table_Commit\<close> one that is committed,
    \<open>Table_Walk\<close> a walk over a table. \<open>Mib_Registration\<close>: the \<open>init_*\<close> functions, with net-snmp's registry
    as the locale \<open>registry\<close>. Properties: \<open>Handler_Properties\<close>, \<open>Table_Properties\<close>.
  \<^item> \<open>Storage_Bootstrap\<close>: \<open>src/generated/storage_bootstrap.c\<close> with the blocks that the preprocessor
    keeps under the modes of \<open>storage_mode.h\<close>.
  \<^item> \<open>Ipc_Config\<close> (request handlers), \<open>Ipc_Server\<close> (frames, slots, dispatch): \<open>src/ipc_server.c\<close> and
    the messages of \<open>agentx_ipc.pb.h\<close>. \<open>Ipc_Framing\<close> relates the buffer handling to a reference reading
    of the byte stream; \<open>Ipc_Sockets\<close> holds the contracts of the kernel (\<open>byte_stream\<close>, \<open>wire\<close>,
    \<open>finite_work\<close>, \<open>descriptors\<close>) and a demo network; \<open>Ipc_Loop\<close> lifts an invariant of one request to a
    whole dispatch. The protobuf codec is a parameter of these theories. Properties: \<open>Ipc_Properties\<close>.
  \<^item> \<open>Nanopb_Varint\<close>, \<open>Nanopb\<close>: the vendored \<open>third_party/nanopb\<close> (\<open>pb_encode.c\<close>, \<open>pb_decode.c\<close>) for the
    field types the messages use. \<open>Nanopb_Codec\<close> relates both directions to a reference wire format, for
    any message descriptor. \<open>Ipc_Messages\<close>: the field lists, sizes and structs of \<open>agentx_ipc.pb.h\<close>, and the
    two calls of the server into nanopb. \<open>Ipc_Codec\<close>: the server with this codec; \<open>nanopb_stream\<close> is the
    contract of the kernel alone, and the laws of a codec that \<open>wire\<close> asks for are proved (a \<open>sublocale\<close>).
    Properties: \<open>Codec_Properties\<close>.
  \<^item> \<open>Configuration\<close>: the four read-write scalars as seen by SNMP and by IPC, and the events of the agent
    as a step relation. \<open>Main_Options\<close> and \<open>Subagent_Main\<close>: \<open>src/main.c\<close> from its arguments to its exit
    code. Properties of both: \<open>Agent_Properties\<close>.
  \<^item> This theory: the properties of the bootstrap, the initialisation and the whole process.

  \<^bold>\<open>How the code is read.\<close> A C function becomes a function of its arguments and of the objects it
  changes; out parameters are options or pairs, \<open>NULL\<close> is \<^const>\<open>None\<close>, a result code is a constructor
  of the code's own enumeration. The two environments are distinct objects and no function keeps a
  pointer into them across calls, so explicit state passing is faithful. The \<open>int32_t\<close> values are words
  read signed, and arithmetic wraps where the C standard leaves overflow undefined. Because several
  processes may share the environments, theorems about stored values are about the runs of this
  process between two changes from outside.

  \<^bold>\<open>Loops.\<close> Loops over data are total functions with their termination proofs (\<open>dedup_loop\<close>,
  \<open>parse_components\<close>, \<open>next_row\<close>, \<open>parse_options\<close>, the varint loops, \<open>pb_decode_inner\<close>). Loops that depend on the platform are partial functions into an
  option, where \<^const>\<open>None\<close> means that the call does not return: \<open>rowset_scan\<close> (shown to return
  under \<open>lmdb_laws\<close>), \<open>send_all\<close>, \<open>drain_frames\<close>, \<open>service_client\<close>, \<open>accept_new_clients\<close> (shown to
  return when the kernel has finitely much work pending, \<open>finite_work\<close>), and \<open>event_loop\<close>, which runs
  until a signal arrives. No fuel is used.

  \<^bold>\<open>What is shown.\<close> Storage: typed round trips, atomic writes and transactions, the classification of
  damaged records, refusal of bad keys and of writes to a read-only environment, an ordered iterator
  and no leaked handle. Tables: a bijective instance syntax, injective cell keys, the row set is the
  sorted set of stored rows, a walk visits exactly these. Handlers: GET answers, RESERVE1 verdicts,
  commit stores exactly the accepted value, undo restores, the registered nodes are disjoint
  and have the access their handlers implement. Trap: refinement of a two-state edge
  machine, one trap per rising edge. Bootstrap: only adds, is complete and idempotent. IPC: admissible
  writes only, answers in order whatever the segmentation, every dispatch returns, no descriptor
  leaks. Messages: the varints are base 128 numbers, an envelope in bounds is decoded from its encoding, no input makes the
  decoder exceed an array, the size macros bound every encoding; so every answer is encodable, and a peer
  decodes the answers to its requests from the bytes sent. Agent: after any sequence of events the configuration is in range and SNMP and IPC read the
  same values. Process: the options mean what the usage text says, start-up is all or nothing and
  every exit releases what was opened.

  \<^bold>\<open>Not modelled.\<close> Usage and log texts, and the release of heap memory (\<open>table_rowset_free\<close>,
  \<open>free_loop_context\<close>), which has no effect on the model's state; the qsort adapter \<open>compare_instances\<close>;
  the body of the signal handler, which is the flag the event loop polls; what net-snmp, LMDB
  and libc do beyond the laws stated as locales; the parts of nanopb for field types no message has
  (repeated, required, pointer, callback, extension, fixed width), its error texts, and the packed
  descriptor tables that \<open>agentx_ipc.pb.c\<close> generates from the field lists; the Rust application, the mib2c templates, tests and packaging. \<open>getopt\<close> is modelled
  as POSIX describes it, without the reordering of operands by glibc.
\<close>

section \<open>Properties that span components\<close>

text \<open>
  C20. Seeding defaults destroys nothing and is atomic: whatever the platform does, a bootstrap that
  succeeds has only added documented defaults under keys that were absent (the cache bootstrap with
  \<open>overwrite\<close> may replace a value by its default), one that fails has changed nothing, and in both
  cases no handle stays open.
\<close>

theorem bootstrap_preserves:
  assumes "lmdb_laws L env_map live_txns live_cursors txn_map txn_ro cur_map cur_pos"
  shows "(case config_bootstrap_defaults L (Some env) of (rc, envp) \<Rightarrow>
      \<exists>env'. envp = Some env' \<and> same_handle live_txns live_cursors env env' \<and>
        (if rc = STORAGE_OK
         then \<forall>k. env_map (se_env env') k = env_map (se_env env) k \<or>
           (\<exists>d. (k, d) \<in> set config_defaults \<and> env_map (se_env env') k = Some d \<and> env_map (se_env env) k = None)
         else env_map (se_env env') = env_map (se_env env))) \<and>
    (case cache_bootstrap_defaults L (Some env) overwrite of (rc, envp) \<Rightarrow>
      \<exists>env'. envp = Some env' \<and> same_handle live_txns live_cursors env env' \<and>
        (if rc = STORAGE_OK
         then \<forall>k. env_map (se_env env') k = env_map (se_env env) k \<or>
           (\<exists>d. (k, d) \<in> set cache_defaults \<and> env_map (se_env env') k = Some d \<and>
             (overwrite \<or> env_map (se_env env) k = None))
         else env_map (se_env env') = env_map (se_env env)))"
proof -
  obtain rc1 p1 where 1: "config_bootstrap_defaults L (Some env) = (rc1, p1)" by fastforce
  obtain rc2 p2 where 2: "cache_bootstrap_defaults L (Some env) overwrite = (rc2, p2)" by fastforce
  note fills = lmdb_laws.bootstrap_fills [OF assms lmdb_laws.config_seeds [OF assms]
      1 [unfolded config_bootstrap_defaults_def]]
    lmdb_laws.bootstrap_fills [OF assms lmdb_laws.cache_seeds [OF assms refl]
      2 [unfolded cache_bootstrap_defaults_def]]
  show ?thesis unfolding 1 2 prod.case using fills unfolding filled_def simp_thms by (rule conjI)
qed

theorem bootstrap_preserves_witness:
  "case config_bootstrap_defaults (memdb \<lparr>max_keys = Some 3, max_txns = None, max_alloc = None\<rparr>)
      (Some (demo_store False [(''deviceName'', [])])) of (rc, envp) \<Rightarrow>
    \<exists>env'. envp = Some env' \<and> (rc \<noteq> STORAGE_OK \<longrightarrow> mem_map (se_env env') = [''deviceName'' \<mapsto> []])"
proof -
  let ?lim = "\<lparr>max_keys = Some 3, max_txns = None, max_alloc = None\<rparr>"
  obtain rc envp where b: "config_bootstrap_defaults (memdb ?lim) (Some (demo_store False [(''deviceName'', [])])) =
    (rc, envp)" by fastforce
  from bootstrap_preserves [OF mem.lmdb_laws_axioms [of ?lim],
      where env = "demo_store False [(''deviceName'', [])]" and overwrite = False, unfolded b prod.case]
  show ?thesis unfolding b prod.case by (cases "rc = STORAGE_OK") auto
qed

text \<open>
  C32. Seeding is complete and idempotent: while the platform has resources, after a bootstrap of a
  writable environment every documented default whose key was absent is there, every other key has
  the value it had, and a second bootstrap succeeds and changes nothing more.
\<close>

theorem bootstrap_complete:
  assumes "lmdb_reliable L env_map live_txns live_cursors txn_map txn_ro cur_map cur_pos"
    and "\<not> se_readonly env"
  shows "(\<exists>e1 e2. config_bootstrap_defaults L (Some env) = (STORAGE_OK, Some e1) \<and>
      (\<forall>k. env_map (se_env e1) k =
        (case env_map (se_env env) k of Some d \<Rightarrow> Some d | None \<Rightarrow> map_of config_defaults k)) \<and>
      config_bootstrap_defaults L (Some e1) = (STORAGE_OK, Some e2) \<and> env_map (se_env e2) = env_map (se_env e1)) \<and>
    (\<exists>e1 e2. cache_bootstrap_defaults L (Some env) False = (STORAGE_OK, Some e1) \<and>
      (\<forall>k. env_map (se_env e1) k =
        (case env_map (se_env env) k of Some d \<Rightarrow> Some d | None \<Rightarrow> map_of cache_defaults k)) \<and>
      cache_bootstrap_defaults L (Some e1) False = (STORAGE_OK, Some e2) \<and> env_map (se_env e2) = env_map (se_env e1))"
  using lmdb_reliable.bootstrap_twice [OF assms] by blast

theorem bootstrap_complete_witness:
  "\<exists>e1. config_bootstrap_defaults (memdb no_limits) (Some (demo_store False [(''adminStatusExt'', encode_int 3)])) =
      (STORAGE_OK, Some e1) \<and> mem_map (se_env e1) ''adminStatusExt'' = Some (encode_int 3) \<and>
    mem_map (se_env e1) ''sampleIntervalSec'' = Some (encode_uint 60)"
proof -
  let ?env = "demo_store False [(''adminStatusExt'', encode_int 3)]"
  have "\<not> se_readonly ?env" by simp
  from bootstrap_complete [OF mem_free.lmdb_reliable_axioms this] obtain e1 where
    "config_bootstrap_defaults (memdb no_limits) (Some ?env) = (STORAGE_OK, Some e1)"
    "\<forall>k. mem_map (se_env e1) k =
      (case mem_map (se_env ?env) k of Some d \<Rightarrow> Some d | None \<Rightarrow> map_of config_defaults k)" by blast
  then show ?thesis by (simp add: config_defaults_def)
qed



text \<open>
  C6. The process cleans up after itself: whenever \<open>main\<close> returns, after a rejected command line, a
  failed start-up, a failed IPC socket or after any number of turns of the event loop with any
  traffic, every descriptor it opened is closed again, both environment handles are \<open>NULL\<close> and every LMDB
  environment that was created has been closed.
\<close>

theorem subagent_exits_clean:
  assumes "process L env_map live_txns live_cursors txn_map txn_ro cur_map cur_pos K opened E H"
    and "main_subagent L S K E H G getenv args w g = Some (code, w', st', ev, g')"
  shows "opened w' = opened w \<and> ag_envs st' = (\<lambda>_. None) \<and> balance ev = 0"
  using process.main_subagent_clean [OF assms] .

definition quiet_world :: net_world where
  "quiet_world = \<lparr>nw_in = [], nw_waiting = 0, nw_out = [], nw_open = [0, 1, 2], nw_room = 8\<rparr>"

lemma quiet_start:
  "ipc_server_start net_demo quiet_world p = (ipc, w) \<Longrightarrow>
     ev_stop_requested (event_demo :: (('e, 'v) agent, net_world) event_api) w"
  by (auto simp: event_demo_def ipc_server_start_def net_demo_def quiet_world_def Let_def
      split: option.splits if_splits)

theorem subagent_exits_clean_witness:
  "\<exists>code w' st' ev g'. main_subagent (memdb no_limits) snmp_demo net_demo event_demo host_demo registry_roomy
      (\<lambda>_. None) [''-f'', ''-L'', ''o''] quiet_world \<lparr>mw_served = [], mw_held = 0, mw_room = None\<rparr> =
      Some (code, w', st', ev, g') \<and> set (nw_open w') = {0, 1, 2} \<and> balance ev = 0"
proof -
  let ?run = "main_subagent (memdb no_limits) snmp_demo net_demo event_demo host_demo registry_roomy
    (\<lambda>_. None) [''-f'', ''-L'', ''o''] quiet_world \<lparr>mw_served = [], mw_held = 0, mw_room = None\<rparr>"
  have "parse_options no_options '''' [''-f'', ''-L'', ''o''] =
      Proceed (no_options\<lparr>op_foreground := True, op_log_mode := Log_Stderr\<rparr>)"
    using parse_occurrences [of "[Foreground, Log_To_Stderr]" "[[''-f''], [''-L'', ''o'']]" no_options "[]"]
    by (simp add: spells.intros parse_end)
  then have "?run \<noteq> None"
    by (auto simp: main_subagent_def install_signal_handlers_def host_demo_def run_subagent_def no_options_def Let_def
        event_loop.simps dest: quiet_start split: prod.splits)
  then obtain code w' st' ev g' where r: "?run = Some (code, w', st', ev, g')" by auto
  from subagent_exits_clean [OF demo_process.process_axioms r] r show ?thesis
    by (auto simp: quiet_world_def)
qed

end
